theory Spec2Isabelle
  imports Complex_Main "HOL-Library.Signed_Division"
begin

section \<open>Data model (models.go)\<close>

text \<open>
  The structs of package \<open>game\<close> become records with the source's field names. Where a
  struct field name is shared by several structs (\<open>Key\<close>, \<open>Name\<close>), the record fields
  carry their struct's initial as a prefix.

  Go's \<open>int\<close> (64 bits on the platforms the server is built for) and \<open>int64\<close> are two's
  complement integers: the result of \<open>+\<close>, \<open>-\<close> and \<open>*\<close> is the mathematical result
  reduced into the range from \<open>-2^63\<close> to \<open>2^63 - 1\<close>. The record fields are of type
  \<open>int\<close> and the reduction is written out as \<open>int64\<close> at every operation, the refuel
  cost excepted (see \<open>HandleRefuel\<close>). Go's \<open>/\<close> on integers truncates towards zero and
  panics on a zero divisor; it is \<open>sdiv\<close> guarded by an explicit test.
\<close>

definition int64 :: "int \<Rightarrow> int" where
  "int64 x = (x + 2 ^ 63) mod 2 ^ 64 - 2 ^ 63"

text \<open>
  The result of an operation on \<open>float64\<close> is the mathematical result rounded to 53
  significant bits, ties to even (\<open>float64\<close>). The exponent range is not modelled:
  there are no infinities, no subnormal numbers and no NaN. The heat values of the
  market are kept as real numbers.
\<close>

definition roundEven :: "real \<Rightarrow> int" where
  "roundEven x =
     (if x - of_int \<lfloor>x\<rfloor> < 1 / 2 then \<lfloor>x\<rfloor>
      else if x - of_int \<lfloor>x\<rfloor> > 1 / 2 then \<lfloor>x\<rfloor> + 1
      else if even \<lfloor>x\<rfloor> then \<lfloor>x\<rfloor> else \<lfloor>x\<rfloor> + 1)"

definition float64 :: "real \<Rightarrow> real" where
  "float64 x =
     (if x = 0 then 0
      else let ulp = 2 powr (of_int \<lfloor>log 2 \<bar>x\<bar>\<rfloor> - 52)
           in of_int (roundEven (x / ulp)) * ulp)"

text \<open>
  \<open>int(x)\<close> and \<open>int64(x)\<close> of a \<open>float64\<close>: truncation towards zero. For a value
  outside the range of \<open>int64\<close> the language leaves the result to the implementation;
  the value taken here is the one of amd64.
\<close>

definition truncateInt :: "real \<Rightarrow> int" where
  "truncateInt x = (if x \<ge> 0 then \<lfloor>x\<rfloor> else \<lceil>x\<rceil>)"

definition toInt64 :: "real \<Rightarrow> int" where
  "toInt64 x = (if - (2 ^ 63) \<le> x \<and> x < 2 ^ 63 then truncateInt x else - (2 ^ 63))"

record GameBalance =
  StartingCredits :: int
  FuelCostPerUnit :: int
  FuelMassPerUnit :: int
  DistancePayoutMult :: int

record ShipModule =
  mKey :: string
  mName :: string
  Description :: string
  Cost :: int
  StatModifier :: string
  StatValue :: int

record Contract =
  ID :: string
  Type :: string
  ItemName :: string
  ItemKey :: string
  Quantity :: int
  MassPerUnit :: int
  OriginKey :: string
  DestinationKey :: string
  Payout :: int

record Planet =
  pKey :: string
  pName :: string
  Coordinates :: "int list"
  Production :: "string list"
  Demand :: "string list"
  MinCargo :: int
  MaxCargo :: int
  MinPassengers :: int
  MaxPassengers :: int

record Ship =
  sName :: string
  LocationKey :: string
  Credits :: int
  Fuel :: int
  MaxFuel :: int
  BaseBurnRate :: int
  BurnDamping :: int
  BaseMass :: int
  CargoCapacity :: int
  PassengerSlots :: int
  MaxModuleSlots :: int
  InstalledModules :: "ShipModule list"
  ActiveContracts :: "Contract list"

record PassengerConfig =
  BaseTicketPrice :: int
  MassPerPassenger :: int

record Commodity =
  cKey :: string
  cName :: string
  BaseValue :: int
  Mass :: int

record Universe =
  BalanceConfig :: GameBalance
  PlayerShipConfig :: Ship
  Commodities :: "Commodity list"
  Planets :: "Planet list"
  ShipModules :: "ShipModule list"
  PassengerConfig :: PassengerConfig

text \<open>
  \<open>map[string]map[string]float64\<close>: a missing outer key reads as the nil map, a missing
  inner key reads as \<open>0\<close>; ranging over a map visits the present keys only.
\<close>

type_synonym heatmap = "string \<rightharpoonup> (string \<rightharpoonup> real)"

record MarketState =
  SourceHeat :: heatmap
  DestHeat :: heatmap

text \<open>
  The package-level variables of state.go that the handlers mutate. \<open>CurrentUniverse\<close>
  changes only in \<open>LoadConfig\<close> and is passed as a parameter \<open>u\<close>.
  \<open>AvailableContracts\<close> is a \<open>map[string][]Contract\<close>; a missing key reads as the nil
  slice, which ranges and appends like the empty one.
\<close>

record GameState =
  PlayerShip :: Ship
  AvailableContracts :: "string \<Rightarrow> Contract list"
  Market :: MarketState

datatype panic =
  NilDereference | DivideByZero | IntnArgument | SendOnClosedChannel | CloseOfClosedChannel

section \<open>Physics (mechanics.go)\<close>

definition GetPlanet :: "Universe \<Rightarrow> string \<Rightarrow> Planet option" where
  "GetPlanet u key = find (\<lambda>p. pKey p = key) (Planets u)"

definition GetCommodity :: "Universe \<Rightarrow> string \<Rightarrow> Commodity option" where
  "GetCommodity u key = find (\<lambda>c. cKey c = key) (Commodities u)"

definition GetModule :: "Universe \<Rightarrow> string \<Rightarrow> ShipModule option" where
  "GetModule u key = find (\<lambda>m. mKey m = key) (ShipModules u)"

text \<open>
  \<open>math.Round\<close> rounds half away from zero and is exact. \<open>math.Pow(x, 2)\<close> is the
  rounded product \<open>x * x\<close> and \<open>math.Sqrt\<close> the rounded square root. The values of
  \<open>CalculateDistance\<close> before the root are integers below \<open>2^128\<close> in magnitude.
\<close>

definition mathRound :: "real \<Rightarrow> real" where
  "mathRound x = (if x \<ge> 0 then of_int \<lfloor>x + 1 / 2\<rfloor> else of_int \<lceil>x - 1 / 2\<rceil>)"

definition CalculateDistance :: "int list \<Rightarrow> int list \<Rightarrow> int" where
  "CalculateDistance p1 p2 =
     (if length p1 < 2 \<or> length p2 < 2 then 0
      else let dx = float64 (of_int (int64 (p2 ! 0 - p1 ! 0)));
               dy = float64 (of_int (int64 (p2 ! 1 - p1 ! 1)));
               dist = float64 (sqrt (float64 (float64 (dx * dx) + float64 (dy * dy))))
           in toInt64 (mathRound dist))"

definition contractMass :: "Universe \<Rightarrow> Contract \<Rightarrow> int" where
  "contractMass u c =
     (if Type c = ''cargo'' then int64 (MassPerUnit c * Quantity c)
      else int64 (MassPerPassenger (PassengerConfig u) * Quantity c))"

definition CalculateTotalMass :: "Universe \<Rightarrow> Ship \<Rightarrow> int" where
  "CalculateTotalMass u ship =
     (let total = foldl (\<lambda>total c. int64 (total + contractMass u c)) (BaseMass ship)
                    (ActiveContracts ship);
          fuelMass = int64 (Fuel ship * FuelMassPerUnit (BalanceConfig u))
      in int64 (total + fuelMass))"

text \<open>The reference mass that \<open>CalculateCurrentBurn\<close> computes first.\<close>

definition referenceMass :: "Universe \<Rightarrow> Ship \<Rightarrow> int" where
  "referenceMass u ship =
     (let halfFuel = MaxFuel ship sdiv 2;
          halfFuelMass = int64 (halfFuel * FuelMassPerUnit (BalanceConfig u))
      in int64 (BaseMass ship + halfFuelMass))"

text \<open>
  The quotient of the most negative \<open>int64\<close> by \<open>-1\<close> is reduced like the other
  results.
\<close>

definition CalculateCurrentBurn :: "Universe \<Rightarrow> Ship \<Rightarrow> panic + int" where
  "CalculateCurrentBurn u ship =
     (let currentMass = CalculateTotalMass u ship;
          massDiff = int64 (currentMass - referenceMass u ship)
      in if BurnDamping ship = 0 then Inl DivideByZero
         else let burnAdjustment = int64 (massDiff sdiv BurnDamping ship);
                  finalBurn = int64 (BaseBurnRate ship + burnAdjustment)
              in if finalBurn < 100 then Inr 100 else Inr finalBurn)"

section \<open>Market heat (economy.go)\<close>

definition heatAt :: "heatmap \<Rightarrow> string \<Rightarrow> string \<Rightarrow> real" where
  "heatAt h pk ck =
     (case h pk of None \<Rightarrow> 0
      | Some commodities \<Rightarrow> (case commodities ck of None \<Rightarrow> 0 | Some heat \<Rightarrow> heat))"

definition InitMarket :: "Universe \<Rightarrow> MarketState \<Rightarrow> MarketState" where
  "InitMarket u m =
     (let neutral = foldl (\<lambda>cs c. cs(cKey c \<mapsto> 1)) Map.empty (Commodities u)
      in foldl (\<lambda>m p. m\<lparr>SourceHeat := (SourceHeat m)(pKey p \<mapsto> neutral),
                          DestHeat := (DestHeat m)(pKey p \<mapsto> neutral)\<rparr>) m (Planets u))"

definition RecordAcceptance :: "MarketState \<Rightarrow> string \<Rightarrow> string \<Rightarrow> int \<Rightarrow> MarketState" where
  "RecordAcceptance m originKey itemKey qty =
     (case SourceHeat m originKey of
        None \<Rightarrow> m
      | Some commodities \<Rightarrow>
          let impact = real_of_int qty * 0.01;
              old = (case commodities itemKey of None \<Rightarrow> 0 | Some heat \<Rightarrow> heat)
          in m\<lparr>SourceHeat := (SourceHeat m)(originKey \<mapsto> commodities(itemKey \<mapsto> old + impact))\<rparr>)"

definition RecordDelivery :: "MarketState \<Rightarrow> string \<Rightarrow> string \<Rightarrow> int \<Rightarrow> MarketState" where
  "RecordDelivery m destKey itemKey qty =
     (case DestHeat m destKey of
        None \<Rightarrow> m
      | Some commodities \<Rightarrow>
          let impact = real_of_int qty * 0.02;
              old = (case commodities itemKey of None \<Rightarrow> 0 | Some heat \<Rightarrow> heat)
          in m\<lparr>DestHeat := (DestHeat m)(destKey \<mapsto> commodities(itemKey \<mapsto> old + impact))\<rparr>)"

definition recoveryRate :: real where
  "recoveryRate = 0.05"

text \<open>The body of both loops of \<open>MarketTick\<close>: the new value of one heat entry.\<close>

definition tickHeat :: "real \<Rightarrow> real" where
  "tickHeat heat =
     (if heat > 1.0 then max 1.0 (heat - recoveryRate)
      else if heat < 1.0 then min 1.0 (heat + recoveryRate)
      else heat)"

definition tickMap :: "heatmap \<Rightarrow> heatmap" where
  "tickMap h = (\<lambda>pk. map_option (\<lambda>commodities ck. map_option tickHeat (commodities ck)) (h pk))"

definition MarketTick :: "GameState \<Rightarrow> GameState" where
  "MarketTick s =
     s\<lparr>Market := \<lparr>SourceHeat = tickMap (SourceHeat (Market s)),
                   DestHeat = tickMap (DestHeat (Market s))\<rparr>\<rparr>"

section \<open>Request handlers (handlers.go)\<close>

text \<open>
  A handler takes the decoded request body (\<open>None\<close> when decoding fails) and the state,
  and returns what it writes together with the state it leaves. \<open>http.Error\<close> is
  \<open>Error\<close> with the source's message and status; a run-time panic unwinds the handler
  (the deferred unlock runs) and leaves the state as it was at that point.
\<close>

datatype status =
  StatusBadRequest | StatusPaymentRequired | StatusForbidden | StatusNotFound | StatusConflict

datatype 'a response = Encode 'a | Error string status | Panic panic

fun findIdx :: "string \<Rightarrow> Contract list \<Rightarrow> nat option" where
  "findIdx contractID [] = None"
| "findIdx contractID (c # cs) =
     (if ID c = contractID then Some 0 else map_option Suc (findIdx contractID cs))"

text \<open>\<open>append(xs[:i], xs[i+1:]...)\<close>\<close>

definition removeAt :: "nat \<Rightarrow> 'a list \<Rightarrow> 'a list" where
  "removeAt i xs = take i xs @ drop (Suc i) xs"

definition loadCounts :: "Contract list \<Rightarrow> int \<times> int" where
  "loadCounts acs =
     foldl (\<lambda>(currentCargo, currentPass) ac.
              if Type ac = ''cargo'' then (int64 (currentCargo + Quantity ac), currentPass)
              else (currentCargo, int64 (currentPass + Quantity ac))) (0, 0) acs"

definition HandleAcceptContract :: "string option \<Rightarrow> GameState \<Rightarrow> Ship response \<times> GameState" where
  "HandleAcceptContract req s =
     (case req of
        None \<Rightarrow> (Error ''Bad Request'' StatusBadRequest, s)
      | Some contractID \<Rightarrow>
          let location = LocationKey (PlayerShip s);
              board = AvailableContracts s location
          in case findIdx contractID board of
               None \<Rightarrow> (Error ''Contract not found'' StatusNotFound, s)
             | Some foundIdx \<Rightarrow>
                 let target = board ! foundIdx;
                     (currentCargo, currentPass) = loadCounts (ActiveContracts (PlayerShip s))
                 in if Type target = ''cargo''
                       \<and> int64 (currentCargo + Quantity target) > CargoCapacity (PlayerShip s)
                    then (Error ''Insufficient Cargo Space'' StatusConflict, s)
                    else if Type target = ''passenger''
                       \<and> int64 (currentPass + Quantity target) > PassengerSlots (PlayerShip s)
                    then (Error ''Insufficient Passenger Slots'' StatusConflict, s)
                    else
                      let ship = (PlayerShip s)\<lparr>ActiveContracts :=
                                   ActiveContracts (PlayerShip s) @ [target]\<rparr>;
                          s' = s\<lparr>PlayerShip := ship,
                                 AvailableContracts :=
                                   (AvailableContracts s)(location := removeAt foundIdx board),
                                 Market := RecordAcceptance (Market s) (OriginKey target)
                                             (ItemKey target) (Quantity target)\<rparr>
                      in (Encode ship, s'))"

text \<open>
  The delivery loop of \<open>HandleTravel\<close>: one pass over the active contracts with the
  remaining contracts, the payout total and the market as loop state.
\<close>

definition deliverStep ::
  "string \<Rightarrow> Contract list \<times> int \<times> MarketState \<Rightarrow> Contract \<Rightarrow> Contract list \<times> int \<times> MarketState" where
  "deliverStep location acc c =
     (case acc of (remainingContracts, payoutTotal, m) \<Rightarrow>
        if DestinationKey c = location
        then (remainingContracts, int64 (payoutTotal + Payout c),
              RecordDelivery m (DestinationKey c) (ItemKey c) (Quantity c))
        else (remainingContracts @ [c], payoutTotal, m))"

definition HandleTravel :: "Universe \<Rightarrow> string option \<Rightarrow> GameState \<Rightarrow> Ship response \<times> GameState" where
  "HandleTravel u req s =
     (case req of
        None \<Rightarrow> (Error ''Invalid Request'' StatusBadRequest, s)
      | Some destinationKey \<Rightarrow>
          (case GetPlanet u destinationKey of
             None \<Rightarrow> (Error ''Destination invalid'' StatusNotFound, s)
           | Some dest \<Rightarrow>
               (case GetPlanet u (LocationKey (PlayerShip s)) of
                  None \<Rightarrow> (Panic NilDereference, s)
                | Some current \<Rightarrow>
                    let dist = CalculateDistance (Coordinates current) (Coordinates dest)
                    in case CalculateCurrentBurn u (PlayerShip s) of
                         Inl p \<Rightarrow> (Panic p, s)
                       | Inr currentBurn \<Rightarrow>
                           let fuelNeeded = int64 (dist * currentBurn)
                           in if Fuel (PlayerShip s) < fuelNeeded
                              then (Error ''Insufficient Fuel for current mass''
                                      StatusPaymentRequired, s)
                              else
                                (case foldl (deliverStep (pKey dest)) ([], 0, Market s)
                                        (ActiveContracts (PlayerShip s)) of
                                   (remainingContracts, payoutTotal, m) \<Rightarrow>
                                     let ship = (PlayerShip s)\<lparr>
                                           Fuel := int64 (Fuel (PlayerShip s) - fuelNeeded),
                                           LocationKey := pKey dest,
                                           ActiveContracts := remainingContracts,
                                           Credits := int64 (Credits (PlayerShip s) + payoutTotal)\<rparr>
                                     in (Encode ship, s\<lparr>PlayerShip := ship, Market := m\<rparr>)))))"

text \<open>
  \<open>HandleRefuel\<close> is written with exact integer arithmetic: it is the handler of the
  source as long as the shortfall, the cost and the new balance are within the range
  of \<open>int64\<close>.
\<close>

definition HandleRefuel :: "Universe \<Rightarrow> GameState \<Rightarrow> Ship response \<times> GameState" where
  "HandleRefuel u s =
     (let fuelNeeded = MaxFuel (PlayerShip s) - Fuel (PlayerShip s)
      in if fuelNeeded \<le> 0 then (Error ''Tank is already full'' StatusBadRequest, s)
         else
           let cost = (fuelNeeded sdiv 100) * FuelCostPerUnit (BalanceConfig u)
           in if Credits (PlayerShip s) < cost
              then (Error ''Insufficient credits'' StatusForbidden, s)
              else
                let ship = (PlayerShip s)\<lparr>Credits := Credits (PlayerShip s) - cost,
                                            Fuel := MaxFuel (PlayerShip s)\<rparr>
                in (Encode ship, s\<lparr>PlayerShip := ship\<rparr>))"

definition applyModule :: "ShipModule \<Rightarrow> Ship \<Rightarrow> Ship" where
  "applyModule md ship =
     (if StatModifier md = ''cargo_capacity''
      then ship\<lparr>CargoCapacity := int64 (CargoCapacity ship + StatValue md)\<rparr>
      else if StatModifier md = ''passenger_slots''
      then ship\<lparr>PassengerSlots := int64 (PassengerSlots ship + StatValue md)\<rparr>
      else ship)"

definition HandleBuyModule :: "Universe \<Rightarrow> string option \<Rightarrow> GameState \<Rightarrow> Ship response \<times> GameState" where
  "HandleBuyModule u req s =
     (case req of
        None \<Rightarrow> (Error ''Bad Request'' StatusBadRequest, s)
      | Some moduleKey \<Rightarrow>
          if LocationKey (PlayerShip s) \<noteq> ''planet_prime''
          then (Error ''Upgrade service unavailable at this location'' StatusForbidden, s)
          else if int (length (InstalledModules (PlayerShip s))) \<ge> MaxModuleSlots (PlayerShip s)
          then (Error ''No module slots available'' StatusConflict, s)
          else
            (case GetModule u moduleKey of
               None \<Rightarrow> (Error ''Module not found'' StatusNotFound, s)
             | Some md \<Rightarrow>
                 if Credits (PlayerShip s) < Cost md
                 then (Error ''Insufficient Credits'' StatusPaymentRequired, s)
                 else
                   let ship = applyModule md ((PlayerShip s)\<lparr>
                                Credits := int64 (Credits (PlayerShip s) - Cost md),
                                InstalledModules := InstalledModules (PlayerShip s) @ [md]\<rparr>)
                   in (Encode ship, s\<lparr>PlayerShip := ship\<rparr>)))"

record TravelQuoteResponse =
  Distance :: int
  FuelCost :: int
  CanAfford :: bool
  BurnRate :: int

definition HandleTravelQuote :: "Universe \<Rightarrow> string option \<Rightarrow> GameState \<Rightarrow> TravelQuoteResponse response" where
  "HandleTravelQuote u req s =
     (case req of
        None \<Rightarrow> Error ''Invalid Request'' StatusBadRequest
      | Some destinationKey \<Rightarrow>
          (case GetPlanet u destinationKey of
             None \<Rightarrow> Error ''Destination invalid'' StatusNotFound
           | Some dest \<Rightarrow>
               (case GetPlanet u (LocationKey (PlayerShip s)) of
                  None \<Rightarrow> Panic NilDereference
                | Some current \<Rightarrow>
                    let dist = CalculateDistance (Coordinates current) (Coordinates dest)
                    in case CalculateCurrentBurn u (PlayerShip s) of
                         Inl p \<Rightarrow> Panic p
                       | Inr currentBurn \<Rightarrow>
                           let fuelNeeded = int64 (dist * currentBurn)
                           in Encode \<lparr>Distance = dist, FuelCost = fuelNeeded,
                                      CanAfford = (Fuel (PlayerShip s) \<ge> fuelNeeded),
                                      BurnRate = currentBurn\<rparr>)))"

definition HandleDropContract :: "string option \<Rightarrow> GameState \<Rightarrow> Ship response \<times> GameState" where
  "HandleDropContract req s =
     (case req of
        None \<Rightarrow> (Error ''Bad Request'' StatusBadRequest, s)
      | Some contractID \<Rightarrow>
          (case findIdx contractID (ActiveContracts (PlayerShip s)) of
             None \<Rightarrow> (Error ''Contract not found on ship'' StatusNotFound, s)
           | Some foundIdx \<Rightarrow>
               let ship = (PlayerShip s)\<lparr>ActiveContracts :=
                            removeAt foundIdx (ActiveContracts (PlayerShip s))\<rparr>
               in (Encode ship, s\<lparr>PlayerShip := ship\<rparr>)))"

section \<open>Job generation and replenishment (economy.go)\<close>

text \<open>
  The generator reads \<open>math/rand\<close> and the clock. Both are inputs of the run: a tape of
  raw values, one consumed by each call of \<open>rand.Intn\<close>, \<open>rand.Float32\<close>,
  \<open>rand.Float64\<close> and \<open>time.Now\<close>, in the order the source makes the calls. A run
  that needs more values than the tape holds has not returned (\<open>Starved\<close>): the
  resampling loops of the generator have no bound of their own.
\<close>

type_synonym tape = "nat list"

datatype 'a run = Done 'a | Panicked panic | Starved

definition andThen :: "'a run \<Rightarrow> ('a \<Rightarrow> 'b run) \<Rightarrow> 'b run" where
  "andThen r f = (case r of Done x \<Rightarrow> f x | Panicked p \<Rightarrow> Panicked p | Starved \<Rightarrow> Starved)"

text \<open>\<open>rand.Intn(n)\<close> panics when \<open>n \<le> 0\<close> and returns a value in \<open>[0, n)\<close> otherwise.\<close>

definition Intn :: "int \<Rightarrow> tape \<Rightarrow> (int \<times> tape) run" where
  "Intn n t =
     (if n \<le> 0 then Panicked IntnArgument
      else case t of [] \<Rightarrow> Starved | v # t' \<Rightarrow> Done (int v mod n, t'))"

text \<open>\<open>rand.Float32()\<close> and \<open>rand.Float64()\<close>: a multiple of \<open>2^-24\<close> (of \<open>2^-53\<close>) in \<open>[0, 1)\<close>.\<close>

definition Float32 :: "tape \<Rightarrow> (real \<times> tape) run" where
  "Float32 t = (case t of [] \<Rightarrow> Starved | v # t' \<Rightarrow> Done (real (v mod 2 ^ 24) / 2 ^ 24, t'))"

definition Float64 :: "tape \<Rightarrow> (real \<times> tape) run" where
  "Float64 t = (case t of [] \<Rightarrow> Starved | v # t' \<Rightarrow> Done (real (v mod 2 ^ 53) / 2 ^ 53, t'))"

text \<open>\<open>time.Now().UnixNano()\<close>\<close>

definition UnixNano :: "tape \<Rightarrow> (int \<times> tape) run" where
  "UnixNano t = (case t of [] \<Rightarrow> Starved | v # t' \<Rightarrow> Done (int v, t'))"

text \<open>\<open>%d\<close> of a non-negative integer.\<close>

fun showNat :: "nat \<Rightarrow> string" where
  "showNat n = (if n < 10 then [''0123456789'' ! n]
                else showNat (n div 10) @ [''0123456789'' ! (n mod 10)])"

declare showNat.simps [simp del]

text \<open>
  A random element of a slice, \<open>xs[rand.Intn(len(xs))]\<close>: the index is in range
  whenever \<open>Intn\<close> returns.
\<close>

definition randomElem :: "'a list \<Rightarrow> tape \<Rightarrow> ('a \<times> tape) run" where
  "randomElem xs t = andThen (Intn (int (length xs)) t) (\<lambda>(i, t'). Done (xs ! nat i, t'))"

text \<open>
  The destination: drawn again while it is the origin. The loop is recursion on the
  tape; it starves when every remaining draw hits the origin.
\<close>

fun pickDest :: "Planet list \<Rightarrow> string \<Rightarrow> tape \<Rightarrow> (Planet \<times> tape) run" where
  "pickDest ps originKey [] = (if ps = [] then Panicked IntnArgument else Starved)"
| "pickDest ps originKey (v # t) =
     (if ps = [] then Panicked IntnArgument
      else let dest = ps ! (v mod length ps)
           in if pKey dest = originKey then pickDest ps originKey t else Done (dest, t))"

text \<open>Step 1 of a cargo job: the commodity.\<close>

definition pickCommodity :: "Universe \<Rightarrow> Planet \<Rightarrow> tape \<Rightarrow> (Commodity \<times> tape) run" where
  "pickCommodity u origin t =
     (if length (Production origin) > 0
      then andThen (Float32 t) (\<lambda>(f, t1).
             if f < 0.8
             then andThen (randomElem (Production origin) t1) (\<lambda>(prodKey, t2).
                    case GetCommodity u prodKey of
                      Some comm \<Rightarrow> Done (comm, t2)
                    | None \<Rightarrow> randomElem (Commodities u) t2)
             else randomElem (Commodities u) t1)
      else randomElem (Commodities u) t)"

text \<open>
  Step 2: the scarcity check; \<open>True\<close> is the source's \<open>continue\<close>. \<open>rand.Float64\<close> is
  called only when the heat is above neutral; the product is a \<open>float64\<close> product.
\<close>

definition scarcitySkip :: "real \<Rightarrow> tape \<Rightarrow> (bool \<times> tape) run" where
  "scarcitySkip sourceHeat t =
     (if sourceHeat > 1.0
      then andThen (Float64 t) (\<lambda>(r, t'). Done (float64 (r * sourceHeat) > 1.5, t'))
      else Done (False, t))"

text \<open>
  Step 4: the payout. The price modifier \<open>1.0 / destHeat\<close> and its product with the
  base payout are \<open>float64\<close> results. With a zero destination heat the modifier is
  infinite and the product infinite or NaN, so that its conversion to \<open>int\<close> is the
  one of a value out of range.
\<close>

definition cargoPayout :: "Universe \<Rightarrow> Commodity \<Rightarrow> int \<Rightarrow> int \<Rightarrow> real \<Rightarrow> int" where
  "cargoPayout u comm qty d destHeat =
     (let basePayout = int64 (int64 (d * DistancePayoutMult (BalanceConfig u))
                              + int64 (BaseValue comm * qty) sdiv 2)
      in if destHeat = 0 then - (2 ^ 63)
         else let priceMod = float64 (1.0 / destHeat)
              in toInt64 (float64 (float64 (of_int basePayout) * priceMod)))"

text \<open>One iteration of the loop of \<open>generateCargoJobs\<close>.\<close>

definition generateCargoJob :: "Universe \<Rightarrow> Planet \<Rightarrow> GameState \<Rightarrow> tape \<Rightarrow> (GameState \<times> tape) run" where
  "generateCargoJob u origin s t =
     andThen (pickCommodity u origin t) (\<lambda>(comm, t1).
     andThen (scarcitySkip (heatAt (SourceHeat (Market s)) (pKey origin) (cKey comm)) t1) (\<lambda>(skip, t2).
       if skip then Done (s, t2)
       else
     andThen (pickDest (Planets u) (pKey origin) t2) (\<lambda>(dest, t3).
     andThen (Intn 21 t3) (\<lambda>(r, t4).
     andThen (Intn 99999 t4) (\<lambda>(idRand, t5).
     andThen (UnixNano t5) (\<lambda>(nano, t6).
       let qty = int64 (r + 5);
           dist = CalculateDistance (Coordinates origin) (Coordinates dest);
           destHeat = heatAt (DestHeat (Market s)) (pKey dest) (cKey comm);
           job = \<lparr>ID = ''CRG-'' @ showNat (nat idRand) @ ''-'' @ showNat (nat (nano mod 1000)),
                  Type = ''cargo'',
                  ItemName = cName comm,
                  ItemKey = cKey comm,
                  Quantity = qty,
                  MassPerUnit = Mass comm,
                  OriginKey = pKey origin,
                  DestinationKey = pKey dest,
                  Payout = cargoPayout u comm qty dist destHeat\<rparr>
       in Done (s\<lparr>AvailableContracts :=
                    (AvailableContracts s)(pKey origin := AvailableContracts s (pKey origin) @ [job])\<rparr>,
                t6)))))))"

fun generateCargoJobs :: "Universe \<Rightarrow> Planet \<Rightarrow> nat \<Rightarrow> GameState \<Rightarrow> tape \<Rightarrow> (GameState \<times> tape) run" where
  "generateCargoJobs u origin 0 s t = Done (s, t)"
| "generateCargoJobs u origin (Suc n) s t =
     andThen (generateCargoJob u origin s t) (\<lambda>(s', t'). generateCargoJobs u origin n s' t')"

text \<open>One iteration of the loop of \<open>generatePassengerJobs\<close>.\<close>

definition generatePassengerJob :: "Universe \<Rightarrow> Planet \<Rightarrow> GameState \<Rightarrow> tape \<Rightarrow> (GameState \<times> tape) run" where
  "generatePassengerJob u origin s t =
     andThen (pickDest (Planets u) (pKey origin) t) (\<lambda>(dest, t1).
     andThen (Intn 99999 t1) (\<lambda>(idRand, t2).
     andThen (UnixNano t2) (\<lambda>(nano, t3).
       let dist = CalculateDistance (Coordinates origin) (Coordinates dest);
           payout = int64 (int64 (dist * 15) + BaseTicketPrice (PassengerConfig u));
           job = \<lparr>ID = ''PAX-'' @ showNat (nat idRand) @ ''-'' @ showNat (nat (nano mod 1000)),
                  Type = ''passenger'',
                  ItemName = ''Passenger'',
                  ItemKey = ''passenger'',
                  Quantity = 1,
                  MassPerUnit = MassPerPassenger (PassengerConfig u),
                  OriginKey = pKey origin,
                  DestinationKey = pKey dest,
                  Payout = payout\<rparr>
       in Done (s\<lparr>AvailableContracts :=
                    (AvailableContracts s)(pKey origin := AvailableContracts s (pKey origin) @ [job])\<rparr>,
                t3))))"

fun generatePassengerJobs :: "Universe \<Rightarrow> Planet \<Rightarrow> nat \<Rightarrow> GameState \<Rightarrow> tape \<Rightarrow> (GameState \<times> tape) run" where
  "generatePassengerJobs u origin 0 s t = Done (s, t)"
| "generatePassengerJobs u origin (Suc n) s t =
     andThen (generatePassengerJob u origin s t) (\<lambda>(s', t'). generatePassengerJobs u origin n s' t')"

text \<open>
  The board counts of \<open>ReplenishMarket\<close> and the effective targets of a planet. A count
  is the length of a slice, which is below \<open>2^63\<close>: the counter is not reduced.
\<close>

definition countType :: "string \<Rightarrow> Contract list \<Rightarrow> int" where
  "countType ty cs = int (length (filter (\<lambda>c. Type c = ty) cs))"

definition cargoTargets :: "Planet \<Rightarrow> int \<times> int" where
  "cargoTargets origin = (if MaxCargo origin = 0 then (5, 15) else (MinCargo origin, MaxCargo origin))"

definition paxTargets :: "Planet \<Rightarrow> int \<times> int" where
  "paxTargets origin =
     (if MaxPassengers origin = 0 then (2, 8) else (MinPassengers origin, MaxPassengers origin))"

text \<open>The cargo check of one planet.\<close>

definition replenishCargo ::
  "Universe \<Rightarrow> Planet \<Rightarrow> string list \<times> GameState \<times> tape \<Rightarrow> (string list \<times> GameState \<times> tape) run" where
  "replenishCargo u origin st =
     (case st of (updatedPlanets, s, t) \<Rightarrow>
        case cargoTargets origin of (minCargo, maxCargo) \<Rightarrow>
          let currentCargoCount = countType ''cargo'' (AvailableContracts s (pKey origin))
          in if currentCargoCount < minCargo
             then andThen (Intn (int64 (int64 (maxCargo - minCargo) + 1)) t) (\<lambda>(r, t1).
                    let target = int64 (r + minCargo);
                        needed = int64 (target - currentCargoCount)
                    in if needed > 0
                       then andThen (generateCargoJobs u origin (nat needed) s t1) (\<lambda>(s', t2).
                              Done (updatedPlanets @ [pKey origin], s', t2))
                       else Done (updatedPlanets, s, t1))
             else Done (updatedPlanets, s, t))"

text \<open>The passenger check of one planet.\<close>

definition replenishPassengers ::
  "Universe \<Rightarrow> Planet \<Rightarrow> string list \<times> GameState \<times> tape \<Rightarrow> (string list \<times> GameState \<times> tape) run" where
  "replenishPassengers u origin st =
     (case st of (updatedPlanets, s, t) \<Rightarrow>
        case paxTargets origin of (minPax, maxPax) \<Rightarrow>
          let currentPaxCount = countType ''passenger'' (AvailableContracts s (pKey origin))
          in if currentPaxCount < minPax
             then andThen (Intn (int64 (int64 (maxPax - minPax) + 1)) t) (\<lambda>(r, t1).
                    let target = int64 (r + minPax);
                        needed = int64 (target - currentPaxCount)
                    in if needed > 0
                       then andThen (generatePassengerJobs u origin (nat needed) s t1) (\<lambda>(s', t2).
                              let found = (pKey origin \<in> set updatedPlanets)
                              in Done (if \<not> found then updatedPlanets @ [pKey origin]
                                       else updatedPlanets, s', t2))
                       else Done (updatedPlanets, s, t1))
             else Done (updatedPlanets, s, t))"

text \<open>The loop over the planets.\<close>

fun replenishPlanets ::
  "Universe \<Rightarrow> Planet list \<Rightarrow> string list \<times> GameState \<times> tape \<Rightarrow> (string list \<times> GameState \<times> tape) run" where
  "replenishPlanets u [] st = Done st"
| "replenishPlanets u (origin # ps) st =
     andThen (replenishCargo u origin st) (\<lambda>st1.
     andThen (replenishPassengers u origin st1) (\<lambda>st2.
       replenishPlanets u ps st2))"

definition ReplenishMarket :: "Universe \<Rightarrow> GameState \<Rightarrow> tape \<Rightarrow> (string list \<times> GameState \<times> tape) run" where
  "ReplenishMarket u s t = replenishPlanets u (Planets u) ([], MarketTick s, t)"

section \<open>Loading the configuration (state.go)\<close>

text \<open>
  The values the package-level variables have before the first load: the zero ship and
  empty maps.
\<close>

definition zeroShip :: Ship where
  "zeroShip = \<lparr>sName = [], LocationKey = [], Credits = 0, Fuel = 0, MaxFuel = 0,
                BaseBurnRate = 0, BurnDamping = 0, BaseMass = 0, CargoCapacity = 0,
                PassengerSlots = 0, MaxModuleSlots = 0, InstalledModules = [],
                ActiveContracts = []\<rparr>"

definition zeroState :: GameState where
  "zeroState = \<lparr>PlayerShip = zeroShip, AvailableContracts = (\<lambda>_. []),
                 Market = \<lparr>SourceHeat = Map.empty, DestHeat = Map.empty\<rparr>\<rparr>"

text \<open>
  \<open>LoadConfig\<close> once the file has been read and parsed into \<open>newUni\<close>, which becomes
  \<open>CurrentUniverse\<close> (a read or parse error returns before anything is assigned). The
  market is initialised again; the ship is reset only when it has no location; the
  job boards are not touched.
\<close>

definition LoadConfig :: "Universe \<Rightarrow> GameState \<Rightarrow> GameState" where
  "LoadConfig newUni s =
     (let s1 = s\<lparr>Market := InitMarket newUni (Market s)\<rparr>
      in if LocationKey (PlayerShip s1) = []
         then s1\<lparr>PlayerShip := (PlayerShipConfig newUni)\<lparr>
                   Fuel := MaxFuel (PlayerShipConfig newUni),
                   LocationKey := ''planet_prime'',
                   Credits := StartingCredits (BalanceConfig newUni),
                   ActiveContracts := [],
                   InstalledModules := []\<rparr>\<rparr>
         else s1)"

section \<open>The broadcast hub (hub.go)\<close>

text \<open>
  A \<open>*Client\<close> is an address; \<open>send\<close> maps each allocated client to its \<open>send\<close> channel:
  the buffered messages, the capacity given to \<open>make\<close>, and whether the channel has
  been closed. \<open>clients\<close> is the key set of \<open>h.clients\<close>. \<open>Run\<close> takes one event per
  iteration from its three channels; the events are the inputs of \<open>hubStep\<close>.
\<close>

type_synonym message = string

record Chan =
  queue :: "message list"
  capacity :: nat
  closed :: bool

record Hub =
  clients :: "nat set"
  send :: "nat \<rightharpoonup> Chan"

definition NewHub :: Hub where
  "NewHub = \<lparr>clients = {}, send = Map.empty\<rparr>"

text \<open>
  The body of the \<open>range\<close> loop of the broadcast case for one client: a \<open>select\<close> with a
  send and a \<open>default\<close>. The send proceeds when the buffer has room, and panics on a
  closed channel; otherwise the default case closes the channel and deletes the client.
\<close>

definition offer :: "message \<Rightarrow> Hub \<Rightarrow> nat \<Rightarrow> panic + Hub" where
  "offer msg h client =
     (case send h client of
        None \<Rightarrow> Inl NilDereference
      | Some ch \<Rightarrow>
          if closed ch then Inl SendOnClosedChannel
          else if length (queue ch) < capacity ch
          then Inr (h\<lparr>send := (send h)(client \<mapsto> ch\<lparr>queue := queue ch @ [msg]\<rparr>)\<rparr>)
          else Inr (h\<lparr>send := (send h)(client \<mapsto> ch\<lparr>closed := True\<rparr>),
                      clients := clients h - {client}\<rparr>))"

text \<open>
  The \<open>range\<close> over \<open>h.clients\<close>: the keys present when the loop starts, in an order the
  language does not fix (the loop deletes only the key it is visiting).
\<close>

fun broadcast :: "nat list \<Rightarrow> message \<Rightarrow> Hub \<Rightarrow> panic + Hub" where
  "broadcast [] msg h = Inr h"
| "broadcast (client # order) msg h =
     (case offer msg h client of Inl p \<Rightarrow> Inl p | Inr h' \<Rightarrow> broadcast order msg h')"

definition hubRegister :: "nat \<Rightarrow> Hub \<Rightarrow> Hub" where
  "hubRegister client h = h\<lparr>clients := insert client (clients h)\<rparr>"

definition hubUnregister :: "nat \<Rightarrow> Hub \<Rightarrow> panic + Hub" where
  "hubUnregister client h =
     (if client \<in> clients h
      then (case send h client of
              None \<Rightarrow> Inl NilDereference
            | Some ch \<Rightarrow>
                if closed ch then Inl CloseOfClosedChannel
                else Inr (h\<lparr>clients := clients h - {client},
                            send := (send h)(client \<mapsto> ch\<lparr>closed := True\<rparr>)\<rparr>))
      else Inr h)"

text \<open>\<open>ServeWs\<close> after the upgrade: a new client with an empty channel of capacity 256 is registered.\<close>

definition ServeWs :: "nat \<Rightarrow> Hub \<Rightarrow> Hub" where
  "ServeWs client h =
     hubRegister client (h\<lparr>send := (send h)(client \<mapsto> \<lparr>queue = [], capacity = 256, closed = False\<rparr>)\<rparr>)"

text \<open>\<open>writePump\<close> receiving one message from its client's channel.\<close>

definition receive :: "nat \<Rightarrow> Hub \<Rightarrow> Hub" where
  "receive client h =
     (case send h client of
        None \<Rightarrow> h
      | Some ch \<Rightarrow> h\<lparr>send := (send h)(client \<mapsto> ch\<lparr>queue := tl (queue ch)\<rparr>)\<rparr>)"

text \<open>The states of the hub: addresses are not reused while a client is allocated.\<close>

inductive hubReachable :: "Hub \<Rightarrow> bool" where
  start: "hubReachable NewHub"
| connect: "hubReachable h \<Longrightarrow> client \<notin> dom (send h) \<Longrightarrow> hubReachable (ServeWs client h)"
| disconnect: "hubReachable h \<Longrightarrow> hubUnregister client h = Inr h' \<Longrightarrow> hubReachable h'"
| publish: "hubReachable h \<Longrightarrow> distinct order \<Longrightarrow> set order = clients h \<Longrightarrow>
            broadcast order msg h = Inr h' \<Longrightarrow> hubReachable h'"
| written: "hubReachable h \<Longrightarrow> hubReachable (receive client h)"

text \<open>Every registered client has an open channel.\<close>

definition hubInv :: "Hub \<Rightarrow> bool" where
  "hubInv h = (\<forall>client \<in> clients h.
                 case send h client of None \<Rightarrow> False | Some ch \<Rightarrow> \<not> closed ch)"

text \<open>And that channel has the capacity \<open>ServeWs\<close> gives it.\<close>

definition hubWellFormed :: "Hub \<Rightarrow> bool" where
  "hubWellFormed h = (\<forall>client \<in> clients h.
                 case send h client of None \<Rightarrow> False | Some ch \<Rightarrow> \<not> closed ch \<and> capacity ch = 256)"

section \<open>Auxiliary notions and example data\<close>

text \<open>The integers that an \<open>int64\<close> (or an \<open>int\<close>) can hold.\<close>

definition isInt64 :: "int \<Rightarrow> bool" where
  "isInt64 x \<longleftrightarrow> - (2 ^ 63) \<le> x \<and> x < 2 ^ 63"

text \<open>
  The masses and the burn rate as the specification words them, over the unbounded
  integers: reference mass = base mass + (maxFuel / 2) * fuel mass per unit; total mass
  = base mass + mass of the cargo contracts + passenger-config mass of all other
  contracts + fuel * fuel mass per unit; burn = base burn rate + (total mass -
  reference mass) / burn damping, at least 100.
\<close>

definition specReferenceMass :: "Universe \<Rightarrow> Ship \<Rightarrow> int" where
  "specReferenceMass u ship =
     BaseMass ship + (MaxFuel ship sdiv 2) * FuelMassPerUnit (BalanceConfig u)"

definition specTotalMass :: "Universe \<Rightarrow> Ship \<Rightarrow> int" where
  "specTotalMass u ship =
     BaseMass ship
     + sum_list (map (\<lambda>c. MassPerUnit c * Quantity c)
                  (filter (\<lambda>c. Type c = ''cargo'') (ActiveContracts ship)))
     + sum_list (map (\<lambda>c. MassPerPassenger (PassengerConfig u) * Quantity c)
                  (filter (\<lambda>c. Type c \<noteq> ''cargo'') (ActiveContracts ship)))
     + Fuel ship * FuelMassPerUnit (BalanceConfig u)"

definition specBurn :: "Universe \<Rightarrow> Ship \<Rightarrow> int" where
  "specBurn u ship =
     max 100 (BaseBurnRate ship
              + (specTotalMass u ship - specReferenceMass u ship) sdiv BurnDamping ship)"

text \<open>One entry of a heat map, \<open>None\<close> when either key is missing.\<close>

definition heatEntry :: "heatmap \<Rightarrow> string \<Rightarrow> string \<Rightarrow> real option" where
  "heatEntry h pk ck = (case h pk of None \<Rightarrow> None | Some commodities \<Rightarrow> commodities ck)"

text \<open>
  The scenario of the specification: two planets at \<open>(0,0)\<close> and \<open>(3,4)\<close> and a ship with
  base burn rate 100, burn damping 1000, base mass 1000 and a tank of 1000, carrying
  600 units of fuel of mass 1 each.
\<close>

definition exBalance :: GameBalance where
  "exBalance = \<lparr>StartingCredits = 1000, FuelCostPerUnit = 10, FuelMassPerUnit = 1,
                 DistancePayoutMult = 10\<rparr>"

definition exShip :: Ship where
  "exShip = \<lparr>sName = ''Rocinante'', LocationKey = ''planet_prime'', Credits = 1000, Fuel = 600,
              MaxFuel = 1000, BaseBurnRate = 100, BurnDamping = 1000, BaseMass = 1000,
              CargoCapacity = 30, PassengerSlots = 2, MaxModuleSlots = 2,
              InstalledModules = [], ActiveContracts = []\<rparr>"

definition exPrime :: Planet where
  "exPrime = \<lparr>pKey = ''planet_prime'', pName = ''Prime'', Coordinates = [0, 0], Production = [],
               Demand = [], MinCargo = 2, MaxCargo = 2, MinPassengers = 0, MaxPassengers = 1\<rparr>"

definition exOuter :: Planet where
  "exOuter = \<lparr>pKey = ''planet_outer'', pName = ''Outer'', Coordinates = [3, 4], Production = [],
               Demand = [], MinCargo = 0, MaxCargo = 1, MinPassengers = 1, MaxPassengers = 1\<rparr>"

definition exOre :: Commodity where
  "exOre = \<lparr>cKey = ''item_ore'', cName = ''Ore'', BaseValue = 10, Mass = 2\<rparr>"

definition exUniverse :: Universe where
  "exUniverse = \<lparr>BalanceConfig = exBalance, PlayerShipConfig = exShip, Commodities = [exOre],
                  Planets = [exPrime, exOuter], ShipModules = [],
                  PassengerConfig = \<lparr>BaseTicketPrice = 50, MassPerPassenger = 80\<rparr>\<rparr>"

definition exState :: GameState where
  "exState = \<lparr>PlayerShip = exShip, AvailableContracts = (\<lambda>_. []),
               Market = \<lparr>SourceHeat = Map.empty, DestHeat = Map.empty\<rparr>\<rparr>"

text \<open>The same ship at a key that is not in the planet catalog.\<close>

definition strandedState :: GameState where
  "strandedState = exState\<lparr>PlayerShip := exShip\<lparr>LocationKey := ''deep_space''\<rparr>\<rparr>"

text \<open>
  The same ship with a burn damping of zero, and with a base burn rate of \<open>2 * 10^18\<close>.
\<close>

definition undampedState :: GameState where
  "undampedState = exState\<lparr>PlayerShip := exShip\<lparr>BurnDamping := 0\<rparr>\<rparr>"

definition racerState :: GameState where
  "racerState = exState\<lparr>PlayerShip := exShip\<lparr>BaseBurnRate := 2000000000000000000\<rparr>\<rparr>"

text \<open>
  An arrival as the specification words it: the fuel and the credits are set to the
  given values, the location to the destination; the active contracts for the
  destination are removed, the others stay; \<open>RecordDelivery\<close> is applied once for each
  delivered contract. \<open>payouts\<close> is the sum of the payouts of the delivered contracts.
\<close>

definition payouts :: "string \<Rightarrow> GameState \<Rightarrow> int" where
  "payouts destinationKey s =
     sum_list (map Payout (filter (\<lambda>c. DestinationKey c = destinationKey)
                             (ActiveContracts (PlayerShip s))))"

definition arrive :: "string \<Rightarrow> int \<Rightarrow> int \<Rightarrow> GameState \<Rightarrow> Ship response \<times> GameState" where
  "arrive destinationKey fuel credits s =
     (let delivered = filter (\<lambda>c. DestinationKey c = destinationKey)
                        (ActiveContracts (PlayerShip s));
          ship = (PlayerShip s)\<lparr>
            Fuel := fuel,
            LocationKey := destinationKey,
            ActiveContracts := filter (\<lambda>c. DestinationKey c \<noteq> destinationKey)
                                 (ActiveContracts (PlayerShip s)),
            Credits := credits\<rparr>
      in (Encode ship,
          s\<lparr>PlayerShip := ship,
            Market := foldl (\<lambda>m c. RecordDelivery m (DestinationKey c) (ItemKey c) (Quantity c))
                        (Market s) delivered\<rparr>))"

text \<open>The example ship with an empty purse and 50 units short of a full tank.\<close>

definition nearlyFullState :: GameState where
  "nearlyFullState = exState\<lparr>PlayerShip := exShip\<lparr>Fuel := 950, Credits := 0\<rparr>\<rparr>"

text \<open>What one offer leaves of a channel: the message appended when there is room, the channel closed when it is full.\<close>

definition afterOffer :: "message \<Rightarrow> Chan \<Rightarrow> Chan" where
  "afterOffer msg ch =
     (if length (queue ch) < capacity ch then ch\<lparr>queue := queue ch @ [msg]\<rparr>
      else ch\<lparr>closed := True\<rparr>)"

text \<open>Four registered observers; the queue of the fourth is full.\<close>

definition exHub :: Hub where
  "exHub = \<lparr>clients = {1, 2, 3, 4},
            send = [1 \<mapsto> \<lparr>queue = [], capacity = 256, closed = False\<rparr>,
                    2 \<mapsto> \<lparr>queue = [''earlier''], capacity = 256, closed = False\<rparr>,
                    3 \<mapsto> \<lparr>queue = [], capacity = 256, closed = False\<rparr>,
                    4 \<mapsto> \<lparr>queue = replicate 256 ''earlier'', capacity = 256, closed = False\<rparr>]\<rparr>"

text \<open>
  The states of the game: the first load, then reloads, requests and replenishments in
  any order. \<open>ok\<close> delimits the configurations that are loaded.
\<close>

inductive gameReachable :: "(Universe \<Rightarrow> bool) \<Rightarrow> Universe \<Rightarrow> GameState \<Rightarrow> bool"
  for ok :: "Universe \<Rightarrow> bool" where
  boot: "ok u \<Longrightarrow> gameReachable ok u (LoadConfig u zeroState)"
| reload: "gameReachable ok u s \<Longrightarrow> ok u' \<Longrightarrow> gameReachable ok u' (LoadConfig u' s)"
| accept: "gameReachable ok u s \<Longrightarrow> gameReachable ok u (snd (HandleAcceptContract req s))"
| drop: "gameReachable ok u s \<Longrightarrow> gameReachable ok u (snd (HandleDropContract req s))"
| travel: "gameReachable ok u s \<Longrightarrow> gameReachable ok u (snd (HandleTravel u req s))"
| refuel: "gameReachable ok u s \<Longrightarrow> gameReachable ok u (snd (HandleRefuel u s))"
| buy: "gameReachable ok u s \<Longrightarrow> gameReachable ok u (snd (HandleBuyModule u req s))"
| replenish: "gameReachable ok u s \<Longrightarrow> ReplenishMarket u s t = Done (updatedPlanets, s', t') \<Longrightarrow>
              gameReachable ok u s'"

text \<open>The contracts the two generators build: their type and quantity.\<close>

definition generated :: "Contract \<Rightarrow> bool" where
  "generated c \<longleftrightarrow>
     (Type c = ''cargo'' \<and> 5 \<le> Quantity c \<and> Quantity c \<le> 25)
     \<or> (Type c = ''passenger'' \<and> Quantity c = 1)"

text \<open>
  Replenishment as seen from outside: ship and market as before, and every board the
  old board followed by generated contracts.
\<close>

definition grows :: "GameState \<Rightarrow> GameState \<Rightarrow> bool" where
  "grows s s' \<longleftrightarrow>
     PlayerShip s' = PlayerShip s \<and> Market s' = Market s
     \<and> (\<forall>k. \<exists>new. AvailableContracts s' k = AvailableContracts s k @ new
                 \<and> (\<forall>c \<in> set new. generated c))"

text \<open>The load of a ship by contract type, and the capacity invariant.\<close>

definition cargoLoad :: "Contract list \<Rightarrow> int" where
  "cargoLoad acs = sum_list (map Quantity (filter (\<lambda>c. Type c = ''cargo'') acs))"

definition passengerLoad :: "Contract list \<Rightarrow> int" where
  "passengerLoad acs = sum_list (map Quantity (filter (\<lambda>c. Type c = ''passenger'') acs))"

text \<open>What the handler counts as passengers: every contract that is not cargo.\<close>

definition otherLoad :: "Contract list \<Rightarrow> int" where
  "otherLoad acs = sum_list (map Quantity (filter (\<lambda>c. Type c \<noteq> ''cargo'') acs))"

definition withinCapacity :: "Ship \<Rightarrow> bool" where
  "withinCapacity ship \<longleftrightarrow>
     cargoLoad (ActiveContracts ship) \<le> CargoCapacity ship
     \<and> passengerLoad (ActiveContracts ship) \<le> PassengerSlots ship"

text \<open>
  A configuration whose ship template has no negative capacity, whose modules lower no
  capacity and raise one by at most \<open>limit\<close>, and whose template leaves room within the
  range of \<open>int\<close>: with every module slot filled a capacity still is more than 25 cargo
  units (one passenger) below \<open>2^63\<close>.
\<close>

definition capacityConfig :: "int \<Rightarrow> Universe \<Rightarrow> bool" where
  "capacityConfig limit u \<longleftrightarrow>
     0 \<le> limit
     \<and> 0 \<le> CargoCapacity (PlayerShipConfig u) \<and> 0 \<le> PassengerSlots (PlayerShipConfig u)
     \<and> (\<forall>md \<in> set (ShipModules u). 0 \<le> StatValue md \<and> StatValue md \<le> limit)
     \<and> CargoCapacity (PlayerShipConfig u)
           + max 0 (MaxModuleSlots (PlayerShipConfig u)) * limit + 25 < 2 ^ 63
     \<and> PassengerSlots (PlayerShipConfig u)
           + max 0 (MaxModuleSlots (PlayerShipConfig u)) * limit + 1 < 2 ^ 63"

text \<open>The same room, for a ship with some of its module slots filled.\<close>

definition roomy :: "int \<Rightarrow> Ship \<Rightarrow> bool" where
  "roomy limit ship \<longleftrightarrow>
     0 \<le> limit
     \<and> CargoCapacity ship
           + max 0 (MaxModuleSlots ship - int (length (InstalledModules ship))) * limit + 25 < 2 ^ 63
     \<and> PassengerSlots ship
           + max 0 (MaxModuleSlots ship - int (length (InstalledModules ship))) * limit + 1 < 2 ^ 63"

text \<open>
  Exclusive ownership by contract id: the ids aboard are pairwise distinct, so are the
  ids on each board, no id is on two boards, and no id is both aboard and on a board.
\<close>

definition uniqueIds :: "GameState \<Rightarrow> bool" where
  "uniqueIds s \<longleftrightarrow>
     distinct (map ID (ActiveContracts (PlayerShip s)))
     \<and> (\<forall>k. distinct (map ID (AvailableContracts s k)))
     \<and> (\<forall>k k'. k \<noteq> k' \<longrightarrow>
           ID ` set (AvailableContracts s k) \<inter> ID ` set (AvailableContracts s k') = {})
     \<and> (\<forall>k. ID ` set (ActiveContracts (PlayerShip s)) \<inter> ID ` set (AvailableContracts s k) = {})"

text \<open>
  A run of the example universe: the first load, then one replenishment in which the
  two cargo jobs of \<open>planet_prime\<close> get the same draws and the same clock reading, and
  \<open>planet_outer\<close> gets its one passenger job.
\<close>

definition bootState :: GameState where
  "bootState = LoadConfig exUniverse zeroState"

definition twinTape :: tape where
  "twinTape = [0, 0, 1, 20, 7, 42, 0, 1, 20, 7, 42, 0, 0, 9, 77]"

definition exJob :: Contract where
  "exJob = \<lparr>ID = ''CRG-7-42'', Type = ''cargo'', ItemName = ''Ore'', ItemKey = ''item_ore'',
             Quantity = 25, MassPerUnit = 2, OriginKey = ''planet_prime'',
             DestinationKey = ''planet_outer'', Payout = 175\<rparr>"

definition exTicket :: Contract where
  "exTicket = \<lparr>ID = ''PAX-9-77'', Type = ''passenger'', ItemName = ''Passenger'',
                ItemKey = ''passenger'', Quantity = 1, MassPerUnit = 80,
                OriginKey = ''planet_outer'', DestinationKey = ''planet_prime'', Payout = 125\<rparr>"

definition stockedState :: GameState where
  "stockedState = bootState\<lparr>AvailableContracts :=
                     (\<lambda>_. [])(''planet_prime'' := [exJob, exJob], ''planet_outer'' := [exTicket])\<rparr>"

text \<open>
  One generator call as seen from outside: the contracts \<open>new\<close>, all of type \<open>ty\<close>, are
  appended to the board of \<open>key\<close>; nothing else changes.
\<close>

definition posts :: "string \<Rightarrow> string \<Rightarrow> Contract list \<Rightarrow> GameState \<Rightarrow> GameState \<Rightarrow> bool" where
  "posts key ty new s s' \<longleftrightarrow>
     s' = s\<lparr>AvailableContracts := (AvailableContracts s)(key := AvailableContracts s key @ new)\<rparr>
     \<and> (\<forall>c \<in> set new. Type c = ty \<and> generated c)"

text \<open>No source heat of the planet is high enough for the scarcity check to skip a job.\<close>

definition noSkip :: "string \<Rightarrow> GameState \<Rightarrow> bool" where
  "noSkip key s \<longleftrightarrow> (\<forall>ck. heatAt (SourceHeat (Market s)) key ck \<le> 1.5)"

text \<open>Targets in order and within the range of \<open>int\<close>.\<close>

definition targetRange :: "int \<Rightarrow> int \<Rightarrow> bool" where
  "targetRange minimum maximum \<longleftrightarrow> - (2 ^ 63) \<le> minimum \<and> minimum \<le> maximum \<and> maximum < 2 ^ 63"

text \<open>
  What one replenishment leaves of the board of a planet, by contract type: a count
  that was at or above the minimum is as before and one below it is not lower than
  before; with targets in order, a passenger count below the minimum is within the
  targets, and a cargo count below the minimum is at most the maximum, and at least
  the minimum when no job can have been skipped.
\<close>

definition toppedUp :: "Planet \<Rightarrow> GameState \<Rightarrow> GameState \<Rightarrow> bool" where
  "toppedUp origin s s' \<longleftrightarrow>
     (case cargoTargets origin of (minCargo, maxCargo) \<Rightarrow>
      case paxTargets origin of (minPax, maxPax) \<Rightarrow>
        let c0 = countType ''cargo'' (AvailableContracts s (pKey origin));
            c1 = countType ''cargo'' (AvailableContracts s' (pKey origin));
            p0 = countType ''passenger'' (AvailableContracts s (pKey origin));
            p1 = countType ''passenger'' (AvailableContracts s' (pKey origin))
        in (minCargo \<le> c0 \<longrightarrow> c1 = c0)
           \<and> (c0 < minCargo \<longrightarrow> c0 \<le> c1)
           \<and> (c0 < minCargo \<and> targetRange minCargo maxCargo \<longrightarrow>
                 c1 \<le> maxCargo \<and> (noSkip (pKey origin) s' \<longrightarrow> minCargo \<le> c1))
           \<and> (minPax \<le> p0 \<longrightarrow> p1 = p0)
           \<and> (p0 < minPax \<longrightarrow> p0 \<le> p1)
           \<and> (p0 < minPax \<and> targetRange minPax maxPax \<longrightarrow> minPax \<le> p1 \<and> p1 \<le> maxPax))"

text \<open>
  A generator step that cannot starve for good: from every tape it returns once
  enough further draws are supplied, and the draws it has not read do not change what
  it returns. \<open>returns3\<close> is the same for the steps of \<open>ReplenishMarket\<close>, which pass
  the list of updated planets and the state along.
\<close>

definition returns :: "(tape \<Rightarrow> ('a \<times> tape) run) \<Rightarrow> bool" where
  "returns f \<longleftrightarrow>
     (\<forall>t. \<exists>e x r. f (t @ e) = Done (x, r))
     \<and> (\<forall>t e x r. f t = Done (x, r) \<longrightarrow> f (t @ e) = Done (x, r @ e))"

definition returns3 :: "(tape \<Rightarrow> ('a \<times> 'b \<times> tape) run) \<Rightarrow> bool" where
  "returns3 f \<longleftrightarrow>
     (\<forall>t. \<exists>e a b r. f (t @ e) = Done (a, b, r))
     \<and> (\<forall>t e a b r. f t = Done (a, b, r) \<longrightarrow> f (t @ e) = Done (a, b, r @ e))"

text \<open>
  A catalog on which the generators do not panic: there is a commodity, every planet
  has another planet to send to, and the number of values between the targets of a
  planet is positive as an \<open>int\<close>.
\<close>

definition replenishable :: "Universe \<Rightarrow> bool" where
  "replenishable u \<longleftrightarrow>
     Commodities u \<noteq> []
     \<and> (\<forall>origin \<in> set (Planets u).
          (\<exists>dest \<in> set (Planets u). pKey dest \<noteq> pKey origin)
          \<and> (case cargoTargets origin of (minCargo, maxCargo) \<Rightarrow>
                minCargo \<le> maxCargo \<and> maxCargo - minCargo + 1 < 2 ^ 63)
          \<and> (case paxTargets origin of (minPax, maxPax) \<Rightarrow>
                minPax \<le> maxPax \<and> maxPax - minPax + 1 < 2 ^ 63))"

text \<open>The market after \<open>InitMarket\<close> in the example universe, and a state in which ore has been accepted at \<open>planet_prime\<close> until its source heat is 3.\<close>

definition neutralHeat :: heatmap where
  "neutralHeat = [''planet_prime'' \<mapsto> [''item_ore'' \<mapsto> 1], ''planet_outer'' \<mapsto> [''item_ore'' \<mapsto> 1]]"

definition hotHeat :: heatmap where
  "hotHeat = [''planet_prime'' \<mapsto> [''item_ore'' \<mapsto> 3], ''planet_outer'' \<mapsto> [''item_ore'' \<mapsto> 1]]"

definition hotState :: GameState where
  "hotState = \<lparr>PlayerShip = exShip, AvailableContracts = (\<lambda>_. []),
                Market = \<lparr>SourceHeat = hotHeat, DestHeat = neutralHeat\<rparr>\<rparr>"

text \<open>
  Draws for one replenishment of \<open>hotState\<close>: the target, then a first job whose
  \<open>Float64\<close> draw is 0.75, then a second job whose \<open>Float64\<close> draw is 0, then the
  passenger job of \<open>planet_outer\<close>.
\<close>

definition hotTape :: tape where
  "hotTape = [0, 0, 6755399441055744, 0, 0, 1, 20, 7, 42, 0, 0, 9, 77]"

text \<open>The same heat map one tick later.\<close>

definition cooledHeat :: heatmap where
  "cooledHeat = [''planet_prime'' \<mapsto> [''item_ore'' \<mapsto> 2.95], ''planet_outer'' \<mapsto> [''item_ore'' \<mapsto> 1]]"

definition hotAfter :: GameState where
  "hotAfter = \<lparr>PlayerShip = exShip,
                AvailableContracts =
                  (\<lambda>_. [])(''planet_prime'' := [exJob], ''planet_outer'' := [exTicket]),
                Market = \<lparr>SourceHeat = cooledHeat, DestHeat = neutralHeat\<rparr>\<rparr>"

text \<open>Every contract aboard and on the boards has the shape the generators give.\<close>

definition wellStocked :: "GameState \<Rightarrow> bool" where
  "wellStocked s \<longleftrightarrow>
     (\<forall>c \<in> set (ActiveContracts (PlayerShip s)). generated c)
     \<and> (\<forall>k. \<forall>c \<in> set (AvailableContracts s k). generated c)"

text \<open>
  The example run continued: the ship accepts one of the twin jobs. And the example
  universe with a module that lowers the cargo capacity by 20 and one that raises it
  by \<open>2^63 - 1\<close>.
\<close>

definition loadedState :: GameState where
  "loadedState = snd (HandleAcceptContract (Some ''CRG-7-42'') stockedState)"

definition exStripper :: ShipModule where
  "exStripper = \<lparr>mKey = ''mod_stripped_hold'', mName = ''Stripped hold'',
                  Description = ''Trades hold space for speed'', Cost = 0,
                  StatModifier = ''cargo_capacity'', StatValue = - 20\<rparr>"

definition exBulk :: ShipModule where
  "exBulk = \<lparr>mKey = ''mod_bulk_hold'', mName = ''Bulk hold'',
               Description = ''All the hold an int can count'', Cost = 0,
               StatModifier = ''cargo_capacity'', StatValue = 9223372036854775807\<rparr>"

definition stripUniverse :: Universe where
  "stripUniverse = exUniverse\<lparr>ShipModules := [exStripper, exBulk]\<rparr>"

text \<open>The example ship with the largest base burn rate an \<open>int64\<close> holds and a damping of 50.\<close>

definition hugeShip :: Ship where
  "hugeShip = exShip\<lparr>BaseBurnRate := 9223372036854775807, BurnDamping := 50\<rparr>"

section \<open>Properties of the machine arithmetic\<close>

lemma int64_id: "isInt64 x \<Longrightarrow> int64 x = x"
  by (simp add: int64_def isInt64_def)

lemma int64_small: "- (2 ^ 63) \<le> x \<Longrightarrow> x < 2 ^ 63 \<Longrightarrow> int64 x = x"
  by (simp add: int64_def)

lemma int64_range: "isInt64 (int64 x)"
  by (simp add: int64_def isInt64_def)

lemma int64_mod: "int64 x mod 2 ^ 64 = x mod 2 ^ 64"
  by (simp add: int64_def mod_simps)

lemma int64_cong: "x mod 2 ^ 64 = y mod 2 ^ 64 \<Longrightarrow> int64 x = int64 y"
  unfolding int64_def by (metis mod_add_left_eq)

lemma int64_add_left: "int64 (int64 a + b) = int64 (a + b)"
  by (rule int64_cong) (metis int64_mod mod_add_left_eq)

lemma int64_add_right: "int64 (a + int64 b) = int64 (a + b)"
  by (rule int64_cong) (metis int64_mod mod_add_right_eq)

lemma int64_diff_left: "int64 (int64 a - b) = int64 (a - b)"
  by (rule int64_cong) (metis int64_mod mod_diff_left_eq)

lemma int64_diff_right: "int64 (a - int64 b) = int64 (a - b)"
  by (rule int64_cong) (metis int64_mod mod_diff_right_eq)

lemma int64_mult_left: "int64 (int64 a * b) = int64 (a * b)"
  by (rule int64_cong) (metis int64_mod mod_mult_left_eq)

lemma int64_mult_right: "int64 (a * int64 b) = int64 (a * b)"
  by (rule int64_cong) (metis int64_mod mod_mult_right_eq)

lemma int64_int64: "int64 (int64 a) = int64 a"
  by (simp add: int64_id int64_range)

lemma int64_foldl_sum:
  "int64 (a + foldl (\<lambda>total c. int64 (total + f c)) p cs) = int64 (a + p + sum_list (map f cs))"
proof (induction cs arbitrary: p)
  case Nil
  then show ?case by simp
next
  case (Cons c cs)
  have "int64 (a + int64 (p + f c) + x) = int64 (a + p + (f c + x))" for x
  proof -
    have "a + int64 (p + f c) + x = (a + x) + int64 (p + f c)"
      by simp
    also have "int64 \<dots> = int64 ((a + x) + (p + f c))"
      by (rule int64_add_right)
    also have "(a + x) + (p + f c) = a + p + (f c + x)"
      by simp
    finally show ?thesis .
  qed
  with Cons.IH [of "int64 (p + f c)"] show ?case
    by simp
qed

lemma roundEven_int: "roundEven (of_int m) = m"
  by (simp add: roundEven_def)

lemma roundEven_bounds: "\<lfloor>x\<rfloor> \<le> roundEven x" "roundEven x \<le> \<lfloor>x\<rfloor> + 1"
  by (simp_all add: roundEven_def)

lemma roundEven_mono:
  assumes "x \<le> y"
  shows "roundEven x \<le> roundEven y"
proof (cases "\<lfloor>x\<rfloor> = \<lfloor>y\<rfloor>")
  case True
  have "x - real_of_int \<lfloor>y\<rfloor> \<le> y - real_of_int \<lfloor>y\<rfloor>"
    using assms by simp
  then show ?thesis
    by (simp add: roundEven_def True)
next
  case False
  have "\<lfloor>x\<rfloor> \<le> \<lfloor>y\<rfloor>"
    using assms by (rule floor_mono)
  with False have "\<lfloor>x\<rfloor> + 1 \<le> \<lfloor>y\<rfloor>" by simp
  with roundEven_bounds(2) [of x] roundEven_bounds(1) [of y] show ?thesis
    by linarith
qed

lemma float64_exact:
  assumes "x = real_of_int m * 2 powr (real_of_int k)" "\<bar>m\<bar> < 2 ^ 53"
  shows "float64 x = x"
proof (cases "x = 0")
  case True
  then show ?thesis by (simp add: float64_def)
next
  case False
  define e where "e = \<lfloor>log 2 \<bar>x\<bar>\<rfloor> - 52"
  have ax: "\<bar>x\<bar> = real_of_int \<bar>m\<bar> * 2 powr (real_of_int k)"
    by (simp add: assms(1) abs_mult)
  have pos: "0 < \<bar>x\<bar>" using False by simp
  have "2 powr (real_of_int \<lfloor>log 2 \<bar>x\<bar>\<rfloor>) \<le> \<bar>x\<bar>"
    using pos le_log_iff [of 2 "\<bar>x\<bar>" "real_of_int \<lfloor>log 2 \<bar>x\<bar>\<rfloor>"] by simp
  then have "2 powr (real_of_int e + 52) \<le> real_of_int \<bar>m\<bar> * 2 powr (real_of_int k)"
    by (simp add: e_def ax)
  also have "\<dots> < 2 ^ 53 * 2 powr (real_of_int k)"
  proof -
    have "real_of_int \<bar>m\<bar> < real_of_int (2 ^ 53)"
      using assms(2) by (simp only: of_int_less_iff)
    then show ?thesis by simp
  qed
  also have "\<dots> = 2 powr (real_of_int k + 53)"
    by (simp add: powr_add powr_realpow [symmetric])
  finally have "real_of_int e + 52 < real_of_int k + 53"
    by simp
  then have ek: "e \<le> k" by linarith
  define d where "d = nat (k - e)"
  have "x / 2 powr (real_of_int e) = real_of_int m * 2 powr (real_of_int k - real_of_int e)"
    by (simp add: assms(1) powr_diff)
  also have "real_of_int k - real_of_int e = real d"
    using ek by (simp add: d_def)
  also have "real_of_int m * 2 powr (real d) = real_of_int (m * 2 ^ d)"
    by (simp add: powr_realpow)
  finally have q: "x / 2 powr (real_of_int e) = real_of_int (m * 2 ^ d)" .
  have "float64 x = real_of_int (roundEven (x / 2 powr (real_of_int e))) * 2 powr (real_of_int e)"
    using False by (simp add: float64_def e_def Let_def)
  also have "\<dots> = x / 2 powr (real_of_int e) * 2 powr (real_of_int e)"
    by (simp only: q roundEven_int)
  also have "\<dots> = x" by simp
  finally show ?thesis .
qed

lemma float64_int: "\<bar>n\<bar> < 2 ^ 53 \<Longrightarrow> float64 (of_int n) = of_int n"
  using float64_exact [of "of_int n" n 0] by simp

lemma floor_log_bounds:
  assumes "0 < x"
  shows "2 powr (real_of_int \<lfloor>log 2 x\<rfloor>) \<le> x" "x < 2 powr (real_of_int \<lfloor>log 2 x\<rfloor> + 1)"
proof -
  show "2 powr (real_of_int \<lfloor>log 2 x\<rfloor>) \<le> x"
    using assms le_log_iff [of 2 x "real_of_int \<lfloor>log 2 x\<rfloor>"] by simp
  have "log 2 x < real_of_int \<lfloor>log 2 x\<rfloor> + 1"
    by linarith
  then show "x < 2 powr (real_of_int \<lfloor>log 2 x\<rfloor> + 1)"
    using assms log_less_iff [of 2 x "real_of_int \<lfloor>log 2 x\<rfloor> + 1"] by simp
qed

lemma float64_pos_bounds:
  assumes "0 < x"
  shows "2 powr (real_of_int \<lfloor>log 2 x\<rfloor>) \<le> float64 x"
    "float64 x \<le> 2 powr (real_of_int \<lfloor>log 2 x\<rfloor> + 1)"
proof -
  define e where "e = \<lfloor>log 2 x\<rfloor>"
  define u where "u = 2 powr (real_of_int e - 52)"
  have u: "0 < u" by (simp add: u_def)
  have f: "float64 x = real_of_int (roundEven (x / u)) * u"
    using assms by (simp add: float64_def Let_def u_def e_def)
  have lo: "2 powr (real_of_int e) \<le> x" and hi: "x < 2 powr (real_of_int e + 1)"
    using floor_log_bounds [OF assms] by (simp_all add: e_def)
  have p52: "2 powr (real_of_int e) = 2 ^ 52 * u"
    by (simp add: u_def powr_diff)
  have p53: "2 powr (real_of_int e + 1) = 2 ^ 53 * u"
    by (simp add: u_def powr_diff powr_add)
  have "real_of_int (2 ^ 52) \<le> x / u"
    using lo u by (simp add: p52 pos_le_divide_eq)
  then have "2 ^ 52 \<le> roundEven (x / u)"
    using roundEven_mono [of "real_of_int (2 ^ 52)" "x / u"] by (simp only: roundEven_int)
  then have "real_of_int (2 ^ 52) \<le> real_of_int (roundEven (x / u))"
    by (simp only: of_int_le_iff)
  then have "2 ^ 52 * u \<le> real_of_int (roundEven (x / u)) * u"
    using u by simp
  then show "2 powr (real_of_int \<lfloor>log 2 x\<rfloor>) \<le> float64 x"
    by (simp only: f p52 [symmetric] e_def)
  have "x / u \<le> real_of_int (2 ^ 53)"
    using hi u by (simp add: p53 pos_divide_le_eq)
  then have "roundEven (x / u) \<le> 2 ^ 53"
    using roundEven_mono [of "x / u" "real_of_int (2 ^ 53)"] by (simp only: roundEven_int)
  then have "real_of_int (roundEven (x / u)) \<le> real_of_int (2 ^ 53)"
    by (simp only: of_int_le_iff)
  then have "real_of_int (roundEven (x / u)) * u \<le> 2 ^ 53 * u"
    using u by simp
  then show "float64 x \<le> 2 powr (real_of_int \<lfloor>log 2 x\<rfloor> + 1)"
    by (simp only: f p53 [symmetric] e_def)
qed

lemma float64_nonneg: "0 \<le> x \<Longrightarrow> 0 \<le> float64 x"
proof (cases "x = 0")
  case True
  then show ?thesis by (simp add: float64_def)
next
  case False
  assume "0 \<le> x"
  with False have "0 < x" by simp
  from float64_pos_bounds(1) [OF this] show ?thesis
    by (meson powr_ge_zero order_trans)
qed

lemma float64_mono:
  assumes "0 \<le> x" "x \<le> y"
  shows "float64 x \<le> float64 y"
proof (cases "x = 0")
  case True
  then show ?thesis using assms float64_nonneg [of y] by (simp add: float64_def)
next
  case False
  with assms have x: "0 < x" and y: "0 < y" by simp_all
  have le: "\<lfloor>log 2 x\<rfloor> \<le> \<lfloor>log 2 y\<rfloor>"
    using x y assms(2) by (intro floor_mono) simp
  show ?thesis
  proof (cases "\<lfloor>log 2 x\<rfloor> = \<lfloor>log 2 y\<rfloor>")
    case True
    define u where "u = 2 powr (real_of_int \<lfloor>log 2 y\<rfloor> - 52)"
    have u: "0 < u" by (simp add: u_def)
    have "x / u \<le> y / u"
      using assms(2) u by (simp add: divide_right_mono)
    then have "real_of_int (roundEven (x / u)) * u \<le> real_of_int (roundEven (y / u)) * u"
      using u roundEven_mono [of "x / u" "y / u"] by simp
    then show ?thesis
      using x y True by (simp add: float64_def Let_def u_def)
  next
    case False
    with le have "\<lfloor>log 2 x\<rfloor> + 1 \<le> \<lfloor>log 2 y\<rfloor>" by simp
    then have "real_of_int \<lfloor>log 2 x\<rfloor> + 1 \<le> real_of_int \<lfloor>log 2 y\<rfloor>"
      by linarith
    then have "2 powr (real_of_int \<lfloor>log 2 x\<rfloor> + 1) \<le> 2 powr (real_of_int \<lfloor>log 2 y\<rfloor>)"
      by simp
    with float64_pos_bounds(2) [OF x] float64_pos_bounds(1) [OF y] show ?thesis
      by linarith
  qed
qed

lemma float64_three_halves: "float64 (3 / 2) = 3 / 2"
  using float64_exact [of "3 / 2" 3 "- 1"] by simp

lemma truncateInt_int: "truncateInt (real_of_int n) = n"
  by (simp add: truncateInt_def)

lemma toInt64_int: "isInt64 n \<Longrightarrow> toInt64 (real_of_int n) = n"
proof -
  assume "isInt64 n"
  then have "- (2 ^ 63) \<le> n" "n < 2 ^ 63"
    by (simp_all add: isInt64_def)
  then have "real_of_int (- (2 ^ 63)) \<le> real_of_int n" "real_of_int n < real_of_int (2 ^ 63)"
    by (simp_all only: of_int_le_iff of_int_less_iff)
  then show ?thesis
    by (simp add: toInt64_def truncateInt_int)
qed

lemma toInt64_nonneg: "0 \<le> x \<Longrightarrow> 0 \<le> toInt64 x \<or> toInt64 x = - (2 ^ 63)"
  by (simp add: toInt64_def truncateInt_def)

lemma mathRound_nonneg: "0 \<le> x \<Longrightarrow> 0 \<le> mathRound x"
  by (simp add: mathRound_def)

lemma mathRound_int: "mathRound (real_of_int n) = real_of_int n"
  by (simp add: mathRound_def) linarith

section \<open>Properties of the physics\<close>

lemma sqrt_25: "sqrt 25 = 5"
  using real_sqrt_abs [of 5] by simp

lemma float64_small: "float64 3 = 3" "float64 4 = 4" "float64 5 = 5" "float64 9 = 9"
  "float64 16 = 16" "float64 25 = 25"
  using float64_int [of 3] float64_int [of 4] float64_int [of 5] float64_int [of 9]
    float64_int [of 16] float64_int [of 25]
  by simp_all

lemma exDistance: "CalculateDistance [0, 0] [3, 4] = 5"
proof -
  have "int64 3 = 3" "int64 4 = 4"
    by (simp_all add: int64_def)
  moreover have "toInt64 (mathRound 5) = 5"
    using mathRound_int [of 5] toInt64_int [of 5] by (simp add: isInt64_def)
  ultimately show ?thesis
    by (simp add: CalculateDistance_def Let_def float64_small sqrt_25)
qed

lemma CalculateDistance_sign:
  "0 \<le> CalculateDistance p1 p2 \<or> CalculateDistance p1 p2 = - (2 ^ 63)"
proof (cases "length p1 < 2 \<or> length p2 < 2")
  case True
  then show ?thesis by (simp add: CalculateDistance_def)
next
  case False
  define dx where "dx = float64 (of_int (int64 (p2 ! 0 - p1 ! 0)))"
  define dy where "dy = float64 (of_int (int64 (p2 ! 1 - p1 ! 1)))"
  define dist where "dist = float64 (sqrt (float64 (float64 (dx * dx) + float64 (dy * dy))))"
  have "0 \<le> float64 (dx * dx) + float64 (dy * dy)"
    using float64_nonneg [of "dx * dx"] float64_nonneg [of "dy * dy"] by simp
  then have "0 \<le> sqrt (float64 (float64 (dx * dx) + float64 (dy * dy)))"
    using float64_nonneg by simp
  then have "0 \<le> mathRound dist"
    unfolding dist_def by (intro mathRound_nonneg float64_nonneg)
  from toInt64_nonneg [OF this] False show ?thesis
    by (simp add: CalculateDistance_def Let_def dx_def dy_def dist_def)
qed

lemma foldl_contractMass:
  "int64 (foldl (\<lambda>total c. int64 (total + contractMass u c)) b cs)
     = int64 (b + sum_list (map (\<lambda>c. if Type c = ''cargo'' then MassPerUnit c * Quantity c
                                       else MassPerPassenger (PassengerConfig u) * Quantity c) cs))"
proof (induction cs arbitrary: b)
  case Nil
  then show ?case by simp
next
  case (Cons c cs)
  have "int64 (int64 (b + contractMass u c) + x)
      = int64 (b + (if Type c = ''cargo'' then MassPerUnit c * Quantity c
                    else MassPerPassenger (PassengerConfig u) * Quantity c) + x)" for x
  proof -
    have "int64 (int64 (b + contractMass u c) + x) = int64 (b + contractMass u c + x)"
      by (rule int64_add_left)
    also have "b + contractMass u c + x = (b + x) + contractMass u c"
      by simp
    also have "int64 ((b + x) + contractMass u c)
        = int64 ((b + x) + (if Type c = ''cargo'' then MassPerUnit c * Quantity c
                    else MassPerPassenger (PassengerConfig u) * Quantity c))"
      by (simp add: contractMass_def int64_add_right)
    also have "(b + x) + (if Type c = ''cargo'' then MassPerUnit c * Quantity c
                    else MassPerPassenger (PassengerConfig u) * Quantity c)
        = b + (if Type c = ''cargo'' then MassPerUnit c * Quantity c
                    else MassPerPassenger (PassengerConfig u) * Quantity c) + x"
      by simp
    finally show ?thesis .
  qed
  with Cons.IH [of "int64 (b + contractMass u c)"] show ?case
    by (simp add: add.assoc)
qed

lemma contractMass_by_type:
  "sum_list (map (\<lambda>c. if Type c = ''cargo'' then MassPerUnit c * Quantity c
                       else MassPerPassenger (PassengerConfig u) * Quantity c) cs) =
     sum_list (map (\<lambda>c. MassPerUnit c * Quantity c) (filter (\<lambda>c. Type c = ''cargo'') cs))
   + sum_list (map (\<lambda>c. MassPerPassenger (PassengerConfig u) * Quantity c)
                (filter (\<lambda>c. Type c \<noteq> ''cargo'') cs))"
  by (induction cs) simp_all

lemma CalculateTotalMass_sum: "CalculateTotalMass u ship = int64 (specTotalMass u ship)"
proof -
  define total where "total = foldl (\<lambda>total c. int64 (total + contractMass u c)) (BaseMass ship)
                    (ActiveContracts ship)"
  define fuelMass where "fuelMass = Fuel ship * FuelMassPerUnit (BalanceConfig u)"
  have "CalculateTotalMass u ship = int64 (total + int64 fuelMass)"
    by (simp add: CalculateTotalMass_def Let_def total_def fuelMass_def)
  also have "\<dots> = int64 (int64 total + fuelMass)"
    by (simp add: int64_add_left int64_add_right)
  also have "\<dots> = int64 (specTotalMass u ship)"
    unfolding total_def
    by (simp add: int64_add_left foldl_contractMass contractMass_by_type specTotalMass_def
        fuelMass_def add.assoc)
  finally show ?thesis .
qed

lemma referenceMass_sum: "referenceMass u ship = int64 (specReferenceMass u ship)"
  by (simp add: referenceMass_def specReferenceMass_def Let_def int64_add_right)

lemma CalculateCurrentBurn_damped:
  "BurnDamping ship \<noteq> 0 \<Longrightarrow>
   CalculateCurrentBurn u ship =
     Inr (max 100 (int64 (BaseBurnRate ship
            + int64 (specTotalMass u ship - specReferenceMass u ship) sdiv BurnDamping ship)))"
  by (simp add: CalculateCurrentBurn_def Let_def max_def int64_add_right CalculateTotalMass_sum
      referenceMass_sum int64_diff_left int64_diff_right)

lemma CalculateCurrentBurn_exact:
  assumes "BurnDamping ship \<noteq> 0"
    and "isInt64 (specTotalMass u ship - specReferenceMass u ship)"
    and "isInt64 (BaseBurnRate ship
           + (specTotalMass u ship - specReferenceMass u ship) sdiv BurnDamping ship)"
  shows "CalculateCurrentBurn u ship = Inr (specBurn u ship)"
  using assms by (simp add: CalculateCurrentBurn_damped int64_id specBurn_def)

lemma exMasses:
  "specTotalMass exUniverse exShip = 1600" "specReferenceMass exUniverse exShip = 1500"
  by (simp_all add: specTotalMass_def specReferenceMass_def exShip_def exUniverse_def exBalance_def
      signed_divide_int_def)

lemma exBurn: "CalculateCurrentBurn exUniverse exShip = Inr 100"
proof -
  have "BurnDamping exShip = 1000" "BaseBurnRate exShip = 100"
    by (simp_all add: exShip_def)
  then show ?thesis
    using CalculateCurrentBurn_exact [of exShip exUniverse]
    by (simp add: exMasses specBurn_def isInt64_def signed_divide_int_def)
qed

text \<open>
  C6, as stated, fails on a ship whose burn damping is zero: the division panics and
  no burn rate is returned. It also fails when the sum leaves the range of \<open>int64\<close>:
  with the largest base burn rate and an adjustment of 2 the formula gives
  \<open>2^63 + 1\<close>, and the code returns 100.
\<close>

theorem burn_zero_damping_counterexample:
  "CalculateCurrentBurn exUniverse (exShip\<lparr>BurnDamping := 0\<rparr>) = Inl DivideByZero
   \<and> BurnDamping hugeShip \<noteq> 0
   \<and> BaseBurnRate hugeShip
       + (specTotalMass exUniverse hugeShip - specReferenceMass exUniverse hugeShip)
           sdiv BurnDamping hugeShip = 9223372036854775809
   \<and> CalculateCurrentBurn exUniverse hugeShip = Inr 100"
proof -
  have m: "specTotalMass exUniverse hugeShip - specReferenceMass exUniverse hugeShip = 100"
    by (simp add: specTotalMass_def specReferenceMass_def hugeShip_def exShip_def exUniverse_def
        exBalance_def signed_divide_int_def)
  have f: "BurnDamping hugeShip = 50" "BaseBurnRate hugeShip = 9223372036854775807"
    by (simp_all add: hugeShip_def)
  have "CalculateCurrentBurn exUniverse hugeShip = Inr 100"
    using CalculateCurrentBurn_damped [of hugeShip exUniverse]
    by (simp add: m f int64_def signed_divide_int_def)
  then show ?thesis
    by (simp add: m f signed_divide_int_def CalculateCurrentBurn_def Let_def)
qed

text \<open>
  C6 (amended). For every ship whose burn damping is not zero, the current burn rate
  is at least 100, and it is the base burn rate plus (total mass - reference mass) /
  burn damping, with Go's truncating division and the results reduced to \<open>int64\<close>,
  raised to 100 when it is lower. The reference mass is the base mass plus half a tank,
  and the total mass is the base mass plus the mass of the cargo contracts, plus the
  passenger-config mass of all other contracts, plus the fuel mass, both reduced to
  \<open>int64\<close>. Whenever the mass difference and the sum of base burn rate and adjustment
  are within the range of \<open>int64\<close>, the burn rate is exactly the value of the
  formula of the specification. On the reference ship of the specification (base burn
  rate 100, damping 1000, base mass 1000, tank 1000, fuel 500 of mass 1, no contracts)
  the burn rate is exactly 100.
\<close>

theorem CalculateCurrentBurn_formula:
  "(BurnDamping ship \<noteq> 0 \<longrightarrow>
      CalculateCurrentBurn u ship =
        Inr (max 100 (int64 (BaseBurnRate ship
               + int64 (specTotalMass u ship - specReferenceMass u ship) sdiv BurnDamping ship)))
      \<and> (\<exists>burn. CalculateCurrentBurn u ship = Inr burn \<and> 100 \<le> burn))
   \<and> referenceMass u ship = int64 (specReferenceMass u ship)
   \<and> CalculateTotalMass u ship = int64 (specTotalMass u ship)
   \<and> (BurnDamping ship \<noteq> 0
        \<and> isInt64 (specTotalMass u ship - specReferenceMass u ship)
        \<and> isInt64 (BaseBurnRate ship
             + (specTotalMass u ship - specReferenceMass u ship) sdiv BurnDamping ship)
      \<longrightarrow> CalculateCurrentBurn u ship = Inr (specBurn u ship))
   \<and> (BaseBurnRate ship = 100 \<and> BurnDamping ship = 1000 \<and> BaseMass ship = 1000
        \<and> MaxFuel ship = 1000 \<and> FuelMassPerUnit (BalanceConfig u) = 1 \<and> Fuel ship = 500
        \<and> ActiveContracts ship = []
      \<longrightarrow> CalculateCurrentBurn u ship = Inr 100)"
proof (intro conjI impI)
  assume "BurnDamping ship \<noteq> 0"
  then show "CalculateCurrentBurn u ship =
        Inr (max 100 (int64 (BaseBurnRate ship
               + int64 (specTotalMass u ship - specReferenceMass u ship) sdiv BurnDamping ship)))"
    by (rule CalculateCurrentBurn_damped)
  then show "\<exists>burn. CalculateCurrentBurn u ship = Inr burn \<and> 100 \<le> burn"
    by simp
next
  show "referenceMass u ship = int64 (specReferenceMass u ship)"
    by (rule referenceMass_sum)
next
  show "CalculateTotalMass u ship = int64 (specTotalMass u ship)"
    by (rule CalculateTotalMass_sum)
next
  assume "BurnDamping ship \<noteq> 0
        \<and> isInt64 (specTotalMass u ship - specReferenceMass u ship)
        \<and> isInt64 (BaseBurnRate ship
             + (specTotalMass u ship - specReferenceMass u ship) sdiv BurnDamping ship)"
  then show "CalculateCurrentBurn u ship = Inr (specBurn u ship)"
    by (simp add: CalculateCurrentBurn_exact)
next
  assume a: "BaseBurnRate ship = 100 \<and> BurnDamping ship = 1000 \<and> BaseMass ship = 1000
        \<and> MaxFuel ship = 1000 \<and> FuelMassPerUnit (BalanceConfig u) = 1 \<and> Fuel ship = 500
        \<and> ActiveContracts ship = []"
  then have "specTotalMass u ship - specReferenceMass u ship = 0"
    by (simp add: specTotalMass_def specReferenceMass_def signed_divide_int_def)
  with a show "CalculateCurrentBurn u ship = Inr 100"
    using CalculateCurrentBurn_exact [of ship u]
    by (simp add: specBurn_def isInt64_def signed_divide_int_def)
qed

theorem CalculateCurrentBurn_formula_witness:
  "BurnDamping (exShip\<lparr>Fuel := 500\<rparr>) \<noteq> 0
   \<and> BaseBurnRate (exShip\<lparr>Fuel := 500\<rparr>) = 100 \<and> BurnDamping (exShip\<lparr>Fuel := 500\<rparr>) = 1000
   \<and> BaseMass (exShip\<lparr>Fuel := 500\<rparr>) = 1000 \<and> MaxFuel (exShip\<lparr>Fuel := 500\<rparr>) = 1000
   \<and> FuelMassPerUnit (BalanceConfig exUniverse) = 1 \<and> Fuel (exShip\<lparr>Fuel := 500\<rparr>) = 500
   \<and> ActiveContracts (exShip\<lparr>Fuel := 500\<rparr>) = []
   \<and> isInt64 (specTotalMass exUniverse (exShip\<lparr>Fuel := 500\<rparr>)
        - specReferenceMass exUniverse (exShip\<lparr>Fuel := 500\<rparr>))
   \<and> isInt64 (BaseBurnRate (exShip\<lparr>Fuel := 500\<rparr>)
        + (specTotalMass exUniverse (exShip\<lparr>Fuel := 500\<rparr>)
           - specReferenceMass exUniverse (exShip\<lparr>Fuel := 500\<rparr>))
          sdiv BurnDamping (exShip\<lparr>Fuel := 500\<rparr>))
   \<and> CalculateCurrentBurn exUniverse (exShip\<lparr>Fuel := 500\<rparr>) = Inr 100
   \<and> specBurn exUniverse (exShip\<lparr>Fuel := 500\<rparr>) = 100
   \<and> referenceMass exUniverse (exShip\<lparr>Fuel := 500\<rparr>) = 1500
   \<and> CalculateTotalMass exUniverse (exShip\<lparr>Fuel := 500\<rparr>) = 1500"
proof -
  have m: "specTotalMass exUniverse (exShip\<lparr>Fuel := 500\<rparr>) = 1500"
    "specReferenceMass exUniverse (exShip\<lparr>Fuel := 500\<rparr>) = 1500"
    by (simp_all add: specTotalMass_def specReferenceMass_def exShip_def exUniverse_def exBalance_def
        signed_divide_int_def)
  have i: "int64 1500 = 1500"
    by (simp add: int64_def)
  have f: "BurnDamping (exShip\<lparr>Fuel := 500\<rparr>) = 1000" "BaseBurnRate (exShip\<lparr>Fuel := 500\<rparr>) = 100"
    "BaseMass (exShip\<lparr>Fuel := 500\<rparr>) = 1000" "MaxFuel (exShip\<lparr>Fuel := 500\<rparr>) = 1000"
    "Fuel (exShip\<lparr>Fuel := 500\<rparr>) = 500" "ActiveContracts (exShip\<lparr>Fuel := 500\<rparr>) = []"
    "FuelMassPerUnit (BalanceConfig exUniverse) = 1"
    by (simp_all add: exShip_def exUniverse_def exBalance_def)
  show ?thesis
    using CalculateCurrentBurn_formula [of "exShip\<lparr>Fuel := 500\<rparr>" exUniverse]
    by (simp add: f m i specBurn_def isInt64_def signed_divide_int_def int64_small)
qed

section \<open>Properties of the market tick\<close>

lemma tickHeat_above: "1 \<le> x \<Longrightarrow> tickHeat x = max 1 (x - 0.05)"
  by (simp add: tickHeat_def recoveryRate_def)

lemma tickHeat_below: "x \<le> 1 \<Longrightarrow> tickHeat x = min 1 (x + 0.05)"
  by (simp add: tickHeat_def recoveryRate_def)

lemma tickHeat_iter_above: "1 \<le> h \<Longrightarrow> (tickHeat ^^ n) h = max 1 (h - real n * 0.05)"
proof (induction n)
  case 0
  then show ?case by simp
next
  case (Suc n)
  have "(tickHeat ^^ Suc n) h = tickHeat (max 1 (h - real n * 0.05))"
    using Suc by simp
  also have "\<dots> = max 1 (max 1 (h - real n * 0.05) - 0.05)"
    by (rule tickHeat_above) simp
  also have "\<dots> = max 1 (h - real (Suc n) * 0.05)"
    by (auto simp: max_def field_simps)
  finally show ?case .
qed

lemma tickHeat_iter_below: "h \<le> 1 \<Longrightarrow> (tickHeat ^^ n) h = min 1 (h + real n * 0.05)"
proof (induction n)
  case 0
  then show ?case by simp
next
  case (Suc n)
  have "(tickHeat ^^ Suc n) h = tickHeat (min 1 (h + real n * 0.05))"
    using Suc by simp
  also have "\<dots> = min 1 (min 1 (h + real n * 0.05) + 0.05)"
    by (rule tickHeat_below) simp
  also have "\<dots> = min 1 (h + real (Suc n) * 0.05)"
    by (auto simp: min_def field_simps)
  finally show ?case .
qed

lemma tickHeat_reaches_neutral: "\<exists>n. \<forall>m\<ge>n. (tickHeat ^^ m) h = 1"
proof (cases "1 \<le> h")
  case True
  obtain n where n: "(h - 1) * 20 \<le> real n"
    using real_arch_simple by blast
  have "(tickHeat ^^ m) h = 1" if "n \<le> m" for m
  proof -
    have "real n \<le> real m" using that by simp
    with n have "h - real m * 0.05 \<le> 1" by simp
    then show ?thesis using True by (simp add: tickHeat_iter_above)
  qed
  then show ?thesis by blast
next
  case False
  then have le: "h \<le> 1" by simp
  obtain n where n: "(1 - h) * 20 \<le> real n"
    using real_arch_simple by blast
  have "(tickHeat ^^ m) h = 1" if "n \<le> m" for m
  proof -
    have "real n \<le> real m" using that by simp
    with n have "1 \<le> h + real m * 0.05" by simp
    then show ?thesis using le by (simp add: tickHeat_iter_below)
  qed
  then show ?thesis by blast
qed

lemma heatEntry_tickMap: "heatEntry (tickMap h) pk ck = map_option tickHeat (heatEntry h pk ck)"
  by (simp add: heatEntry_def tickMap_def split: option.split)

lemma heatEntry_MarketTick:
  "heatEntry (SourceHeat (Market (MarketTick s))) pk ck
     = map_option tickHeat (heatEntry (SourceHeat (Market s)) pk ck)"
  "heatEntry (DestHeat (Market (MarketTick s))) pk ck
     = map_option tickHeat (heatEntry (DestHeat (Market s)) pk ck)"
  by (simp_all add: MarketTick_def heatEntry_tickMap)

lemma heatEntry_MarketTick_iter:
  "heatEntry (SourceHeat (Market ((MarketTick ^^ n) s))) pk ck
     = map_option (tickHeat ^^ n) (heatEntry (SourceHeat (Market s)) pk ck)"
  "heatEntry (DestHeat (Market ((MarketTick ^^ n) s))) pk ck
     = map_option (tickHeat ^^ n) (heatEntry (DestHeat (Market s)) pk ck)"
  by (induction n) (simp_all add: heatEntry_MarketTick option.map_comp option.map_id o_def)

text \<open>
  C4. \<open>n\<close> calls of \<open>MarketTick\<close> apply the one-entry step \<open>n\<close> times to every entry of
  \<open>SourceHeat\<close> and of \<open>DestHeat\<close>. For every heat value \<open>h\<close> the step does not increase
  the distance to 1.0, moves towards 1.0 and never to the other side of it, and after
  finitely many calls the value is 1.0 and stays there; 1.2 goes to 1.15, then 1.10,
  and is 1.0 after four calls. (Heat is a real number here.)
\<close>

theorem MarketTick_converges:
  "heatEntry (SourceHeat (Market ((MarketTick ^^ n) s))) pk ck
     = map_option (tickHeat ^^ n) (heatEntry (SourceHeat (Market s)) pk ck)
   \<and> heatEntry (DestHeat (Market ((MarketTick ^^ n) s))) pk ck
     = map_option (tickHeat ^^ n) (heatEntry (DestHeat (Market s)) pk ck)
   \<and> \<bar>tickHeat h - 1\<bar> \<le> \<bar>h - 1\<bar>
   \<and> (1 \<le> h \<longrightarrow> 1 \<le> tickHeat h \<and> tickHeat h \<le> h)
   \<and> (h \<le> 1 \<longrightarrow> h \<le> tickHeat h \<and> tickHeat h \<le> 1)
   \<and> (\<exists>N. \<forall>m\<ge>N. (tickHeat ^^ m) h = 1)
   \<and> tickHeat 1.2 = 1.15 \<and> tickHeat 1.15 = 1.10 \<and> (tickHeat ^^ 4) 1.2 = 1.0
   \<and> tickHeat 1.0 = 1.0"
proof (intro conjI)
  show "\<bar>tickHeat h - 1\<bar> \<le> \<bar>h - 1\<bar>"
    by (auto simp: tickHeat_def recoveryRate_def)
  show "1 \<le> h \<longrightarrow> 1 \<le> tickHeat h \<and> tickHeat h \<le> h"
    by (auto simp: tickHeat_def recoveryRate_def)
  show "h \<le> 1 \<longrightarrow> h \<le> tickHeat h \<and> tickHeat h \<le> 1"
    by (auto simp: tickHeat_def recoveryRate_def)
  show "\<exists>N. \<forall>m\<ge>N. (tickHeat ^^ m) h = 1"
    by (rule tickHeat_reaches_neutral)
  show "(tickHeat ^^ 4) 1.2 = 1.0"
    by (simp add: tickHeat_def recoveryRate_def eval_nat_numeral)
qed (simp_all add: heatEntry_MarketTick_iter tickHeat_def recoveryRate_def)

theorem MarketTick_converges_witness:
  "(1::real) \<le> 1.2 \<and> 1 \<le> tickHeat 1.2 \<and> tickHeat 1.2 \<le> 1.2
   \<and> (0.5::real) \<le> 1 \<and> 0.5 \<le> tickHeat 0.5 \<and> tickHeat 0.5 \<le> 1
   \<and> heatEntry (SourceHeat (Market ((MarketTick ^^ 4) exState))) ''planet_prime'' ''item_ore'' = None"
  using MarketTick_converges [of 4 exState "''planet_prime''" "''item_ore''" "1.2"]
    MarketTick_converges [of 4 exState "''planet_prime''" "''item_ore''" "0.5"]
  by (simp add: exState_def heatEntry_def)

text \<open>
  C5, as stated, fails at the heat 1.2: 5% of its distance from 1.0 is 0.01, and the
  tick moves it by 0.05.
\<close>

theorem tick_proportional_counterexample:
  "tickHeat 1.2 \<noteq> 1.2 - 0.05 * (1.2 - 1.0)"
  by (simp add: tickHeat_def recoveryRate_def)

text \<open>
  C5 (amended). Each call of \<open>MarketTick\<close> moves every heat value of \<open>SourceHeat\<close> and of
  \<open>DestHeat\<close> towards 1.0 by the fixed step 0.05, whatever its distance from 1.0, and
  stops at 1.0: the new value is \<open>max 1 (h - 0.05)\<close> above 1.0 and \<open>min 1 (h + 0.05)\<close>
  below it, so the distance to 1.0 shrinks by 0.05 or to zero.
\<close>

theorem MarketTick_fixed_step:
  "heatEntry (SourceHeat (Market (MarketTick s))) pk ck
     = map_option tickHeat (heatEntry (SourceHeat (Market s)) pk ck)
   \<and> heatEntry (DestHeat (Market (MarketTick s))) pk ck
     = map_option tickHeat (heatEntry (DestHeat (Market s)) pk ck)
   \<and> (1 < h \<longrightarrow> tickHeat h = max 1 (h - 0.05))
   \<and> (h < 1 \<longrightarrow> tickHeat h = min 1 (h + 0.05))
   \<and> tickHeat 1 = 1
   \<and> \<bar>tickHeat h - 1\<bar> = max 0 (\<bar>h - 1\<bar> - 0.05)"
proof (intro conjI)
  show "\<bar>tickHeat h - 1\<bar> = max 0 (\<bar>h - 1\<bar> - 0.05)"
    by (auto simp: tickHeat_def recoveryRate_def)
qed (simp_all add: heatEntry_MarketTick tickHeat_def recoveryRate_def)

theorem MarketTick_fixed_step_witness:
  "(1::real) < 3 \<and> tickHeat 3 = 2.95 \<and> \<bar>tickHeat 3 - 1\<bar> = 1.95
   \<and> (0.3::real) < 1 \<and> tickHeat 0.3 = 0.35"
  using MarketTick_fixed_step [of exState "''planet_prime''" "''item_ore''" 3]
    MarketTick_fixed_step [of exState "''planet_prime''" "''item_ore''" "0.3"]
  by simp

section \<open>Properties of travel and refuelling\<close>

lemma GetPlanet_None: "GetPlanet u key = None \<longleftrightarrow> key \<notin> pKey ` set (Planets u)"
  by (auto simp: GetPlanet_def find_None_iff)

lemma GetPlanet_Some: "GetPlanet u key = Some p \<Longrightarrow> pKey p = key \<and> p \<in> set (Planets u)"
  by (auto simp: GetPlanet_def find_Some_iff)

lemma exPlanets:
  "GetPlanet exUniverse ''planet_outer'' = Some exOuter"
  "GetPlanet exUniverse ''planet_prime'' = Some exPrime"
  "GetPlanet exUniverse ''deep_space'' = None"
  by (simp_all add: GetPlanet_def exUniverse_def exPrime_def exOuter_def)

lemma deliverStep_foldl:
  "foldl (deliverStep loc) (r, p, m) cs =
     (r @ filter (\<lambda>c. DestinationKey c \<noteq> loc) cs,
      foldl (\<lambda>payoutTotal c. int64 (payoutTotal + Payout c)) p
        (filter (\<lambda>c. DestinationKey c = loc) cs),
      foldl (\<lambda>m c. RecordDelivery m (DestinationKey c) (ItemKey c) (Quantity c)) m
        (filter (\<lambda>c. DestinationKey c = loc) cs))"
  by (induction cs arbitrary: r p m) (simp_all add: deliverStep_def)

lemma payoutTotal_foldl:
  "int64 (a + foldl (\<lambda>payoutTotal c. int64 (payoutTotal + Payout c)) p cs)
     = int64 (a + p + sum_list (map Payout cs))"
  by (rule int64_foldl_sum)

lemma CalculateCurrentBurn_floor: "CalculateCurrentBurn u ship = Inr burn \<Longrightarrow> 100 \<le> burn"
  by (auto simp: CalculateCurrentBurn_def Let_def split: if_splits)

text \<open>
  C10. The refuel cost is \<open>(fuelNeeded / 100) * FuelCostPerUnit\<close> with truncating
  division: whenever the tank is not full and the credits cover that cost, refuel
  debits exactly it and fills the tank. When the tank lacks fewer than 100 units and
  the credit balance is not negative, refuel succeeds, leaves the credits as they
  were and fills the tank.
\<close>

theorem HandleRefuel_truncating_cost:
  "(0 < MaxFuel (PlayerShip s) - Fuel (PlayerShip s)
      \<and> ((MaxFuel (PlayerShip s) - Fuel (PlayerShip s)) sdiv 100) * FuelCostPerUnit (BalanceConfig u)
          \<le> Credits (PlayerShip s)
    \<longrightarrow> HandleRefuel u s =
          (let ship = (PlayerShip s)\<lparr>
                 Credits := Credits (PlayerShip s)
                   - ((MaxFuel (PlayerShip s) - Fuel (PlayerShip s)) div 100)
                     * FuelCostPerUnit (BalanceConfig u),
                 Fuel := MaxFuel (PlayerShip s)\<rparr>
           in (Encode ship, s\<lparr>PlayerShip := ship\<rparr>)))
   \<and> (0 < MaxFuel (PlayerShip s) - Fuel (PlayerShip s)
      \<and> MaxFuel (PlayerShip s) - Fuel (PlayerShip s) < 100
      \<and> 0 \<le> Credits (PlayerShip s)
    \<longrightarrow> HandleRefuel u s =
          (Encode ((PlayerShip s)\<lparr>Fuel := MaxFuel (PlayerShip s)\<rparr>),
           s\<lparr>PlayerShip := (PlayerShip s)\<lparr>Fuel := MaxFuel (PlayerShip s)\<rparr>\<rparr>)
        \<and> Credits (PlayerShip (snd (HandleRefuel u s))) = Credits (PlayerShip s)
        \<and> Fuel (PlayerShip (snd (HandleRefuel u s))) = MaxFuel (PlayerShip s))"
proof (intro conjI impI)
  assume a: "0 < MaxFuel (PlayerShip s) - Fuel (PlayerShip s)
      \<and> ((MaxFuel (PlayerShip s) - Fuel (PlayerShip s)) sdiv 100) * FuelCostPerUnit (BalanceConfig u)
          \<le> Credits (PlayerShip s)"
  then have "(MaxFuel (PlayerShip s) - Fuel (PlayerShip s)) sdiv 100
               = (MaxFuel (PlayerShip s) - Fuel (PlayerShip s)) div 100"
    by (simp add: signed_divide_int_def)
  with a show "HandleRefuel u s =
          (let ship = (PlayerShip s)\<lparr>
                 Credits := Credits (PlayerShip s)
                   - ((MaxFuel (PlayerShip s) - Fuel (PlayerShip s)) div 100)
                     * FuelCostPerUnit (BalanceConfig u),
                 Fuel := MaxFuel (PlayerShip s)\<rparr>
           in (Encode ship, s\<lparr>PlayerShip := ship\<rparr>))"
    by (simp add: HandleRefuel_def Let_def)
next
  assume b: "0 < MaxFuel (PlayerShip s) - Fuel (PlayerShip s)
      \<and> MaxFuel (PlayerShip s) - Fuel (PlayerShip s) < 100
      \<and> 0 \<le> Credits (PlayerShip s)"
  then have z: "(MaxFuel (PlayerShip s) - Fuel (PlayerShip s)) sdiv 100 = 0"
    by (simp add: signed_divide_int_def)
  from b z show r: "HandleRefuel u s =
          (Encode ((PlayerShip s)\<lparr>Fuel := MaxFuel (PlayerShip s)\<rparr>),
           s\<lparr>PlayerShip := (PlayerShip s)\<lparr>Fuel := MaxFuel (PlayerShip s)\<rparr>\<rparr>)"
    by (simp add: HandleRefuel_def Let_def)
  show "Credits (PlayerShip (snd (HandleRefuel u s))) = Credits (PlayerShip s)"
    by (simp add: r)
  show "Fuel (PlayerShip (snd (HandleRefuel u s))) = MaxFuel (PlayerShip s)"
    by (simp add: r)
qed

theorem HandleRefuel_truncating_cost_witness:
  "0 < MaxFuel (PlayerShip nearlyFullState) - Fuel (PlayerShip nearlyFullState)
   \<and> MaxFuel (PlayerShip nearlyFullState) - Fuel (PlayerShip nearlyFullState) < 100
   \<and> 0 \<le> Credits (PlayerShip nearlyFullState)
   \<and> FuelCostPerUnit (BalanceConfig exUniverse) = 10
   \<and> HandleRefuel exUniverse nearlyFullState =
        (Encode (exShip\<lparr>Fuel := 1000, Credits := 0\<rparr>),
         exState\<lparr>PlayerShip := exShip\<lparr>Fuel := 1000, Credits := 0\<rparr>\<rparr>)"
  using HandleRefuel_truncating_cost [of nearlyFullState exUniverse]
  by (simp add: nearlyFullState_def exState_def exShip_def exUniverse_def exBalance_def Let_def)

text \<open>
  C9. Travel and travel-quote look the destination up before anything else and
  answer NotFound when it is missing; they do not check the planet of the ship's own
  location. For every state whose \<open>LocationKey\<close> matches no planet of the catalog and
  every request that names a planet of the catalog, both dereference the nil planet:
  the handler panics, and the state is as before. When the ship's location is in the
  catalog neither handler dereferences nil.
\<close>

theorem travel_unknown_location_panics:
  "(destinationKey \<notin> pKey ` set (Planets u) \<longrightarrow>
      HandleTravel u (Some destinationKey) s = (Error ''Destination invalid'' StatusNotFound, s)
      \<and> HandleTravelQuote u (Some destinationKey) s = Error ''Destination invalid'' StatusNotFound)
   \<and> (LocationKey (PlayerShip s) \<notin> pKey ` set (Planets u)
        \<and> destinationKey \<in> pKey ` set (Planets u) \<longrightarrow>
      HandleTravel u (Some destinationKey) s = (Panic NilDereference, s)
      \<and> HandleTravelQuote u (Some destinationKey) s = Panic NilDereference)
   \<and> (LocationKey (PlayerShip s) \<in> pKey ` set (Planets u) \<longrightarrow>
      fst (HandleTravel u req s) \<noteq> Panic NilDereference
      \<and> HandleTravelQuote u req s \<noteq> Panic NilDereference)"
proof (intro conjI impI)
  assume "destinationKey \<notin> pKey ` set (Planets u)"
  then have d: "GetPlanet u destinationKey = None"
    by (simp add: GetPlanet_None)
  show "HandleTravel u (Some destinationKey) s = (Error ''Destination invalid'' StatusNotFound, s)"
    by (simp add: HandleTravel_def d)
  show "HandleTravelQuote u (Some destinationKey) s = Error ''Destination invalid'' StatusNotFound"
    by (simp add: HandleTravelQuote_def d)
next
  assume a: "LocationKey (PlayerShip s) \<notin> pKey ` set (Planets u)
        \<and> destinationKey \<in> pKey ` set (Planets u)"
  then obtain d where d: "GetPlanet u destinationKey = Some d"
    using GetPlanet_None [of u destinationKey] by auto
  from a have c: "GetPlanet u (LocationKey (PlayerShip s)) = None"
    by (simp add: GetPlanet_None)
  show "HandleTravel u (Some destinationKey) s = (Panic NilDereference, s)"
    by (simp add: HandleTravel_def d c)
  show "HandleTravelQuote u (Some destinationKey) s = Panic NilDereference"
    by (simp add: HandleTravelQuote_def d c)
next
  assume "LocationKey (PlayerShip s) \<in> pKey ` set (Planets u)"
  then obtain c where c: "GetPlanet u (LocationKey (PlayerShip s)) = Some c"
    using GetPlanet_None [of u "LocationKey (PlayerShip s)"] by auto
  have b: "p = DivideByZero" if "CalculateCurrentBurn u (PlayerShip s) = Inl p" for p
    using that by (simp add: CalculateCurrentBurn_def Let_def split: if_splits)
  show "fst (HandleTravel u req s) \<noteq> Panic NilDereference"
    by (auto simp: HandleTravel_def c Let_def split: option.split prod.split sum.split dest: b)
  show "HandleTravelQuote u req s \<noteq> Panic NilDereference"
    by (auto simp: HandleTravelQuote_def c Let_def split: option.split sum.split dest: b)
qed

theorem travel_unknown_location_panics_witness:
  "LocationKey (PlayerShip strandedState) \<notin> pKey ` set (Planets exUniverse)
   \<and> ''planet_outer'' \<in> pKey ` set (Planets exUniverse)
   \<and> ''planet_nine'' \<notin> pKey ` set (Planets exUniverse)
   \<and> HandleTravel exUniverse (Some ''planet_outer'') strandedState
       = (Panic NilDereference, strandedState)
   \<and> HandleTravelQuote exUniverse (Some ''planet_outer'') strandedState = Panic NilDereference
   \<and> HandleTravel exUniverse (Some ''planet_nine'') strandedState
       = (Error ''Destination invalid'' StatusNotFound, strandedState)
   \<and> LocationKey (PlayerShip exState) \<in> pKey ` set (Planets exUniverse)"
  using travel_unknown_location_panics [of "''planet_outer''" exUniverse strandedState]
    travel_unknown_location_panics [of "''planet_nine''" exUniverse strandedState]
    travel_unknown_location_panics [of "''planet_outer''" exUniverse exState]
  by (simp add: strandedState_def exState_def exShip_def exUniverse_def exPrime_def exOuter_def)

text \<open>
  C2, as stated, fails for a ship whose own location is not in the catalog: a travel
  request to a known destination then neither signals a failed precondition nor
  moves the ship, the handler panics. So it does when the burn damping is zero. And
  when distance times burn rate leaves the range of \<open>int64\<close> the ship moves without
  the fuel for it: at a burn rate of \<open>2 * 10^18\<close> and a distance of 5, with 600 units
  of fuel, the product is reduced to a negative number, the fuel check passes and the
  tank is credited.
\<close>

theorem travel_stranded_counterexample:
  "GetPlanet exUniverse ''planet_outer'' = Some exOuter
   \<and> HandleTravel exUniverse (Some ''planet_outer'') strandedState
       = (Panic NilDereference, strandedState)
   \<and> HandleTravel exUniverse (Some ''planet_outer'') undampedState
       = (Panic DivideByZero, undampedState)
   \<and> CalculateDistance (Coordinates exPrime) (Coordinates exOuter) = 5
   \<and> CalculateCurrentBurn exUniverse (PlayerShip racerState) = Inr 2000000000000000000
   \<and> Fuel (PlayerShip racerState) = 600
   \<and> fst (HandleTravel exUniverse (Some ''planet_outer'') racerState)
       = Encode (exShip\<lparr>BaseBurnRate := 2000000000000000000, Fuel := 8446744073709552216,
                         LocationKey := ''planet_outer''\<rparr>)"
proof -
  have d: "CalculateDistance (Coordinates exPrime) (Coordinates exOuter) = 5"
    by (simp add: exPrime_def exOuter_def exDistance)
  have u: "HandleTravel exUniverse (Some ''planet_outer'') undampedState
       = (Panic DivideByZero, undampedState)"
    by (simp add: HandleTravel_def exPlanets undampedState_def exState_def exShip_def
        CalculateCurrentBurn_def Let_def)
  have m: "specTotalMass exUniverse (PlayerShip racerState)
             - specReferenceMass exUniverse (PlayerShip racerState) = 100"
    by (simp add: specTotalMass_def specReferenceMass_def racerState_def exState_def exShip_def
        exUniverse_def exBalance_def signed_divide_int_def)
  have f: "BurnDamping (PlayerShip racerState) = 1000"
    "BaseBurnRate (PlayerShip racerState) = 2000000000000000000"
    "Fuel (PlayerShip racerState) = 600" "LocationKey (PlayerShip racerState) = ''planet_prime''"
    "ActiveContracts (PlayerShip racerState) = []" "Credits (PlayerShip racerState) = 1000"
    by (simp_all add: racerState_def exState_def exShip_def)
  have b: "CalculateCurrentBurn exUniverse (PlayerShip racerState) = Inr 2000000000000000000"
    using CalculateCurrentBurn_damped [of "PlayerShip racerState" exUniverse]
    by (simp add: m f int64_small signed_divide_int_def)
  have n: "int64 10000000000000000000 = - 8446744073709551616"
    by (simp add: int64_def)
  have k: "pKey exOuter = ''planet_outer''"
    by (simp add: exOuter_def)
  have r: "fst (HandleTravel exUniverse (Some ''planet_outer'') racerState)
       = Encode (exShip\<lparr>BaseBurnRate := 2000000000000000000, Fuel := 8446744073709552216,
                         LocationKey := ''planet_outer''\<rparr>)"
    by (simp add: HandleTravel_def exPlanets f d b n Let_def int64_small k)
      (simp add: racerState_def exState_def exShip_def)
  from d u b f(3) r show ?thesis
    by (simp add: HandleTravel_def exPlanets strandedState_def)
qed

text \<open>
  C2 (amended). For every travel request to a known destination, made while the ship's
  own location is in the catalog and its burn damping is not zero, the fuel needed is
  distance times current burn rate reduced to \<open>int64\<close>. If the fuel is below it,
  travel answers with the insufficient-fuel rejection and leaves the whole state
  unchanged; otherwise it debits it from the fuel (reduced to \<open>int64\<close>), sets the
  location to the destination, credits the payouts of the active contracts whose
  destination is the new location (reduced to \<open>int64\<close>), removes exactly those from
  the active contracts (the others stay, in order), and applies \<open>RecordDelivery\<close> to
  the market once for each of them; nothing else changes. Whenever distance times
  burn rate, the fuel, and the credits plus the payouts are within the range of
  \<open>int64\<close>, nothing is reduced: the comparison is with exactly distance times burn
  rate, exactly that is debited, and exactly the payouts are credited.
\<close>

theorem HandleTravel_correct:
  assumes dest: "GetPlanet u destinationKey = Some dest"
    and cur: "GetPlanet u (LocationKey (PlayerShip s)) = Some current"
    and damp: "BurnDamping (PlayerShip s) \<noteq> 0"
  shows "\<exists>currentBurn fuelNeeded exactNeeded.
       CalculateCurrentBurn u (PlayerShip s) = Inr currentBurn
     \<and> exactNeeded = CalculateDistance (Coordinates current) (Coordinates dest) * currentBurn
     \<and> fuelNeeded = int64 exactNeeded
     \<and> (Fuel (PlayerShip s) < fuelNeeded \<longrightarrow>
           HandleTravel u (Some destinationKey) s =
             (Error ''Insufficient Fuel for current mass'' StatusPaymentRequired, s))
     \<and> (fuelNeeded \<le> Fuel (PlayerShip s) \<longrightarrow>
           HandleTravel u (Some destinationKey) s =
             arrive destinationKey (int64 (Fuel (PlayerShip s) - fuelNeeded))
               (int64 (Credits (PlayerShip s) + payouts destinationKey s)) s)
     \<and> (isInt64 exactNeeded \<and> isInt64 (Fuel (PlayerShip s))
          \<and> isInt64 (Credits (PlayerShip s) + payouts destinationKey s) \<longrightarrow>
           (Fuel (PlayerShip s) < exactNeeded \<longrightarrow>
              HandleTravel u (Some destinationKey) s =
                (Error ''Insufficient Fuel for current mass'' StatusPaymentRequired, s))
         \<and> (exactNeeded \<le> Fuel (PlayerShip s) \<longrightarrow>
              HandleTravel u (Some destinationKey) s =
                arrive destinationKey (Fuel (PlayerShip s) - exactNeeded)
                  (Credits (PlayerShip s) + payouts destinationKey s) s))"
proof -
  define dist where "dist = CalculateDistance (Coordinates current) (Coordinates dest)"
  have k: "pKey dest = destinationKey"
    using GetPlanet_Some [OF dest] by simp
  obtain currentBurn where burn: "CalculateCurrentBurn u (PlayerShip s) = Inr currentBurn"
    using CalculateCurrentBurn_damped [OF damp] by blast
  have floor: "100 \<le> currentBurn"
    using burn by (rule CalculateCurrentBurn_floor)
  have low: "Fuel (PlayerShip s) < int64 (dist * currentBurn) \<Longrightarrow>
      HandleTravel u (Some destinationKey) s =
        (Error ''Insufficient Fuel for current mass'' StatusPaymentRequired, s)"
    by (simp add: HandleTravel_def dest cur burn Let_def dist_def)
  have "int64 (Credits (PlayerShip s)
          + foldl (\<lambda>payoutTotal c. int64 (payoutTotal + Payout c)) 0
              (filter (\<lambda>c. DestinationKey c = destinationKey) (ActiveContracts (PlayerShip s))))
        = int64 (Credits (PlayerShip s) + payouts destinationKey s)"
    using payoutTotal_foldl [of "Credits (PlayerShip s)" 0] by (simp add: payouts_def)
  then have high: "int64 (dist * currentBurn) \<le> Fuel (PlayerShip s) \<Longrightarrow>
      HandleTravel u (Some destinationKey) s =
        arrive destinationKey (int64 (Fuel (PlayerShip s) - int64 (dist * currentBurn)))
          (int64 (Credits (PlayerShip s) + payouts destinationKey s)) s"
    by (simp add: HandleTravel_def dest cur burn Let_def deliverStep_foldl k arrive_def dist_def)
  have exact: "int64 (Fuel (PlayerShip s) - int64 (dist * currentBurn))
                 = Fuel (PlayerShip s) - dist * currentBurn"
    if "isInt64 (dist * currentBurn)" "isInt64 (Fuel (PlayerShip s))"
      "dist * currentBurn \<le> Fuel (PlayerShip s)"
  proof -
    have "dist \<noteq> - (2 ^ 63)"
    proof
      assume "dist = - (2 ^ 63)"
      then have "dist * currentBurn \<le> - (2 ^ 63) * 100"
        using floor by simp
      with that(1) show False
        by (simp add: isInt64_def)
    qed
    then have "0 \<le> dist"
      using CalculateDistance_sign [of "Coordinates current" "Coordinates dest"]
      by (simp add: dist_def)
    then have "0 \<le> dist * currentBurn"
      using floor by simp
    with that have "isInt64 (Fuel (PlayerShip s) - dist * currentBurn)"
      by (simp add: isInt64_def)
    then show ?thesis
      using that(1) by (simp add: int64_id)
  qed
  show ?thesis
  proof (intro exI conjI impI)
    show "CalculateCurrentBurn u (PlayerShip s) = Inr currentBurn"
      by (rule burn)
    show "dist * currentBurn
            = CalculateDistance (Coordinates current) (Coordinates dest) * currentBurn"
      by (simp add: dist_def)
    show "int64 (dist * currentBurn) = int64 (dist * currentBurn)"
      by simp
  next
    assume "Fuel (PlayerShip s) < int64 (dist * currentBurn)"
    then show "HandleTravel u (Some destinationKey) s =
        (Error ''Insufficient Fuel for current mass'' StatusPaymentRequired, s)"
      by (rule low)
  next
    assume "int64 (dist * currentBurn) \<le> Fuel (PlayerShip s)"
    then show "HandleTravel u (Some destinationKey) s =
        arrive destinationKey (int64 (Fuel (PlayerShip s) - int64 (dist * currentBurn)))
          (int64 (Credits (PlayerShip s) + payouts destinationKey s)) s"
      by (rule high)
  next
    assume a: "isInt64 (dist * currentBurn) \<and> isInt64 (Fuel (PlayerShip s))
          \<and> isInt64 (Credits (PlayerShip s) + payouts destinationKey s)"
      and "Fuel (PlayerShip s) < dist * currentBurn"
    then show "HandleTravel u (Some destinationKey) s =
        (Error ''Insufficient Fuel for current mass'' StatusPaymentRequired, s)"
      using low by (simp add: int64_id)
  next
    assume a: "isInt64 (dist * currentBurn) \<and> isInt64 (Fuel (PlayerShip s))
          \<and> isInt64 (Credits (PlayerShip s) + payouts destinationKey s)"
      and b: "dist * currentBurn \<le> Fuel (PlayerShip s)"
    then have "HandleTravel u (Some destinationKey) s =
        arrive destinationKey (int64 (Fuel (PlayerShip s) - int64 (dist * currentBurn)))
          (int64 (Credits (PlayerShip s) + payouts destinationKey s)) s"
      using high by (simp add: int64_id)
    then show "HandleTravel u (Some destinationKey) s =
        arrive destinationKey (Fuel (PlayerShip s) - dist * currentBurn)
          (Credits (PlayerShip s) + payouts destinationKey s) s"
      using a b exact by (simp add: int64_id)
  qed
qed

theorem HandleTravel_correct_witness:
  "GetPlanet exUniverse ''planet_outer'' = Some exOuter
   \<and> GetPlanet exUniverse (LocationKey (PlayerShip exState)) = Some exPrime
   \<and> BurnDamping (PlayerShip exState) \<noteq> 0
   \<and> CalculateCurrentBurn exUniverse (PlayerShip exState) = Inr 100
   \<and> CalculateDistance (Coordinates exPrime) (Coordinates exOuter) = 5
   \<and> isInt64 (5 * 100) \<and> isInt64 (Fuel (PlayerShip exState))
   \<and> isInt64 (Credits (PlayerShip exState) + payouts ''planet_outer'' exState)
   \<and> 5 * 100 \<le> Fuel (PlayerShip exState)
   \<and> HandleTravel exUniverse (Some ''planet_outer'') exState =
       (Encode (exShip\<lparr>Fuel := 100, LocationKey := ''planet_outer''\<rparr>),
        exState\<lparr>PlayerShip := exShip\<lparr>Fuel := 100, LocationKey := ''planet_outer''\<rparr>\<rparr>)"
proof -
  have f: "PlayerShip exState = exShip" "LocationKey exShip = ''planet_prime''"
    "Fuel exShip = 600" "ActiveContracts exShip = []" "BurnDamping exShip \<noteq> 0"
    "Credits exShip = 1000"
    by (simp_all add: exState_def exShip_def)
  have d: "CalculateDistance (Coordinates exPrime) (Coordinates exOuter) = 5"
    by (simp add: exPrime_def exOuter_def exDistance)
  have p: "GetPlanet exUniverse (LocationKey (PlayerShip exState)) = Some exPrime"
    by (simp add: f exPlanets)
  have n: "BurnDamping (PlayerShip exState) \<noteq> 0"
    by (simp add: f)
  have y: "payouts ''planet_outer'' exState = 0"
    by (simp add: payouts_def f)
  have r: "arrive ''planet_outer'' 100 1000 exState
           = (Encode (exShip\<lparr>Fuel := 100, LocationKey := ''planet_outer''\<rparr>),
              exState\<lparr>PlayerShip := exShip\<lparr>Fuel := 100, LocationKey := ''planet_outer''\<rparr>\<rparr>)"
    by (simp add: arrive_def f Let_def)
  show ?thesis
    using HandleTravel_correct [OF exPlanets(1) p n]
    by (simp add: f d exBurn exPlanets y r isInt64_def int64_small)
qed

section \<open>Properties of the hub\<close>

lemma offer_open:
  assumes "send h c = Some ch" "\<not> closed ch"
  shows "offer msg h c =
     Inr (h\<lparr>send := (send h)(c \<mapsto> afterOffer msg ch),
            clients := (if length (queue ch) < capacity ch then clients h else clients h - {c})\<rparr>)"
  using assms by (simp add: offer_def afterOffer_def)

lemma broadcast_effect:
  assumes "distinct order" "\<forall>c\<in>set order. \<exists>ch. send h c = Some ch \<and> \<not> closed ch"
  shows "\<exists>h'. broadcast order msg h = Inr h'
     \<and> clients h' = clients h - {c \<in> set order. \<exists>ch. send h c = Some ch \<and> \<not> length (queue ch) < capacity ch}
     \<and> (\<forall>c. send h' c = (if c \<in> set order then map_option (afterOffer msg) (send h c) else send h c))"
  using assms
proof (induction order arbitrary: h)
  case Nil
  then show ?case by simp
next
  case (Cons c order)
  from Cons.prems obtain ch where ch: "send h c = Some ch" "\<not> closed ch"
    by auto
  define h1 where "h1 = h\<lparr>send := (send h)(c \<mapsto> afterOffer msg ch),
            clients := (if length (queue ch) < capacity ch then clients h else clients h - {c})\<rparr>"
  have o: "offer msg h c = Inr h1"
    unfolding h1_def by (rule offer_open [OF ch])
  have notin: "c \<notin> set order" and d: "distinct order"
    using Cons.prems(1) by simp_all
  have same: "send h1 c' = send h c'" if "c' \<in> set order" for c'
    using that notin by (auto simp: h1_def)
  have pre: "\<forall>c'\<in>set order. \<exists>ch. send h1 c' = Some ch \<and> \<not> closed ch"
    using Cons.prems(2) same by simp
  from Cons.IH [OF d pre] obtain h' where h':
    "broadcast order msg h1 = Inr h'"
    "clients h' = clients h1 - {c \<in> set order. \<exists>ch. send h1 c = Some ch \<and> \<not> length (queue ch) < capacity ch}"
    "\<forall>c. send h' c = (if c \<in> set order then map_option (afterOffer msg) (send h1 c) else send h1 c)"
    by blast
  have b: "broadcast (c # order) msg h = Inr h'"
    by (simp add: o h'(1))
  have c1: "clients h' = clients h - {c' \<in> set (c # order). \<exists>ch. send h c' = Some ch \<and> \<not> length (queue ch) < capacity ch}"
    using h'(2) same ch notin by (auto simp: h1_def)
  have c2: "\<forall>c'. send h' c' = (if c' \<in> set (c # order) then map_option (afterOffer msg) (send h c') else send h c')"
    using h'(3) same ch notin by (auto simp: h1_def)
  from b c1 c2 show ?case by blast
qed

lemma hubWellFormed_reachable: "hubReachable h \<Longrightarrow> hubWellFormed h"
proof (induction rule: hubReachable.induct)
  case start
  then show ?case by (simp add: hubWellFormed_def NewHub_def)
next
  case (connect h client)
  then show ?case by (auto simp: hubWellFormed_def ServeWs_def hubRegister_def)
next
  case (disconnect h client h')
  then show ?case by (auto simp: hubWellFormed_def hubUnregister_def split: if_splits option.splits)
next
  case (publish h order msg h')
  have pre: "\<forall>c\<in>set order. \<exists>ch. send h c = Some ch \<and> \<not> closed ch"
    using publish.IH publish.hyps(3) by (auto simp: hubWellFormed_def split: option.splits)
  from broadcast_effect [OF publish.hyps(2) pre, of msg] publish.hyps(4)
  have c: "clients h' = clients h - {c \<in> set order. \<exists>ch. send h c = Some ch \<and> \<not> length (queue ch) < capacity ch}"
    and s: "\<forall>c. send h' c = (if c \<in> set order then map_option (afterOffer msg) (send h c) else send h c)"
    by auto
  show ?case
    unfolding hubWellFormed_def
  proof
    fix client assume m: "client \<in> clients h'"
    with c have m0: "client \<in> clients h" by auto
    with publish.IH obtain ch where ch: "send h client = Some ch" "\<not> closed ch" "capacity ch = 256"
      by (auto simp: hubWellFormed_def split: option.splits)
    from m c ch m0 publish.hyps(3) have room: "length (queue ch) < capacity ch" by auto
    show "case send h' client of None \<Rightarrow> False | Some ch \<Rightarrow> \<not> closed ch \<and> capacity ch = 256"
      using s ch room m0 publish.hyps(3) by (simp add: afterOffer_def)
  qed
next
  case (written h client)
  then show ?case by (auto simp: hubWellFormed_def receive_def split: option.splits)
qed

lemma hubInv_reachable: "hubReachable h \<Longrightarrow> hubInv h"
  using hubWellFormed_reachable [of h] by (auto simp: hubInv_def hubWellFormed_def split: option.splits)

lemma exHub_inv: "hubInv exHub"
  by (simp add: hubInv_def exHub_def)

text \<open>
  C7. When the hub processes one broadcast event in a state where every registered
  observer has an open queue (as in every state the hub reaches), whatever the order
  in which the observers are visited, the step completes and: every registered
  observer whose queue has room has the message appended to its queue and is still
  registered; every registered observer whose queue is full has an unchanged queue
  content, a closed queue, and is no longer registered; nothing else changes. The
  queues are those the hub finds at its offers: the write pumps take nothing out
  while the step runs.
\<close>

theorem broadcast_delivers_or_drops:
  assumes inv: "hubInv h" and d: "distinct order" and o: "set order = clients h"
  shows "\<exists>h'. broadcast order msg h = Inr h'
      \<and> (\<forall>c\<in>clients h. \<exists>ch. send h c = Some ch
            \<and> (length (queue ch) < capacity ch \<longrightarrow>
                 send h' c = Some (ch\<lparr>queue := queue ch @ [msg]\<rparr>) \<and> c \<in> clients h')
            \<and> (\<not> length (queue ch) < capacity ch \<longrightarrow>
                 send h' c = Some (ch\<lparr>closed := True\<rparr>) \<and> c \<notin> clients h'))
      \<and> (\<forall>c. c \<notin> clients h \<longrightarrow> send h' c = send h c \<and> c \<notin> clients h')"
proof -
  have pre: "\<forall>c\<in>set order. \<exists>ch. send h c = Some ch \<and> \<not> closed ch"
    using inv o by (auto simp: hubInv_def split: option.splits)
  from broadcast_effect [OF d pre, of msg] obtain h' where h':
    "broadcast order msg h = Inr h'"
    "clients h' = clients h - {c \<in> set order. \<exists>ch. send h c = Some ch \<and> \<not> length (queue ch) < capacity ch}"
    "\<forall>c. send h' c = (if c \<in> set order then map_option (afterOffer msg) (send h c) else send h c)"
    by blast
  have "\<exists>ch. send h c = Some ch
            \<and> (length (queue ch) < capacity ch \<longrightarrow>
                 send h' c = Some (ch\<lparr>queue := queue ch @ [msg]\<rparr>) \<and> c \<in> clients h')
            \<and> (\<not> length (queue ch) < capacity ch \<longrightarrow>
                 send h' c = Some (ch\<lparr>closed := True\<rparr>) \<and> c \<notin> clients h')" if "c \<in> clients h" for c
  proof -
    from pre that o obtain ch where ch: "send h c = Some ch" by auto
    show ?thesis using ch that o h'(2) h'(3) by (auto simp: afterOffer_def)
  qed
  moreover have "send h' c = send h c \<and> c \<notin> clients h'" if "c \<notin> clients h" for c
    using that o h'(2) h'(3) by auto
  ultimately show ?thesis using h'(1) by blast
qed


theorem broadcast_delivers_or_drops_witness:
  "hubInv exHub \<and> distinct [1, 2, 3, 4 :: nat] \<and> set [1, 2, 3, 4] = clients exHub
   \<and> broadcast [1, 2, 3, 4] ''pulse'' exHub =
       Inr \<lparr>clients = {1, 2, 3},
            send = [1 \<mapsto> \<lparr>queue = [''pulse''], capacity = 256, closed = False\<rparr>,
                    2 \<mapsto> \<lparr>queue = [''earlier'', ''pulse''], capacity = 256, closed = False\<rparr>,
                    3 \<mapsto> \<lparr>queue = [''pulse''], capacity = 256, closed = False\<rparr>,
                    4 \<mapsto> \<lparr>queue = replicate 256 ''earlier'', capacity = 256, closed = True\<rparr>]\<rparr>"
proof -
  have i: "hubInv exHub"
    by (rule exHub_inv)
  have d: "distinct [1, 2, 3, 4 :: nat]"
    by simp
  have o: "set [1, 2, 3, 4] = clients exHub"
    by (simp add: exHub_def)
  from broadcast_delivers_or_drops [OF i d o, of "''pulse''"] i d o show ?thesis
    by (simp add: exHub_def offer_def fun_upd_twist insert_Diff_if)
qed

section \<open>Properties of job generation and replenishment\<close>

lemma andThen_Done_iff: "andThen r f = Done y \<longleftrightarrow> (\<exists>x. r = Done x \<and> f x = Done y)"
  by (cases r) (simp_all add: andThen_def)

lemma Intn_Done: "Intn n t = Done (r, t') \<Longrightarrow> 0 \<le> r \<and> r < n"
  by (auto simp: Intn_def split: if_splits list.splits)

lemma Float64_Done: "Float64 t = Done (r, t') \<Longrightarrow> 0 \<le> r \<and> r < 1"
  by (auto simp: Float64_def split: list.splits)

lemma posts_refl: "posts key ty [] s s"
  by (simp add: posts_def)

lemma posts_trans:
  "posts key ty new1 s s1 \<Longrightarrow> posts key ty new2 s1 s2 \<Longrightarrow> posts key ty (new1 @ new2) s s2"
  by (auto simp: posts_def)

lemma posts_grows: "posts key ty new s s' \<Longrightarrow> grows s s'"
  by (auto simp: posts_def grows_def)

lemma grows_refl: "grows s s"
  by (simp add: grows_def)

lemma grows_trans: "grows s s1 \<Longrightarrow> grows s1 s2 \<Longrightarrow> grows s s2"
  unfolding grows_def
proof (intro conjI allI)
  fix k
  assume a: "PlayerShip s1 = PlayerShip s \<and> Market s1 = Market s \<and>
    (\<forall>k. \<exists>new. AvailableContracts s1 k = AvailableContracts s k @ new \<and> (\<forall>c\<in>set new. generated c))"
    and b: "PlayerShip s2 = PlayerShip s1 \<and> Market s2 = Market s1 \<and>
    (\<forall>k. \<exists>new. AvailableContracts s2 k = AvailableContracts s1 k @ new \<and> (\<forall>c\<in>set new. generated c))"
  from a obtain n1 where n1: "AvailableContracts s1 k = AvailableContracts s k @ n1" "\<forall>c\<in>set n1. generated c"
    by blast
  from b obtain n2 where n2: "AvailableContracts s2 k = AvailableContracts s1 k @ n2" "\<forall>c\<in>set n2. generated c"
    by blast
  have "AvailableContracts s2 k = AvailableContracts s k @ (n1 @ n2) \<and> (\<forall>c\<in>set (n1 @ n2). generated c)"
    using n1 n2 by auto
  then show "\<exists>new. AvailableContracts s2 k = AvailableContracts s k @ new \<and> (\<forall>c\<in>set new. generated c)"
    by blast
qed auto

lemma scarcitySkip_noSkip:
  "scarcitySkip h t = Done (skip, t') \<Longrightarrow> h \<le> 1.5 \<Longrightarrow> \<not> skip"
proof -
  assume a: "scarcitySkip h t = Done (skip, t')" and h: "h \<le> 1.5"
  show "\<not> skip"
  proof (cases "h > 1.0")
    case True
    with a obtain r where r: "Float64 t = Done (r, t')" "skip = (float64 (r * h) > 1.5)"
      by (auto simp: scarcitySkip_def andThen_Done_iff)
    from Float64_Done [OF r(1)] have "0 \<le> r" "r < 1" by simp_all
    with True h have "r * h \<le> 1 * 1.5"
      by (intro mult_mono) auto
    moreover have "0 \<le> r * h"
      using \<open>0 \<le> r\<close> True by simp
    ultimately have "float64 (r * h) \<le> float64 (3 / 2)"
      by (intro float64_mono) simp_all
    with r(2) show ?thesis by (simp add: float64_three_halves)
  next
    case False
    with a show ?thesis by (simp add: scarcitySkip_def)
  qed
qed

lemma Intn_quantity: "Intn 21 t = Done (r, t') \<Longrightarrow> int64 (r + 5) = r + 5 \<and> 0 \<le> r \<and> r < 21"
  by (auto simp: Intn_def int64_small split: list.splits)

lemma generateCargoJob_cases:
  assumes "generateCargoJob u origin s t = Done (s', t')"
  shows "(s' = s \<and> \<not> noSkip (pKey origin) s)
       \<or> (\<exists>job. s' = s\<lparr>AvailableContracts :=
                    (AvailableContracts s)(pKey origin := AvailableContracts s (pKey origin) @ [job])\<rparr>
              \<and> Type job = ''cargo'' \<and> 5 \<le> Quantity job \<and> Quantity job \<le> 25)"
proof -
  show ?thesis
  proof (cases "noSkip (pKey origin) s")
    case True
    then have "\<not> skip" if "scarcitySkip (heatAt (SourceHeat (Market s)) (pKey origin) ck) t1 = Done (skip, t2)"
      for ck skip t1 t2
      using scarcitySkip_noSkip [OF that] by (simp add: noSkip_def)
    with assms show ?thesis
      by (auto simp: generateCargoJob_def andThen_Done_iff Let_def split: if_splits dest!: Intn_quantity)
  next
    case False
    with assms show ?thesis
      by (auto simp: generateCargoJob_def andThen_Done_iff Let_def split: if_splits dest!: Intn_quantity)
  qed
qed

lemma generateCargoJob_posts:
  assumes "generateCargoJob u origin s t = Done (s', t')"
  shows "\<exists>new. posts (pKey origin) ''cargo'' new s s' \<and> length new \<le> 1
           \<and> (noSkip (pKey origin) s \<longrightarrow> length new = 1)"
  using generateCargoJob_cases [OF assms]
proof
  assume "s' = s \<and> \<not> noSkip (pKey origin) s"
  then show ?thesis
    using posts_refl [of "pKey origin" "''cargo''" s] by auto
next
  assume "\<exists>job. s' = s\<lparr>AvailableContracts :=
                    (AvailableContracts s)(pKey origin := AvailableContracts s (pKey origin) @ [job])\<rparr>
              \<and> Type job = ''cargo'' \<and> 5 \<le> Quantity job \<and> Quantity job \<le> 25"
  then obtain job where "s' = s\<lparr>AvailableContracts :=
                    (AvailableContracts s)(pKey origin := AvailableContracts s (pKey origin) @ [job])\<rparr>"
    "Type job = ''cargo''" "5 \<le> Quantity job" "Quantity job \<le> 25"
    by blast
  then have "posts (pKey origin) ''cargo'' [job] s s'"
    by (simp add: posts_def generated_def)
  then show ?thesis
    by (intro exI [of _ "[job]"]) simp
qed

lemma generateCargoJobs_posts:
  "generateCargoJobs u origin n s t = Done (s', t') \<Longrightarrow>
   \<exists>new. posts (pKey origin) ''cargo'' new s s' \<and> length new \<le> n
         \<and> (noSkip (pKey origin) s \<longrightarrow> length new = n)"
proof (induction n arbitrary: s t)
  case 0
  then show ?case using posts_refl [of "pKey origin" "''cargo''" s] by auto
next
  case (Suc n)
  from Suc.prems obtain s1 t1 where
    j: "generateCargoJob u origin s t = Done (s1, t1)"
    and js: "generateCargoJobs u origin n s1 t1 = Done (s', t')"
    by (auto simp: andThen_Done_iff)
  from generateCargoJob_posts [OF j] obtain new1 where
    n1: "posts (pKey origin) ''cargo'' new1 s s1" "length new1 \<le> 1"
      "noSkip (pKey origin) s \<longrightarrow> length new1 = 1"
    by blast
  from Suc.IH [OF js] obtain new2 where
    n2: "posts (pKey origin) ''cargo'' new2 s1 s'" "length new2 \<le> n"
      "noSkip (pKey origin) s1 \<longrightarrow> length new2 = n"
    by blast
  have m: "noSkip (pKey origin) s1 = noSkip (pKey origin) s"
    using n1(1) by (simp add: posts_def noSkip_def)
  have "posts (pKey origin) ''cargo'' (new1 @ new2) s s'"
    using n1(1) n2(1) by (rule posts_trans)
  moreover have "length (new1 @ new2) \<le> Suc n"
    using n1(2) n2(2) by simp
  moreover have "noSkip (pKey origin) s \<longrightarrow> length (new1 @ new2) = Suc n"
    using n1(3) n2(3) m by simp
  ultimately show ?case by blast
qed

lemma generatePassengerJob_posts:
  assumes "generatePassengerJob u origin s t = Done (s', t')"
  shows "\<exists>job. posts (pKey origin) ''passenger'' [job] s s'"
  using assms
  by (auto simp: generatePassengerJob_def andThen_Done_iff Let_def posts_def generated_def)

lemma generatePassengerJobs_posts:
  "generatePassengerJobs u origin n s t = Done (s', t') \<Longrightarrow>
   \<exists>new. posts (pKey origin) ''passenger'' new s s' \<and> length new = n"
proof (induction n arbitrary: s t)
  case 0
  then show ?case using posts_refl [of "pKey origin" "''passenger''" s] by auto
next
  case (Suc n)
  from Suc.prems obtain s1 t1 where
    j: "generatePassengerJob u origin s t = Done (s1, t1)"
    and js: "generatePassengerJobs u origin n s1 t1 = Done (s', t')"
    by (auto simp: andThen_Done_iff)
  from generatePassengerJob_posts [OF j] obtain job where
    n1: "posts (pKey origin) ''passenger'' [job] s s1"
    by blast
  from Suc.IH [OF js] obtain new2 where
    n2: "posts (pKey origin) ''passenger'' new2 s1 s'" "length new2 = n"
    by blast
  have "posts (pKey origin) ''passenger'' ([job] @ new2) s s'"
    using n1 n2(1) by (rule posts_trans)
  then show ?case using n2(2) by (intro exI [of _ "[job] @ new2"]) simp
qed

lemma posts_count_same:
  "posts key ty new s s' \<Longrightarrow>
   countType ty (AvailableContracts s' key) = countType ty (AvailableContracts s key) + int (length new)"
  by (auto simp: posts_def countType_def)

lemma posts_count_other:
  "posts key ty new s s' \<Longrightarrow> ty' \<noteq> ty \<Longrightarrow>
   countType ty' (AvailableContracts s' key) = countType ty' (AvailableContracts s key)"
  by (auto simp: posts_def countType_def)

lemma posts_other_board:
  "posts key ty new s s' \<Longrightarrow> k \<noteq> key \<Longrightarrow> AvailableContracts s' k = AvailableContracts s k"
  by (auto simp: posts_def)

lemma posts_fixed:
  "posts key ty new s s' \<Longrightarrow> Market s' = Market s \<and> PlayerShip s' = PlayerShip s"
  by (auto simp: posts_def)

lemma int64_wrapped: "2 ^ 63 \<le> d \<Longrightarrow> d \<le> 2 ^ 64 \<Longrightarrow> int64 d = d - 2 ^ 64"
proof -
  assume d: "2 ^ 63 \<le> d" "d \<le> 2 ^ 64"
  have "int64 d = int64 (d - 2 ^ 64)"
    by (rule int64_cong) simp
  also have "\<dots> = d - 2 ^ 64"
    using d by (intro int64_small) simp_all
  finally show ?thesis .
qed

lemma countType_nonneg: "0 \<le> countType ty cs"
  by (simp add: countType_def)

lemma target_exact:
  assumes range: "targetRange minimum maximum"
    and draw: "Intn (int64 (int64 (maximum - minimum) + 1)) t = Done (r, t1)"
    and count: "0 \<le> count" "count < minimum"
  shows "int64 (int64 (r + minimum) - count) = r + minimum - count"
    "minimum \<le> r + minimum" "r + minimum \<le> maximum"
proof -
  define d where "d = maximum - minimum + 1"
  from range have d: "1 \<le> d" "d \<le> 2 ^ 64" and mx: "maximum < 2 ^ 63" and mn: "- (2 ^ 63) \<le> minimum"
    by (simp_all add: targetRange_def d_def)
  have w: "int64 (int64 (maximum - minimum) + 1) = int64 d"
    by (simp add: int64_add_left d_def)
  from Intn_Done [OF draw] have r: "0 \<le> r" "r < int64 d"
    by (simp_all add: w)
  have "d < 2 ^ 63"
  proof (rule ccontr)
    assume "\<not> d < 2 ^ 63"
    then have "int64 d = d - 2 ^ 64"
      using d by (intro int64_wrapped) simp_all
    with r d show False by simp
  qed
  then have "int64 d = d"
    using d by (intro int64_small) simp_all
  with r show le: "r + minimum \<le> maximum" and ge: "minimum \<le> r + minimum"
    by (simp_all add: d_def)
  have "int64 (r + minimum) = r + minimum"
    using le ge mx mn by (intro int64_small) simp_all
  moreover have "int64 (r + minimum - count) = r + minimum - count"
    using le ge mx mn count by (intro int64_small) simp_all
  ultimately show "int64 (int64 (r + minimum) - count) = r + minimum - count"
    by simp
qed

lemma replenishCargo_posts:
  assumes "replenishCargo u origin (upd, s, t) = Done (upd', s', t')"
    and "cargoTargets origin = (minCargo, maxCargo)"
  shows "\<exists>new. posts (pKey origin) ''cargo'' new s s'
     \<and> (minCargo \<le> countType ''cargo'' (AvailableContracts s (pKey origin)) \<longrightarrow> new = [])
     \<and> (countType ''cargo'' (AvailableContracts s (pKey origin)) < minCargo
          \<and> targetRange minCargo maxCargo \<longrightarrow>
          countType ''cargo'' (AvailableContracts s (pKey origin)) + int (length new) \<le> maxCargo
          \<and> (noSkip (pKey origin) s \<longrightarrow>
                minCargo \<le> countType ''cargo'' (AvailableContracts s (pKey origin)) + int (length new)))"
proof (cases "countType ''cargo'' (AvailableContracts s (pKey origin)) < minCargo")
  case False
  with assms have "s' = s"
    by (simp add: replenishCargo_def Let_def)
  with False show ?thesis
    using posts_refl [of "pKey origin" "''cargo''" s] by auto
next
  case True
  define before where "before = countType ''cargo'' (AvailableContracts s (pKey origin))"
  define needed where "needed = (\<lambda>r. int64 (int64 (r + minCargo) - before))"
  from assms True obtain r t1 where
    r: "Intn (int64 (int64 (maxCargo - minCargo) + 1)) t = Done (r, t1)"
    and g: "(0 < needed r \<and> generateCargoJobs u origin (nat (needed r)) s t1 = Done (s', t'))
            \<or> (\<not> 0 < needed r \<and> s' = s)"
    by (auto simp: replenishCargo_def Let_def andThen_Done_iff before_def needed_def split: if_splits)
  have lt: "before < minCargo" and nn: "0 \<le> before"
    using True by (simp_all add: before_def countType_nonneg)
  from g obtain new where
    n: "posts (pKey origin) ''cargo'' new s s'" "int (length new) \<le> max 0 (needed r)"
      "noSkip (pKey origin) s \<longrightarrow> int (length new) = max 0 (needed r)"
  proof
    assume "0 < needed r \<and> generateCargoJobs u origin (nat (needed r)) s t1 = Done (s', t')"
    then have p: "0 < needed r" and j: "generateCargoJobs u origin (nat (needed r)) s t1 = Done (s', t')"
      by simp_all
    from generateCargoJobs_posts [OF j] obtain new where
      "posts (pKey origin) ''cargo'' new s s'" "length new \<le> nat (needed r)"
      "noSkip (pKey origin) s \<longrightarrow> length new = nat (needed r)"
      by blast
    with p that [of new] show thesis
      by (simp add: max_def)
  next
    assume "\<not> 0 < needed r \<and> s' = s"
    with that [of "[]"] show thesis
      using posts_refl [of "pKey origin" "''cargo''" s] by (simp add: max_def)
  qed
  have "before + int (length new) \<le> maxCargo
        \<and> (noSkip (pKey origin) s \<longrightarrow> minCargo \<le> before + int (length new))"
    if "targetRange minCargo maxCargo"
  proof -
    note e = target_exact [OF that r nn lt]
    have "needed r = r + minCargo - before"
      by (simp add: needed_def e(1))
    with n(2,3) e(2,3) lt show ?thesis
      by (auto simp: max_def)
  qed
  then show ?thesis
    using n(1) True unfolding before_def by (intro exI [of _ new]) auto
qed

lemma replenishPassengers_posts:
  assumes "replenishPassengers u origin (upd, s, t) = Done (upd', s', t')"
    and "paxTargets origin = (minPax, maxPax)"
  shows "\<exists>new. posts (pKey origin) ''passenger'' new s s'
     \<and> (minPax \<le> countType ''passenger'' (AvailableContracts s (pKey origin)) \<longrightarrow> new = [])
     \<and> (countType ''passenger'' (AvailableContracts s (pKey origin)) < minPax
          \<and> targetRange minPax maxPax \<longrightarrow>
          minPax \<le> countType ''passenger'' (AvailableContracts s (pKey origin)) + int (length new)
          \<and> countType ''passenger'' (AvailableContracts s (pKey origin)) + int (length new) \<le> maxPax)"
proof (cases "countType ''passenger'' (AvailableContracts s (pKey origin)) < minPax")
  case False
  with assms have "s' = s"
    by (simp add: replenishPassengers_def Let_def)
  with False show ?thesis
    using posts_refl [of "pKey origin" "''passenger''" s] by auto
next
  case True
  define before where "before = countType ''passenger'' (AvailableContracts s (pKey origin))"
  define needed where "needed = (\<lambda>r. int64 (int64 (r + minPax) - before))"
  from assms True obtain r t1 where
    r: "Intn (int64 (int64 (maxPax - minPax) + 1)) t = Done (r, t1)"
    and g: "(0 < needed r \<and> generatePassengerJobs u origin (nat (needed r)) s t1 = Done (s', t'))
            \<or> (\<not> 0 < needed r \<and> s' = s)"
    by (auto simp: replenishPassengers_def Let_def andThen_Done_iff before_def needed_def
        split: if_splits)
  have lt: "before < minPax" and nn: "0 \<le> before"
    using True by (simp_all add: before_def countType_nonneg)
  from g obtain new where
    n: "posts (pKey origin) ''passenger'' new s s'" "int (length new) = max 0 (needed r)"
  proof
    assume "0 < needed r \<and> generatePassengerJobs u origin (nat (needed r)) s t1 = Done (s', t')"
    then have p: "0 < needed r" and j: "generatePassengerJobs u origin (nat (needed r)) s t1 = Done (s', t')"
      by simp_all
    from generatePassengerJobs_posts [OF j] obtain new where
      "posts (pKey origin) ''passenger'' new s s'" "length new = nat (needed r)"
      by blast
    with p that [of new] show thesis
      by (simp add: max_def)
  next
    assume "\<not> 0 < needed r \<and> s' = s"
    with that [of "[]"] show thesis
      using posts_refl [of "pKey origin" "''passenger''" s] by (simp add: max_def)
  qed
  have "before + int (length new) \<le> maxPax \<and> minPax \<le> before + int (length new)"
    if "targetRange minPax maxPax"
  proof -
    note e = target_exact [OF that r nn lt]
    have "needed r = r + minPax - before"
      by (simp add: needed_def e(1))
    with n(2) e(2,3) lt show ?thesis
      by (auto simp: max_def)
  qed
  then show ?thesis
    using n(1) True unfolding before_def by (intro exI [of _ new]) auto
qed

lemma replenishOne:
  assumes c: "replenishCargo u origin (upd, s, t) = Done (upd1, s1, t1)"
    and p: "replenishPassengers u origin (upd1, s1, t1) = Done (upd2, s2, t2)"
  shows "toppedUp origin s s2" "grows s s2"
    "\<forall>k. k \<noteq> pKey origin \<longrightarrow> AvailableContracts s2 k = AvailableContracts s k"
proof -
  obtain minCargo maxCargo where ct: "cargoTargets origin = (minCargo, maxCargo)"
    by (cases "cargoTargets origin")
  obtain minPax maxPax where pt: "paxTargets origin = (minPax, maxPax)"
    by (cases "paxTargets origin")
  from replenishCargo_posts [OF c ct] obtain newc where
    nc: "posts (pKey origin) ''cargo'' newc s s1"
      "minCargo \<le> countType ''cargo'' (AvailableContracts s (pKey origin)) \<longrightarrow> newc = []"
      "countType ''cargo'' (AvailableContracts s (pKey origin)) < minCargo
          \<and> targetRange minCargo maxCargo \<longrightarrow>
          countType ''cargo'' (AvailableContracts s (pKey origin)) + int (length newc) \<le> maxCargo
          \<and> (noSkip (pKey origin) s \<longrightarrow>
                minCargo \<le> countType ''cargo'' (AvailableContracts s (pKey origin)) + int (length newc))"
    by blast
  from replenishPassengers_posts [OF p pt] obtain newp where
    np: "posts (pKey origin) ''passenger'' newp s1 s2"
      "minPax \<le> countType ''passenger'' (AvailableContracts s1 (pKey origin)) \<longrightarrow> newp = []"
      "countType ''passenger'' (AvailableContracts s1 (pKey origin)) < minPax
          \<and> targetRange minPax maxPax \<longrightarrow>
          minPax \<le> countType ''passenger'' (AvailableContracts s1 (pKey origin)) + int (length newp)
          \<and> countType ''passenger'' (AvailableContracts s1 (pKey origin)) + int (length newp) \<le> maxPax"
    by blast
  have c1: "countType ''cargo'' (AvailableContracts s2 (pKey origin))
      = countType ''cargo'' (AvailableContracts s (pKey origin)) + int (length newc)"
    using posts_count_same [OF nc(1)] posts_count_other [OF np(1), of "''cargo''"] by simp
  have p0: "countType ''passenger'' (AvailableContracts s1 (pKey origin))
      = countType ''passenger'' (AvailableContracts s (pKey origin))"
    using posts_count_other [OF nc(1), of "''passenger''"] by simp
  have p1: "countType ''passenger'' (AvailableContracts s2 (pKey origin))
      = countType ''passenger'' (AvailableContracts s (pKey origin)) + int (length newp)"
    using posts_count_same [OF np(1)] p0 by simp
  have m: "noSkip (pKey origin) s2 = noSkip (pKey origin) s"
    using posts_fixed [OF nc(1)] posts_fixed [OF np(1)] by (simp add: noSkip_def)
  show "toppedUp origin s s2"
    using nc(2,3) np(2,3) by (auto simp: toppedUp_def ct pt Let_def c1 p1 p0 m)
  show "grows s s2"
    using posts_grows [OF nc(1)] posts_grows [OF np(1)] by (rule grows_trans)
  show "\<forall>k. k \<noteq> pKey origin \<longrightarrow> AvailableContracts s2 k = AvailableContracts s k"
    using posts_other_board [OF nc(1)] posts_other_board [OF np(1)] by simp
qed

lemma toppedUp_cong:
  "AvailableContracts r (pKey origin) = AvailableContracts s (pKey origin) \<Longrightarrow>
   AvailableContracts r' (pKey origin) = AvailableContracts s' (pKey origin) \<Longrightarrow>
   Market r' = Market s' \<Longrightarrow> toppedUp origin r r' = toppedUp origin s s'"
  by (simp add: toppedUp_def noSkip_def)

lemma replenishPlanets_grows:
  "replenishPlanets u ps (upd, s, t) = Done (upd', s', t') \<Longrightarrow> grows s s'"
proof (induction ps arbitrary: upd s t)
  case Nil
  then show ?case by (simp add: grows_refl)
next
  case (Cons origin ps)
  from Cons.prems obtain upd1 s1 t1 upd2 s2 t2 where
    c: "replenishCargo u origin (upd, s, t) = Done (upd1, s1, t1)"
    and p: "replenishPassengers u origin (upd1, s1, t1) = Done (upd2, s2, t2)"
    and r: "replenishPlanets u ps (upd2, s2, t2) = Done (upd', s', t')"
    by (auto simp: andThen_Done_iff)
  from replenishOne(2) [OF c p] Cons.IH [OF r] show ?case
    by (rule grows_trans)
qed

lemma replenishPlanets_toppedUp:
  "replenishPlanets u ps (upd, s, t) = Done (upd', s', t') \<Longrightarrow> distinct (map pKey ps) \<Longrightarrow>
   (\<forall>k. k \<notin> pKey ` set ps \<longrightarrow> AvailableContracts s' k = AvailableContracts s k)
   \<and> (\<forall>origin \<in> set ps. toppedUp origin s s')"
proof (induction ps arbitrary: upd s t)
  case Nil
  then show ?case by simp
next
  case (Cons origin ps)
  from Cons.prems(1) obtain upd1 s1 t1 upd2 s2 t2 where
    c: "replenishCargo u origin (upd, s, t) = Done (upd1, s1, t1)"
    and p: "replenishPassengers u origin (upd1, s1, t1) = Done (upd2, s2, t2)"
    and r: "replenishPlanets u ps (upd2, s2, t2) = Done (upd', s', t')"
    by (auto simp: andThen_Done_iff)
  from Cons.prems(2) have d: "distinct (map pKey ps)" and notin: "pKey origin \<notin> pKey ` set ps"
    by simp_all
  note one = replenishOne [OF c p]
  from Cons.IH [OF r d] have
    ih1: "\<forall>k. k \<notin> pKey ` set ps \<longrightarrow> AvailableContracts s' k = AvailableContracts s2 k"
    and ih2: "\<forall>origin \<in> set ps. toppedUp origin s2 s'"
    by simp_all
  have g: "Market s' = Market s2"
    using replenishPlanets_grows [OF r] by (simp add: grows_def)
  have "toppedUp origin s s'"
    using toppedUp_cong [of s origin s s' s2] ih1 notin g one(1) by simp
  moreover have "toppedUp q s s'" if "q \<in> set ps" for q
  proof -
    have "pKey q \<in> pKey ` set ps" using that by (rule imageI)
    with notin have "pKey q \<noteq> pKey origin" by metis
    then have "AvailableContracts s2 (pKey q) = AvailableContracts s (pKey q)"
      using one(3) by simp
    then show ?thesis
      using toppedUp_cong [of s2 q s s' s'] ih2 that by simp
  qed
  moreover have "AvailableContracts s' k = AvailableContracts s k" if "k \<notin> pKey ` set (origin # ps)" for k
    using that ih1 one(3) by simp
  ultimately show ?case by simp
qed

lemma ReplenishMarket_grows:
  "ReplenishMarket u s t = Done (upd, s', t') \<Longrightarrow> grows (MarketTick s) s'"
  unfolding ReplenishMarket_def by (rule replenishPlanets_grows)

subsection \<open>The generators return\<close>

lemma returnsI:
  assumes "\<And>t. \<exists>e x r. f (t @ e) = Done (x, r)"
    and "\<And>t e x r. f t = Done (x, r) \<Longrightarrow> f (t @ e) = Done (x, r @ e)"
  shows "returns f"
  using assms unfolding returns_def by blast

lemma returns_finish: "returns f \<Longrightarrow> \<exists>e x r. f (t @ e) = Done (x, r)"
  unfolding returns_def by blast

lemma returns_extend: "returns f \<Longrightarrow> f t = Done (x, r) \<Longrightarrow> f (t @ e) = Done (x, r @ e)"
  unfolding returns_def by blast

lemma returns_Done: "returns (\<lambda>t. Done (x, t))"
  by (simp add: returns_def)

lemma returns_if:
  "(c \<Longrightarrow> returns f) \<Longrightarrow> (\<not> c \<Longrightarrow> returns g) \<Longrightarrow> returns (\<lambda>t. if c then f t else g t)"
  by (cases c) (simp_all add: returns_def)

lemma returns_andThen:
  assumes f: "returns f" and g: "\<And>x. returns (g x)"
  shows "returns (\<lambda>t. andThen (f t) (\<lambda>(x, t'). g x t'))"
proof (rule returnsI)
  fix t
  from returns_finish [OF f] obtain e1 x r where 1: "f (t @ e1) = Done (x, r)"
    by blast
  from returns_finish [OF g] obtain e2 y r' where 2: "g x (r @ e2) = Done (y, r')"
    by blast
  from returns_extend [OF f 1] have "f (t @ (e1 @ e2)) = Done (x, r @ e2)"
    by simp
  then have "andThen (f (t @ (e1 @ e2))) (\<lambda>(x, t'). g x t') = Done (y, r')"
    using 2 by (simp add: andThen_def)
  then show "\<exists>e x r. andThen (f (t @ e)) (\<lambda>(x, t'). g x t') = Done (x, r)"
    by blast
next
  fix t e y r'
  assume "andThen (f t) (\<lambda>(x, t'). g x t') = Done (y, r')"
  then obtain x r where 1: "f t = Done (x, r)" and 2: "g x r = Done (y, r')"
    by (auto simp: andThen_Done_iff)
  from returns_extend [OF f 1] returns_extend [OF g 2]
  show "andThen (f (t @ e)) (\<lambda>(x, t'). g x t') = Done (y, r' @ e)"
    by (simp add: andThen_def)
qed

lemma returns_draw:
  assumes "\<And>v t. f (v # t) = Done (h v, t)" and "f [] = Starved"
  shows "returns f"
proof (rule returnsI)
  fix t :: tape
  show "\<exists>e x r. f (t @ e) = Done (x, r)"
  proof (cases t)
    case Nil
    then have "f (t @ [0]) = Done (h 0, [])"
      by (simp add: assms(1))
    then show ?thesis by blast
  next
    case (Cons v t')
    then have "f (t @ []) = Done (h v, t')"
      by (simp add: assms(1))
    then show ?thesis by blast
  qed
next
  fix t e x r
  assume "f t = Done (x, r)"
  then show "f (t @ e) = Done (x, r @ e)"
    by (cases t) (simp_all add: assms)
qed

lemma returns_Intn: "0 < n \<Longrightarrow> returns (Intn n)"
  by (rule returns_draw [where h = "\<lambda>v. int v mod n"]) (simp_all add: Intn_def)

lemma returns_Float32: "returns Float32"
  by (rule returns_draw [where h = "\<lambda>v. real (v mod 2 ^ 24) / 2 ^ 24"]) (simp_all add: Float32_def)

lemma returns_Float64: "returns Float64"
  by (rule returns_draw [where h = "\<lambda>v. real (v mod 2 ^ 53) / 2 ^ 53"]) (simp_all add: Float64_def)

lemma returns_UnixNano: "returns UnixNano"
  by (rule returns_draw [where h = int]) (simp_all add: UnixNano_def)

lemma returns_randomElem: "xs \<noteq> [] \<Longrightarrow> returns (randomElem xs)"
  unfolding randomElem_def [abs_def]
  by (intro returns_andThen returns_Intn returns_Done) simp

lemma pickDest_extend:
  "pickDest ps k t = Done (x, r) \<Longrightarrow> pickDest ps k (t @ e) = Done (x, r @ e)"
  by (induction t) (auto simp: Let_def split: if_splits)

lemma pickDest_finish:
  assumes "dest \<in> set ps" "pKey dest \<noteq> k"
  shows "\<exists>e x r. pickDest ps k (t @ e) = Done (x, r)"
proof -
  from assms(1) obtain i where i: "i < length ps" "ps ! i = dest"
    by (auto simp: in_set_conv_nth)
  have ne: "ps \<noteq> []"
    using assms(1) by auto
  show ?thesis
  proof (induction t)
    case Nil
    have "pickDest ps k ([] @ [i]) = Done (dest, [])"
      using i ne assms(2) by (simp add: Let_def)
    then show ?case by blast
  next
    case (Cons v t)
    show ?case
    proof (cases "pKey (ps ! (v mod length ps)) = k")
      case True
      with Cons ne show ?thesis by (simp add: Let_def)
    next
      case False
      with ne have "pickDest ps k ((v # t) @ []) = Done (ps ! (v mod length ps), t)"
        by (simp add: Let_def)
      then show ?thesis by blast
    qed
  qed
qed

lemma returns_pickDest: "dest \<in> set ps \<Longrightarrow> pKey dest \<noteq> k \<Longrightarrow> returns (pickDest ps k)"
  by (rule returnsI) (auto intro: pickDest_finish pickDest_extend)

lemma returns_pickCommodity: "Commodities u \<noteq> [] \<Longrightarrow> returns (pickCommodity u origin)"
proof -
  assume c: "Commodities u \<noteq> []"
  have "returns (\<lambda>t2. case GetCommodity u prodKey of
                        Some comm \<Rightarrow> Done (comm, t2)
                      | None \<Rightarrow> randomElem (Commodities u) t2)" for prodKey
    by (cases "GetCommodity u prodKey") (simp_all add: returns_Done returns_randomElem [OF c])
  then show ?thesis
    unfolding pickCommodity_def [abs_def]
    by (intro returns_if returns_andThen returns_Float32 returns_randomElem c) simp
qed

lemma returns_scarcitySkip: "returns (scarcitySkip sourceHeat)"
  unfolding scarcitySkip_def [abs_def]
  by (intro returns_if returns_andThen returns_Float64 returns_Done)

lemma returns_generateCargoJob:
  assumes "Commodities u \<noteq> []" "dest \<in> set (Planets u)" "pKey dest \<noteq> pKey origin"
  shows "returns (generateCargoJob u origin s)"
  unfolding generateCargoJob_def [abs_def] Let_def
  by (intro returns_andThen returns_if returns_pickCommodity returns_scarcitySkip
      returns_pickDest [OF assms(2,3)] returns_Intn returns_UnixNano returns_Done assms(1)) simp_all

lemma returns_generateCargoJobs:
  assumes "Commodities u \<noteq> []" "dest \<in> set (Planets u)" "pKey dest \<noteq> pKey origin"
  shows "returns (generateCargoJobs u origin n s)"
proof (induction n arbitrary: s)
  case 0
  have "generateCargoJobs u origin 0 s = (\<lambda>t. Done (s, t))"
    by (intro ext) simp
  then show ?case by (simp add: returns_Done)
next
  case (Suc n)
  have "generateCargoJobs u origin (Suc n) s =
          (\<lambda>t. andThen (generateCargoJob u origin s t) (\<lambda>(s', t'). generateCargoJobs u origin n s' t'))"
    by (intro ext) simp
  then show ?case
    using returns_andThen [OF returns_generateCargoJob [OF assms, of s], of "generateCargoJobs u origin n"] Suc
    by simp
qed

lemma returns_generatePassengerJob:
  assumes "dest \<in> set (Planets u)" "pKey dest \<noteq> pKey origin"
  shows "returns (generatePassengerJob u origin s)"
  unfolding generatePassengerJob_def [abs_def] Let_def
  by (intro returns_andThen returns_pickDest [OF assms] returns_Intn returns_UnixNano returns_Done) simp

lemma returns_generatePassengerJobs:
  assumes "dest \<in> set (Planets u)" "pKey dest \<noteq> pKey origin"
  shows "returns (generatePassengerJobs u origin n s)"
proof (induction n arbitrary: s)
  case 0
  have "generatePassengerJobs u origin 0 s = (\<lambda>t. Done (s, t))"
    by (intro ext) simp
  then show ?case by (simp add: returns_Done)
next
  case (Suc n)
  have "generatePassengerJobs u origin (Suc n) s =
          (\<lambda>t. andThen (generatePassengerJob u origin s t)
                  (\<lambda>(s', t'). generatePassengerJobs u origin n s' t'))"
    by (intro ext) simp
  then show ?case
    using returns_andThen [OF returns_generatePassengerJob [OF assms, of s],
        of "generatePassengerJobs u origin n"] Suc
    by simp
qed

lemma returns3I:
  assumes "\<And>t. \<exists>e a b r. f (t @ e) = Done (a, b, r)"
    and "\<And>t e a b r. f t = Done (a, b, r) \<Longrightarrow> f (t @ e) = Done (a, b, r @ e)"
  shows "returns3 f"
  using assms unfolding returns3_def by blast

lemma returns3_finish: "returns3 f \<Longrightarrow> \<exists>e a b r. f (t @ e) = Done (a, b, r)"
  unfolding returns3_def by blast

lemma returns3_extend: "returns3 f \<Longrightarrow> f t = Done (a, b, r) \<Longrightarrow> f (t @ e) = Done (a, b, r @ e)"
  unfolding returns3_def by blast

lemma returns3_Done: "returns3 (\<lambda>t. Done (a, b, t))"
  by (simp add: returns3_def)

lemma returns3_if:
  "(c \<Longrightarrow> returns3 f) \<Longrightarrow> (\<not> c \<Longrightarrow> returns3 g) \<Longrightarrow> returns3 (\<lambda>t. if c then f t else g t)"
  by (cases c) (simp_all add: returns3_def)

lemma returns3_andThen:
  assumes f: "returns f" and g: "\<And>x. returns3 (g x)"
  shows "returns3 (\<lambda>t. andThen (f t) (\<lambda>(x, t'). g x t'))"
proof (rule returns3I)
  fix t
  from returns_finish [OF f] obtain e1 x r where 1: "f (t @ e1) = Done (x, r)"
    by blast
  from returns3_finish [OF g] obtain e2 a b r' where 2: "g x (r @ e2) = Done (a, b, r')"
    by blast
  from returns_extend [OF f 1] have "f (t @ (e1 @ e2)) = Done (x, r @ e2)"
    by simp
  then have "andThen (f (t @ (e1 @ e2))) (\<lambda>(x, t'). g x t') = Done (a, b, r')"
    using 2 by (simp add: andThen_def)
  then show "\<exists>e a b r. andThen (f (t @ e)) (\<lambda>(x, t'). g x t') = Done (a, b, r)"
    by blast
next
  fix t e a b r'
  assume "andThen (f t) (\<lambda>(x, t'). g x t') = Done (a, b, r')"
  then obtain x r where 1: "f t = Done (x, r)" and 2: "g x r = Done (a, b, r')"
    by (auto simp: andThen_Done_iff)
  from returns_extend [OF f 1] returns3_extend [OF g 2]
  show "andThen (f (t @ e)) (\<lambda>(x, t'). g x t') = Done (a, b, r' @ e)"
    by (simp add: andThen_def)
qed

lemma returns3_bind:
  assumes f: "returns3 f" and g: "\<And>a b. returns3 (\<lambda>t. g (a, b, t))"
  shows "returns3 (\<lambda>t. andThen (f t) g)"
proof (rule returns3I)
  fix t
  from returns3_finish [OF f] obtain e1 a b r where 1: "f (t @ e1) = Done (a, b, r)"
    by blast
  from returns3_finish [OF g] obtain e2 a' b' r' where 2: "g (a, b, r @ e2) = Done (a', b', r')"
    by blast
  from returns3_extend [OF f 1] have "f (t @ (e1 @ e2)) = Done (a, b, r @ e2)"
    by simp
  then have "andThen (f (t @ (e1 @ e2))) g = Done (a', b', r')"
    using 2 by (simp add: andThen_def)
  then show "\<exists>e a b r. andThen (f (t @ e)) g = Done (a, b, r)"
    by blast
next
  fix t e a' b' r'
  assume "andThen (f t) g = Done (a', b', r')"
  then obtain a b r where 1: "f t = Done (a, b, r)" and 2: "g (a, b, r) = Done (a', b', r')"
    by (auto simp: andThen_Done_iff)
  from returns3_extend [OF f 1] returns3_extend [OF g 2]
  show "andThen (f (t @ e)) g = Done (a', b', r' @ e)"
    by (simp add: andThen_def)
qed

lemma target_count: "minimum \<le> maximum \<Longrightarrow> maximum - minimum + 1 < 2 ^ 63 \<Longrightarrow>
   0 < int64 (int64 (maximum - minimum) + 1)"
proof -
  assume a: "minimum \<le> maximum" "maximum - minimum + 1 < 2 ^ 63"
  have "int64 (int64 (maximum - minimum) + 1) = int64 (maximum - minimum + 1)"
    by (rule int64_add_left)
  also have "\<dots> = maximum - minimum + 1"
    using a by (intro int64_small) simp_all
  finally show ?thesis
    using a by simp
qed

lemma returns3_replenishCargo:
  assumes "Commodities u \<noteq> []" "dest \<in> set (Planets u)" "pKey dest \<noteq> pKey origin"
    and "cargoTargets origin = (minCargo, maxCargo)"
    and "minCargo \<le> maxCargo" "maxCargo - minCargo + 1 < 2 ^ 63"
  shows "returns3 (\<lambda>t. replenishCargo u origin (upd, s, t))"
proof -
  note n = target_count [OF assms(5,6)]
  show ?thesis
    unfolding replenishCargo_def Let_def
    by (simp add: assms(4) del: One_nat_def)
      (intro returns3_if returns3_andThen returns3_Done returns_Intn n
        returns_generateCargoJobs [OF assms(1-3)])
qed

lemma returns3_replenishPassengers:
  assumes "dest \<in> set (Planets u)" "pKey dest \<noteq> pKey origin"
    and "paxTargets origin = (minPax, maxPax)"
    and "minPax \<le> maxPax" "maxPax - minPax + 1 < 2 ^ 63"
  shows "returns3 (\<lambda>t. replenishPassengers u origin (upd, s, t))"
proof -
  note n = target_count [OF assms(4,5)]
  show ?thesis
    unfolding replenishPassengers_def Let_def
    by (simp add: assms(3) del: One_nat_def)
      (intro conjI impI returns3_if returns3_andThen returns3_Done returns_Intn n
        returns_generatePassengerJobs [OF assms(1,2)])
qed

lemma returns3_replenishPlanets:
  assumes c: "Commodities u \<noteq> []"
    and p: "\<forall>origin \<in> set ps.
          (\<exists>dest \<in> set (Planets u). pKey dest \<noteq> pKey origin)
          \<and> (case cargoTargets origin of (minCargo, maxCargo) \<Rightarrow>
                minCargo \<le> maxCargo \<and> maxCargo - minCargo + 1 < 2 ^ 63)
          \<and> (case paxTargets origin of (minPax, maxPax) \<Rightarrow>
                minPax \<le> maxPax \<and> maxPax - minPax + 1 < 2 ^ 63)"
  shows "returns3 (\<lambda>t. replenishPlanets u ps (upd, s, t))"
  using p
proof (induction ps arbitrary: upd s)
  case Nil
  then show ?case by (simp add: returns3_Done)
next
  case (Cons origin ps)
  obtain minCargo maxCargo where ct: "cargoTargets origin = (minCargo, maxCargo)"
    by (cases "cargoTargets origin")
  obtain minPax maxPax where pt: "paxTargets origin = (minPax, maxPax)"
    by (cases "paxTargets origin")
  from Cons.prems obtain dest where d: "dest \<in> set (Planets u)" "pKey dest \<noteq> pKey origin"
    by auto
  from Cons.prems ct pt have r: "minCargo \<le> maxCargo" "maxCargo - minCargo + 1 < 2 ^ 63"
    "minPax \<le> maxPax" "maxPax - minPax + 1 < 2 ^ 63"
    by simp_all
  have rest: "returns3 (\<lambda>t. replenishPlanets u ps (a, b, t))" for a b
    using Cons.prems by (intro Cons.IH) simp
  have pax: "returns3 (\<lambda>t. andThen (replenishPassengers u origin (a, b, t))
                         (\<lambda>st2. replenishPlanets u ps st2))" for a b
    by (intro returns3_bind returns3_replenishPassengers [OF d pt r(3,4)] rest)
  have "returns3 (\<lambda>t. andThen (replenishCargo u origin (upd, s, t))
          (\<lambda>st1. andThen (replenishPassengers u origin st1) (\<lambda>st2. replenishPlanets u ps st2)))"
    by (intro returns3_bind returns3_replenishCargo [OF c d ct r(1,2)] pax)
  then show ?case by simp
qed

lemma ReplenishMarket_returns:
  assumes "replenishable u"
  shows "\<exists>e updatedPlanets s' t'. ReplenishMarket u s (t @ e) = Done (updatedPlanets, s', t')"
proof -
  have "returns3 (\<lambda>t. replenishPlanets u (Planets u) ([], MarketTick s, t))"
    using assms by (intro returns3_replenishPlanets) (simp_all add: replenishable_def)
  from returns3_finish [OF this, of t] show ?thesis
    by (simp add: ReplenishMarket_def)
qed

subsection \<open>Evaluating the example runs\<close>

lemma andThen_Done [simp]: "andThen (Done x) f = f x"
  by (simp add: andThen_def)

lemma Intn_Cons: "0 < n \<Longrightarrow> Intn n (v # t) = Done (int v mod n, t)"
  by (simp add: Intn_def)

lemma UnixNano_Cons: "UnixNano (v # t) = Done (int v, t)"
  by (simp add: UnixNano_def)

lemma Float64_Cons: "Float64 (v # t) = Done (real (v mod 2 ^ 53) / 2 ^ 53, t)"
  by (simp add: Float64_def)

lemma Float32_Cons: "Float32 (v # t) = Done (real (v mod 2 ^ 24) / 2 ^ 24, t)"
  by (simp add: Float32_def)

lemma tickMap_empty: "tickMap Map.empty = Map.empty"
  by (simp add: tickMap_def)

lemma tickMap_upd:
  "tickMap (h(pk \<mapsto> cs)) = (tickMap h)(pk \<mapsto> (\<lambda>ck. map_option tickHeat (cs ck)))"
  by (auto simp: tickMap_def)

lemma tick_inner_empty: "(\<lambda>ck. map_option tickHeat (Map.empty ck)) = Map.empty"
  by simp

lemma tick_inner_upd:
  "(\<lambda>ck. map_option tickHeat ((cs(k \<mapsto> v)) ck)) = (\<lambda>ck. map_option tickHeat (cs ck))(k \<mapsto> tickHeat v)"
  by auto

lemma tickHeat_neutral: "tickHeat 1 = 1"
  by (simp add: tickHeat_def)

lemma showNat_7: "showNat 7 = ''7''" and showNat_42: "showNat 42 = ''42''"
  and showNat_9: "showNat 9 = ''9''" and showNat_77: "showNat 77 = ''77''"
  by (simp_all add: showNat.simps)

lemma exDistance_back: "CalculateDistance [3, 4] [0, 0] = 5"
proof -
  have "int64 (- 3) = - 3" "int64 (- 4) = - 4"
    by (simp_all add: int64_def)
  moreover have "toInt64 (mathRound 5) = 5"
    using mathRound_int [of 5] toInt64_int [of 5] by (simp add: isInt64_def)
  moreover have "float64 (- 3) = - 3" "float64 (- 4) = - 4"
    using float64_int [of "- 3"] float64_int [of "- 4"] by simp_all
  ultimately show ?thesis
    by (simp add: CalculateDistance_def Let_def float64_small sqrt_25)
qed

lemma exPayout: "cargoPayout exUniverse exOre 25 5 1 = 175"
proof -
  have "float64 175 = 175" "float64 1 = 1"
    using float64_int [of 175] float64_int [of 1] by simp_all
  moreover have "toInt64 175 = 175"
    using toInt64_int [of 175] by (simp add: isInt64_def)
  ultimately show ?thesis
    by (simp add: cargoPayout_def Let_def exUniverse_def exBalance_def exOre_def int64_small
        signed_divide_int_def)
qed


lemma bootState_eq:
  "bootState = \<lparr>PlayerShip = exShip\<lparr>Fuel := 1000\<rparr>, AvailableContracts = (\<lambda>_. []),
                 Market = \<lparr>SourceHeat = neutralHeat, DestHeat = neutralHeat\<rparr>\<rparr>"
  by (simp add: bootState_def LoadConfig_def zeroState_def zeroShip_def InitMarket_def Let_def
       exUniverse_def exShip_def exBalance_def exPrime_def exOuter_def exOre_def neutralHeat_def)

lemma tick_neutral: "tickMap neutralHeat = neutralHeat"
  by (auto simp: neutralHeat_def tickMap_def tickHeat_def fun_eq_iff)

lemma tick_boot: "Market s = \<lparr>SourceHeat = neutralHeat, DestHeat = neutralHeat\<rparr> \<Longrightarrow> MarketTick s = s"
  by (simp add: MarketTick_def tick_neutral)

lemma heat_prime: "heatAt neutralHeat ''planet_prime'' ''item_ore'' = 1"
  "heatAt neutralHeat ''planet_outer'' ''item_ore'' = 1"
  by (simp_all add: heatAt_def neutralHeat_def)

lemma generateCargoJobs_numeral:
  "generateCargoJobs u origin (numeral k) s t =
     andThen (generateCargoJob u origin s t) (\<lambda>(s', t'). generateCargoJobs u origin (pred_numeral k) s' t')"
  by (simp add: numeral_eq_Suc)

lemma exFields:
  "Planets exUniverse = [exPrime, exOuter]" "Commodities exUniverse = [exOre]"
  "BalanceConfig exUniverse = exBalance"
  "pKey exPrime = ''planet_prime''" "pKey exOuter = ''planet_outer''"
  "Production exPrime = []" "Coordinates exPrime = [0, 0]" "Coordinates exOuter = [3, 4]"
  "cargoTargets exPrime = (2, 2)" "paxTargets exPrime = (0, 1)"
  "cargoTargets exOuter = (0, 1)" "paxTargets exOuter = (1, 1)"
  "cKey exOre = ''item_ore''" "cName exOre = ''Ore''" "BaseValue exOre = 10" "Mass exOre = 2"
  "DistancePayoutMult exBalance = 10"
  "BaseTicketPrice (PassengerConfig exUniverse) = 50"
  "MassPerPassenger (PassengerConfig exUniverse) = 80"
  by (simp_all add: exUniverse_def exPrime_def exOuter_def exOre_def exBalance_def cargoTargets_def paxTargets_def)

lemma job1:
  "Market s = \<lparr>SourceHeat = neutralHeat, DestHeat = neutralHeat\<rparr> \<Longrightarrow>
   generateCargoJob exUniverse exPrime s (0 # Suc 0 # 20 # 7 # 42 # t) =
     Done (s\<lparr>AvailableContracts := (AvailableContracts s)(''planet_prime'' := AvailableContracts s ''planet_prime'' @ [exJob])\<rparr>, t)"
  by (simp add: generateCargoJob_def pickCommodity_def randomElem_def Intn_Cons UnixNano_Cons scarcitySkip_def
     exFields heat_prime Let_def exDistance showNat_7 showNat_42 int64_small exPayout)
    (simp add: exJob_def)

lemma ticket1:
  "generatePassengerJob exUniverse exOuter s (0 # 9 # 77 # t) =
     Done (s\<lparr>AvailableContracts := (AvailableContracts s)(''planet_outer'' := AvailableContracts s ''planet_outer'' @ [exTicket])\<rparr>, t)"
  by (simp add: generatePassengerJob_def Intn_Cons UnixNano_Cons exFields Let_def exDistance_back
      showNat_9 showNat_77 int64_small)
    (simp add: exTicket_def)

lemma twin_run:
  "ReplenishMarket exUniverse bootState twinTape
     = Done ([''planet_prime'', ''planet_outer''], stockedState, [])"
  by (simp add: ReplenishMarket_def tick_boot exFields replenishCargo_def replenishPassengers_def
       countType_def bootState_eq twinTape_def Intn_Cons generateCargoJobs_numeral job1 ticket1
       int64_small stockedState_def)

lemma hot_tick: "tickMap hotHeat = cooledHeat"
  by (auto simp: hotHeat_def cooledHeat_def tickMap_def tickHeat_def recoveryRate_def fun_eq_iff)

lemma hot_heat: "heatAt cooledHeat ''planet_prime'' ''item_ore'' = 2.95"
  by (simp add: heatAt_def cooledHeat_def)

lemma hot_draws:
  assumes "h = 2.95"
  shows "scarcitySkip h (6755399441055744 # t) = Done (True, t)"
    "scarcitySkip h (0 # t) = Done (False, t)"
proof -
  have "float64 2 \<le> float64 (0.75 * 2.95)"
    by (intro float64_mono) simp_all
  moreover have "float64 2 = 2"
    using float64_int [of 2] by simp
  ultimately have a: "1.5 < float64 (0.75 * 2.95)"
    by simp
  have d: "real (6755399441055744 mod 2 ^ 53) / 2 ^ 53 = 0.75"
    by simp
  show "scarcitySkip h (6755399441055744 # t) = Done (True, t)"
    unfolding scarcitySkip_def Float64_Cons d using a by (simp add: assms)
  have z: "float64 0 = 0"
    by (simp add: float64_def)
  show "scarcitySkip h (0 # t) = Done (False, t)"
    by (simp add: scarcitySkip_def Float64_Cons assms z)
qed

lemma hot_skipped:
  "Market s = \<lparr>SourceHeat = cooledHeat, DestHeat = neutralHeat\<rparr> \<Longrightarrow>
   generateCargoJob exUniverse exPrime s (0 # 6755399441055744 # t) = Done (s, t)"
  by (simp add: generateCargoJob_def pickCommodity_def randomElem_def Intn_Cons exFields
      hot_draws [OF hot_heat])

lemma hot_posted:
  "Market s = \<lparr>SourceHeat = cooledHeat, DestHeat = neutralHeat\<rparr> \<Longrightarrow>
   generateCargoJob exUniverse exPrime s (0 # 0 # Suc 0 # 20 # 7 # 42 # t) =
     Done (s\<lparr>AvailableContracts := (AvailableContracts s)(''planet_prime'' := AvailableContracts s ''planet_prime'' @ [exJob])\<rparr>, t)"
  by (simp add: generateCargoJob_def pickCommodity_def randomElem_def Intn_Cons UnixNano_Cons
      exFields hot_draws [OF hot_heat] heat_prime Let_def exDistance showNat_7 showNat_42
      int64_small exPayout)
    (simp add: exJob_def)

lemma hot_run:
  "ReplenishMarket exUniverse hotState hotTape
     = Done ([''planet_prime'', ''planet_outer''], hotAfter, [])"
  by (simp add: ReplenishMarket_def MarketTick_def hot_tick tick_neutral exFields replenishCargo_def
       replenishPassengers_def countType_def hotState_def hotTape_def Intn_Cons generateCargoJobs_numeral
       hot_skipped hot_posted ticket1 int64_small hotAfter_def)

subsection \<open>Board counts after a replenishment\<close>

text \<open>
  C3, as stated, fails for cargo: with a source heat of 3 at \<open>planet_prime\<close>, an empty
  board and cargo targets \<open>[2, 2]\<close>, a replenishment whose first job is skipped by the
  scarcity check leaves one cargo contract, which is neither the count before nor
  within the targets.
\<close>

theorem replenish_skip_counterexample:
  "exPrime \<in> set (Planets exUniverse) \<and> cargoTargets exPrime = (2, 2)
   \<and> ReplenishMarket exUniverse hotState hotTape
        = Done ([''planet_prime'', ''planet_outer''], hotAfter, [])
   \<and> countType ''cargo'' (AvailableContracts hotState (pKey exPrime)) = 0
   \<and> countType ''cargo'' (AvailableContracts hotAfter (pKey exPrime)) = 1"
  using hot_run by (simp add: exFields countType_def hotState_def hotAfter_def exJob_def)

text \<open>
  C3 (amended). On a catalog with a commodity, another planet for every planet and a
  positive number of target values, a call of \<open>ReplenishMarket\<close> returns: whatever
  has been drawn so far, it returns once enough further draws are supplied (the
  loop that draws a destination again while it is the origin ends with the first
  draw of another planet). After a call that returns, in a catalog without duplicate
  planet keys, for every planet and its effective targets: a count that was at or
  above the minimum is unchanged, and one that was below it is not lower than before;
  when the targets are in order and within the range of \<open>int\<close>, a count of passenger
  contracts that was below the minimum lies within \<open>[minimum, maximum]\<close>, and a count
  of cargo contracts that was below it is at most the maximum, and at least the
  minimum when no source heat of the planet exceeds 1.5 after the tick (so that the
  scarcity check cannot skip a job). Boards of keys outside the catalog, and the
  ship, are unchanged; the market is the ticked one.
\<close>

theorem ReplenishMarket_counts:
  assumes keys: "distinct (map pKey (Planets u))"
    and origin: "origin \<in> set (Planets u)"
    and ct: "cargoTargets origin = (minCargo, maxCargo)"
    and pt: "paxTargets origin = (minPax, maxPax)"
  shows "(replenishable u \<longrightarrow>
            (\<exists>e updatedPlanets s' t'. ReplenishMarket u s (t @ e) = Done (updatedPlanets, s', t')))
       \<and> (ReplenishMarket u s t = Done (updatedPlanets, s', t') \<longrightarrow>
           (minCargo \<le> countType ''cargo'' (AvailableContracts s (pKey origin)) \<longrightarrow>
              countType ''cargo'' (AvailableContracts s' (pKey origin))
                = countType ''cargo'' (AvailableContracts s (pKey origin)))
         \<and> (countType ''cargo'' (AvailableContracts s (pKey origin)) < minCargo \<longrightarrow>
              countType ''cargo'' (AvailableContracts s (pKey origin))
                \<le> countType ''cargo'' (AvailableContracts s' (pKey origin)))
         \<and> (countType ''cargo'' (AvailableContracts s (pKey origin)) < minCargo
              \<and> - (2 ^ 63) \<le> minCargo \<and> minCargo \<le> maxCargo \<and> maxCargo < 2 ^ 63 \<longrightarrow>
              countType ''cargo'' (AvailableContracts s' (pKey origin)) \<le> maxCargo
              \<and> ((\<forall>ck. heatAt (SourceHeat (Market s')) (pKey origin) ck \<le> 1.5) \<longrightarrow>
                   minCargo \<le> countType ''cargo'' (AvailableContracts s' (pKey origin))))
         \<and> (minPax \<le> countType ''passenger'' (AvailableContracts s (pKey origin)) \<longrightarrow>
              countType ''passenger'' (AvailableContracts s' (pKey origin))
                = countType ''passenger'' (AvailableContracts s (pKey origin)))
         \<and> (countType ''passenger'' (AvailableContracts s (pKey origin)) < minPax \<longrightarrow>
              countType ''passenger'' (AvailableContracts s (pKey origin))
                \<le> countType ''passenger'' (AvailableContracts s' (pKey origin)))
         \<and> (countType ''passenger'' (AvailableContracts s (pKey origin)) < minPax
              \<and> - (2 ^ 63) \<le> minPax \<and> minPax \<le> maxPax \<and> maxPax < 2 ^ 63 \<longrightarrow>
              minPax \<le> countType ''passenger'' (AvailableContracts s' (pKey origin))
              \<and> countType ''passenger'' (AvailableContracts s' (pKey origin)) \<le> maxPax)
         \<and> (\<forall>k. k \<notin> pKey ` set (Planets u) \<longrightarrow> AvailableContracts s' k = AvailableContracts s k)
         \<and> PlayerShip s' = PlayerShip s \<and> Market s' = Market (MarketTick s))"
proof (rule conjI; rule impI)
  assume "replenishable u"
  then show "\<exists>e updatedPlanets s' t'. ReplenishMarket u s (t @ e) = Done (updatedPlanets, s', t')"
    by (rule ReplenishMarket_returns)
next
  assume run: "ReplenishMarket u s t = Done (updatedPlanets, s', t')"
  have b: "AvailableContracts (MarketTick s) = AvailableContracts s"
    by (simp add: MarketTick_def)
  from run have r: "replenishPlanets u (Planets u) ([], MarketTick s, t) = Done (updatedPlanets, s', t')"
    by (simp add: ReplenishMarket_def)
  from replenishPlanets_toppedUp [OF r keys] origin have
    t: "toppedUp origin (MarketTick s) s'"
    and o: "\<forall>k. k \<notin> pKey ` set (Planets u) \<longrightarrow> AvailableContracts s' k = AvailableContracts s k"
    by (simp_all add: b)
  from replenishPlanets_grows [OF r] have g: "PlayerShip s' = PlayerShip s" "Market s' = Market (MarketTick s)"
    by (simp_all add: grows_def MarketTick_def)
  from t o g show
    "(minCargo \<le> countType ''cargo'' (AvailableContracts s (pKey origin)) \<longrightarrow>
              countType ''cargo'' (AvailableContracts s' (pKey origin))
                = countType ''cargo'' (AvailableContracts s (pKey origin)))
         \<and> (countType ''cargo'' (AvailableContracts s (pKey origin)) < minCargo \<longrightarrow>
              countType ''cargo'' (AvailableContracts s (pKey origin))
                \<le> countType ''cargo'' (AvailableContracts s' (pKey origin)))
         \<and> (countType ''cargo'' (AvailableContracts s (pKey origin)) < minCargo
              \<and> - (2 ^ 63) \<le> minCargo \<and> minCargo \<le> maxCargo \<and> maxCargo < 2 ^ 63 \<longrightarrow>
              countType ''cargo'' (AvailableContracts s' (pKey origin)) \<le> maxCargo
              \<and> ((\<forall>ck. heatAt (SourceHeat (Market s')) (pKey origin) ck \<le> 1.5) \<longrightarrow>
                   minCargo \<le> countType ''cargo'' (AvailableContracts s' (pKey origin))))
         \<and> (minPax \<le> countType ''passenger'' (AvailableContracts s (pKey origin)) \<longrightarrow>
              countType ''passenger'' (AvailableContracts s' (pKey origin))
                = countType ''passenger'' (AvailableContracts s (pKey origin)))
         \<and> (countType ''passenger'' (AvailableContracts s (pKey origin)) < minPax \<longrightarrow>
              countType ''passenger'' (AvailableContracts s (pKey origin))
                \<le> countType ''passenger'' (AvailableContracts s' (pKey origin)))
         \<and> (countType ''passenger'' (AvailableContracts s (pKey origin)) < minPax
              \<and> - (2 ^ 63) \<le> minPax \<and> minPax \<le> maxPax \<and> maxPax < 2 ^ 63 \<longrightarrow>
              minPax \<le> countType ''passenger'' (AvailableContracts s' (pKey origin))
              \<and> countType ''passenger'' (AvailableContracts s' (pKey origin)) \<le> maxPax)
         \<and> (\<forall>k. k \<notin> pKey ` set (Planets u) \<longrightarrow> AvailableContracts s' k = AvailableContracts s k)
         \<and> PlayerShip s' = PlayerShip s \<and> Market s' = Market (MarketTick s)"
    by (simp add: toppedUp_def ct pt Let_def b noSkip_def targetRange_def)
qed

theorem ReplenishMarket_counts_witness:
  "replenishable exUniverse
   \<and> ReplenishMarket exUniverse bootState twinTape
        = Done ([''planet_prime'', ''planet_outer''], stockedState, [])
   \<and> distinct (map pKey (Planets exUniverse))
   \<and> exPrime \<in> set (Planets exUniverse) \<and> exOuter \<in> set (Planets exUniverse)
   \<and> cargoTargets exPrime = (2, 2) \<and> paxTargets exPrime = (0, 1)
   \<and> cargoTargets exOuter = (0, 1) \<and> paxTargets exOuter = (1, 1)
   \<and> countType ''cargo'' (AvailableContracts bootState (pKey exPrime)) = 0
   \<and> countType ''cargo'' (AvailableContracts stockedState (pKey exPrime)) = 2
   \<and> countType ''passenger'' (AvailableContracts bootState (pKey exPrime)) = 0
   \<and> countType ''passenger'' (AvailableContracts stockedState (pKey exPrime)) = 0
   \<and> countType ''cargo'' (AvailableContracts bootState (pKey exOuter)) = 0
   \<and> countType ''cargo'' (AvailableContracts stockedState (pKey exOuter)) = 0
   \<and> countType ''passenger'' (AvailableContracts bootState (pKey exOuter)) = 0
   \<and> countType ''passenger'' (AvailableContracts stockedState (pKey exOuter)) = 1"
proof -
  have d: "distinct (map pKey (Planets exUniverse))" and m: "exPrime \<in> set (Planets exUniverse)"
    and n: "exOuter \<in> set (Planets exUniverse)"
    by (simp_all add: exFields)
  have r: "replenishable exUniverse"
    by (simp add: replenishable_def exFields)
  have h: "heatAt (SourceHeat (Market stockedState)) k ck \<le> 1.5" for k ck
    by (simp add: stockedState_def bootState_eq heatAt_def neutralHeat_def)
  from ReplenishMarket_counts [OF d m exFields(9) exFields(10), of bootState twinTape
      "[''planet_prime'', ''planet_outer'']" stockedState "[]"]
    ReplenishMarket_counts [OF d n exFields(11) exFields(12), of bootState twinTape
      "[''planet_prime'', ''planet_outer'']" stockedState "[]"]
    twin_run d m n r
  show ?thesis
    by (simp add: exFields countType_def stockedState_def bootState_eq exJob_def exTicket_def)
qed

section \<open>Properties of the contract handlers\<close>

lemma findIdx_Some: "findIdx cid cs = Some i \<Longrightarrow> i < length cs \<and> ID (cs ! i) = cid"
proof (induction cs arbitrary: i)
  case Nil
  then show ?case by simp
next
  case (Cons c cs)
  then show ?case by (auto split: if_splits)
qed

lemma removeAt_set: "set (removeAt i xs) \<subseteq> set xs"
  by (auto simp: removeAt_def dest: in_set_takeD in_set_dropD)

lemma removeAt_distinct: "distinct (map f xs) \<Longrightarrow> distinct (map f (removeAt i xs))"
proof -
  assume d: "distinct (map f xs)"
  have "map f (removeAt i xs) = take i (map f xs) @ drop (Suc i) (map f xs)"
    by (simp add: removeAt_def take_map drop_map)
  moreover have "distinct (take i (map f xs) @ drop (Suc i) (map f xs))"
  proof -
    have "distinct (take i (map f xs) @ drop i (map f xs))"
      using d by simp
    then show ?thesis
      by (auto simp: set_take_disj_set_drop_if_distinct)
  qed
  ultimately show ?thesis by simp
qed

lemma removeAt_ids:
  "distinct (map f xs) \<Longrightarrow> i < length xs \<Longrightarrow> f (xs ! i) \<notin> f ` set (removeAt i xs)"
proof -
  assume d: "distinct (map f xs)" and i: "i < length xs"
  have "xs = take i xs @ xs ! i # drop (Suc i) xs"
    using i by (rule id_take_nth_drop)
  then have "distinct (map f (take i xs @ xs ! i # drop (Suc i) xs))"
    using d by simp
  then show ?thesis
    by (auto simp: removeAt_def)
qed

lemma loadCounts_foldl:
  "foldl (\<lambda>(currentCargo, currentPass) ac.
              if Type ac = ''cargo'' then (int64 (currentCargo + Quantity ac), currentPass)
              else (currentCargo, int64 (currentPass + Quantity ac))) (a, b) acs
   = (foldl (\<lambda>total c. int64 (total + Quantity c)) a (filter (\<lambda>c. Type c = ''cargo'') acs),
      foldl (\<lambda>total c. int64 (total + Quantity c)) b (filter (\<lambda>c. Type c \<noteq> ''cargo'') acs))"
  by (induction acs arbitrary: a b) simp_all

lemma loadCounts_eq:
  "loadCounts acs = (currentCargo, currentPass) \<Longrightarrow>
   int64 (currentCargo + q) = int64 (cargoLoad acs + q)
   \<and> int64 (currentPass + q) = int64 (otherLoad acs + q)"
proof -
  assume "loadCounts acs = (currentCargo, currentPass)"
  then have c: "currentCargo = foldl (\<lambda>total c. int64 (total + Quantity c)) 0
                   (filter (\<lambda>c. Type c = ''cargo'') acs)"
    and p: "currentPass = foldl (\<lambda>total c. int64 (total + Quantity c)) 0
                   (filter (\<lambda>c. Type c \<noteq> ''cargo'') acs)"
    by (simp_all add: loadCounts_def loadCounts_foldl)
  have "int64 (q + currentCargo) = int64 (q + 0 + cargoLoad acs)"
    unfolding c cargoLoad_def by (rule int64_foldl_sum)
  moreover have "int64 (q + currentPass) = int64 (q + 0 + otherLoad acs)"
    unfolding p otherLoad_def by (rule int64_foldl_sum)
  ultimately show ?thesis
    by (simp add: add.commute)
qed

lemma generated_others:
  "\<forall>c \<in> set acs. generated c \<Longrightarrow> otherLoad acs = passengerLoad acs"
proof -
  assume g: "\<forall>c \<in> set acs. generated c"
  have "filter (\<lambda>c. Type c \<noteq> ''cargo'') acs = filter (\<lambda>c. Type c = ''passenger'') acs"
    using g by (intro filter_cong) (auto simp: generated_def)
  then show ?thesis by (simp add: passengerLoad_def otherLoad_def)
qed

lemma loads_append:
  "cargoLoad (acs @ [c]) = cargoLoad acs + (if Type c = ''cargo'' then Quantity c else 0)"
  "passengerLoad (acs @ [c]) = passengerLoad acs + (if Type c = ''passenger'' then Quantity c else 0)"
  by (simp_all add: cargoLoad_def passengerLoad_def)

lemma generated_nonneg: "generated c \<Longrightarrow> 0 \<le> Quantity c"
  by (auto simp: generated_def)

lemma sum_filter_le:
  "\<forall>c \<in> set xs. 0 \<le> Quantity c \<Longrightarrow>
   sum_list (map Quantity (filter P (filter Q xs))) \<le> sum_list (map Quantity (filter P xs))"
proof (induction xs)
  case Nil
  then show ?case by simp
next
  case (Cons x xs)
  then show ?case by auto
qed

lemma sum_removeAt_le:
  assumes "\<forall>c \<in> set xs. 0 \<le> Quantity c"
  shows "sum_list (map Quantity (filter P (removeAt i xs))) \<le> sum_list (map Quantity (filter P xs))"
proof (cases "i < length xs")
  case True
  then have xs: "xs = take i xs @ xs ! i # drop (Suc i) xs"
    by (rule id_take_nth_drop)
  have "0 \<le> Quantity (xs ! i)"
    using assms True by simp
  then have "sum_list (map Quantity (filter P (take i xs @ drop (Suc i) xs)))
     \<le> sum_list (map Quantity (filter P (take i xs @ xs ! i # drop (Suc i) xs)))"
    by simp
  with xs show ?thesis by (simp add: removeAt_def)
next
  case False
  then show ?thesis by (simp add: removeAt_def)
qed

lemma accept_unfold:
  assumes "findIdx cid (AvailableContracts s (LocationKey (PlayerShip s))) = Some i"
  shows "HandleAcceptContract (Some cid) s =
     (if Type (AvailableContracts s (LocationKey (PlayerShip s)) ! i) = ''cargo''
         \<and> int64 (cargoLoad (ActiveContracts (PlayerShip s))
                  + Quantity (AvailableContracts s (LocationKey (PlayerShip s)) ! i))
                  > CargoCapacity (PlayerShip s)
      then (Error ''Insufficient Cargo Space'' StatusConflict, s)
      else if Type (AvailableContracts s (LocationKey (PlayerShip s)) ! i) = ''passenger''
         \<and> int64 (otherLoad (ActiveContracts (PlayerShip s))
                  + Quantity (AvailableContracts s (LocationKey (PlayerShip s)) ! i))
                  > PassengerSlots (PlayerShip s)
      then (Error ''Insufficient Passenger Slots'' StatusConflict, s)
      else (Encode ((PlayerShip s)\<lparr>ActiveContracts :=
                    ActiveContracts (PlayerShip s) @ [AvailableContracts s (LocationKey (PlayerShip s)) ! i]\<rparr>),
            s\<lparr>PlayerShip := (PlayerShip s)\<lparr>ActiveContracts :=
                    ActiveContracts (PlayerShip s) @ [AvailableContracts s (LocationKey (PlayerShip s)) ! i]\<rparr>,
               AvailableContracts := (AvailableContracts s)(LocationKey (PlayerShip s) :=
                    removeAt i (AvailableContracts s (LocationKey (PlayerShip s)))),
               Market := RecordAcceptance (Market s)
                    (OriginKey (AvailableContracts s (LocationKey (PlayerShip s)) ! i))
                    (ItemKey (AvailableContracts s (LocationKey (PlayerShip s)) ! i))
                    (Quantity (AvailableContracts s (LocationKey (PlayerShip s)) ! i))\<rparr>))"
proof -
  obtain currentCargo currentPass where
    l: "loadCounts (ActiveContracts (PlayerShip s)) = (currentCargo, currentPass)"
    by (cases "loadCounts (ActiveContracts (PlayerShip s))")
  note e = loadCounts_eq [OF l, of "Quantity (AvailableContracts s (LocationKey (PlayerShip s)) ! i)"]
  show ?thesis
    by (simp add: HandleAcceptContract_def assms l Let_def e)
qed

lemma accept_result:
  "snd (HandleAcceptContract req s) = s
   \<or> (\<exists>cid i. req = Some cid
         \<and> findIdx cid (AvailableContracts s (LocationKey (PlayerShip s))) = Some i
         \<and> \<not> (Type (AvailableContracts s (LocationKey (PlayerShip s)) ! i) = ''cargo''
              \<and> int64 (cargoLoad (ActiveContracts (PlayerShip s))
                  + Quantity (AvailableContracts s (LocationKey (PlayerShip s)) ! i))
                  > CargoCapacity (PlayerShip s))
         \<and> \<not> (Type (AvailableContracts s (LocationKey (PlayerShip s)) ! i) = ''passenger''
              \<and> int64 (otherLoad (ActiveContracts (PlayerShip s))
                  + Quantity (AvailableContracts s (LocationKey (PlayerShip s)) ! i))
                  > PassengerSlots (PlayerShip s))
         \<and> snd (HandleAcceptContract req s) =
             s\<lparr>PlayerShip := (PlayerShip s)\<lparr>ActiveContracts :=
                    ActiveContracts (PlayerShip s) @ [AvailableContracts s (LocationKey (PlayerShip s)) ! i]\<rparr>,
               AvailableContracts := (AvailableContracts s)(LocationKey (PlayerShip s) :=
                    removeAt i (AvailableContracts s (LocationKey (PlayerShip s)))),
               Market := RecordAcceptance (Market s)
                    (OriginKey (AvailableContracts s (LocationKey (PlayerShip s)) ! i))
                    (ItemKey (AvailableContracts s (LocationKey (PlayerShip s)) ! i))
                    (Quantity (AvailableContracts s (LocationKey (PlayerShip s)) ! i))\<rparr>)"
proof (cases req)
  case None
  then show ?thesis by (simp add: HandleAcceptContract_def)
next
  case (Some cid)
  show ?thesis
  proof (cases "findIdx cid (AvailableContracts s (LocationKey (PlayerShip s)))")
    case None
    then show ?thesis by (simp add: HandleAcceptContract_def Some)
  next
    case (Some i)
    note idx = this
    show ?thesis
    proof (cases "(Type (AvailableContracts s (LocationKey (PlayerShip s)) ! i) = ''cargo''
              \<and> int64 (cargoLoad (ActiveContracts (PlayerShip s))
                  + Quantity (AvailableContracts s (LocationKey (PlayerShip s)) ! i))
                  > CargoCapacity (PlayerShip s))
            \<or> (Type (AvailableContracts s (LocationKey (PlayerShip s)) ! i) = ''passenger''
              \<and> int64 (otherLoad (ActiveContracts (PlayerShip s))
                  + Quantity (AvailableContracts s (LocationKey (PlayerShip s)) ! i))
                  > PassengerSlots (PlayerShip s))")
      case True
      then have "snd (HandleAcceptContract req s) = s"
        by (auto simp: \<open>req = Some cid\<close> accept_unfold [OF idx])
      then show ?thesis ..
    next
      case False
      then have "snd (HandleAcceptContract req s) =
             s\<lparr>PlayerShip := (PlayerShip s)\<lparr>ActiveContracts :=
                    ActiveContracts (PlayerShip s) @ [AvailableContracts s (LocationKey (PlayerShip s)) ! i]\<rparr>,
               AvailableContracts := (AvailableContracts s)(LocationKey (PlayerShip s) :=
                    removeAt i (AvailableContracts s (LocationKey (PlayerShip s)))),
               Market := RecordAcceptance (Market s)
                    (OriginKey (AvailableContracts s (LocationKey (PlayerShip s)) ! i))
                    (ItemKey (AvailableContracts s (LocationKey (PlayerShip s)) ! i))
                    (Quantity (AvailableContracts s (LocationKey (PlayerShip s)) ! i))\<rparr>"
        by (auto simp: \<open>req = Some cid\<close> accept_unfold [OF idx])
      with False idx \<open>req = Some cid\<close> show ?thesis by blast
    qed
  qed
qed

lemma drop_result:
  "snd (HandleDropContract req s) = s
   \<or> (\<exists>i. snd (HandleDropContract req s) =
             s\<lparr>PlayerShip := (PlayerShip s)\<lparr>ActiveContracts :=
                    removeAt i (ActiveContracts (PlayerShip s))\<rparr>\<rparr>)"
  by (auto simp: HandleDropContract_def Let_def split: option.splits)

lemma travel_result:
  "snd (HandleTravel u req s) = s
   \<or> (\<exists>fuel loc credits m. snd (HandleTravel u req s) =
         s\<lparr>PlayerShip := (PlayerShip s)\<lparr>Fuel := fuel, LocationKey := loc,
               ActiveContracts := filter (\<lambda>c. DestinationKey c \<noteq> loc) (ActiveContracts (PlayerShip s)),
               Credits := credits\<rparr>,
           Market := m\<rparr>)"
  by (auto simp: HandleTravel_def Let_def deliverStep_foldl split: option.splits sum.splits)

lemma refuel_result:
  "snd (HandleRefuel u s) = s
   \<or> (\<exists>credits fuel. snd (HandleRefuel u s) =
         s\<lparr>PlayerShip := (PlayerShip s)\<lparr>Credits := credits, Fuel := fuel\<rparr>\<rparr>)"
  by (auto simp: HandleRefuel_def Let_def)

lemma GetModule_Some: "GetModule u key = Some md \<Longrightarrow> md \<in> set (ShipModules u)"
  by (auto simp: GetModule_def find_Some_iff)

lemma buy_result:
  "snd (HandleBuyModule u req s) = s
   \<or> (\<exists>md credits. md \<in> set (ShipModules u)
         \<and> int (length (InstalledModules (PlayerShip s))) < MaxModuleSlots (PlayerShip s)
         \<and> snd (HandleBuyModule u req s) =
         s\<lparr>PlayerShip := applyModule md ((PlayerShip s)\<lparr>Credits := credits,
               InstalledModules := InstalledModules (PlayerShip s) @ [md]\<rparr>)\<rparr>)"
  by (auto simp: HandleBuyModule_def Let_def split: option.splits dest: GetModule_Some)

lemma applyModule_contracts: "ActiveContracts (applyModule md ship) = ActiveContracts ship"
  by (simp add: applyModule_def)

lemma applyModule_fields:
  "MaxModuleSlots (applyModule md ship) = MaxModuleSlots ship"
  "InstalledModules (applyModule md ship) = InstalledModules ship"
  by (simp_all add: applyModule_def)

lemma applyModule_capacity:
  assumes "isInt64 (CargoCapacity ship + StatValue md)" "isInt64 (PassengerSlots ship + StatValue md)"
  shows "CargoCapacity (applyModule md ship) = CargoCapacity ship
           + (if StatModifier md = ''cargo_capacity'' then StatValue md else 0)"
    "PassengerSlots (applyModule md ship) = PassengerSlots ship
           + (if StatModifier md \<noteq> ''cargo_capacity'' \<and> StatModifier md = ''passenger_slots''
              then StatValue md else 0)"
  using assms by (simp_all add: applyModule_def int64_id)

lemma LoadConfig_result:
  "AvailableContracts (LoadConfig u s) = AvailableContracts s
   \<and> (PlayerShip (LoadConfig u s) = PlayerShip s
      \<or> (ActiveContracts (PlayerShip (LoadConfig u s)) = []
         \<and> InstalledModules (PlayerShip (LoadConfig u s)) = []
         \<and> MaxModuleSlots (PlayerShip (LoadConfig u s)) = MaxModuleSlots (PlayerShipConfig u)
         \<and> CargoCapacity (PlayerShip (LoadConfig u s)) = CargoCapacity (PlayerShipConfig u)
         \<and> PassengerSlots (PlayerShip (LoadConfig u s)) = PassengerSlots (PlayerShipConfig u)))"
  by (simp add: LoadConfig_def Let_def)

subsection \<open>Exclusive ownership is preserved\<close>

lemma uniqueIds_shrink:
  assumes "uniqueIds s" "AvailableContracts s' = AvailableContracts s"
    "distinct (map ID (ActiveContracts (PlayerShip s')))"
    "set (ActiveContracts (PlayerShip s')) \<subseteq> set (ActiveContracts (PlayerShip s))"
  shows "uniqueIds s'"
  using assms unfolding uniqueIds_def by (simp add: assms(2)) blast

lemma uniqueIds_accept:
  assumes u: "uniqueIds s"
  shows "uniqueIds (snd (HandleAcceptContract req s))"
  using accept_result [of req s]
proof
  assume "snd (HandleAcceptContract req s) = s"
  with u show ?thesis by simp
next
  define loc where "loc = LocationKey (PlayerShip s)"
  define board where "board = AvailableContracts s loc"
  assume "\<exists>cid i. req = Some cid
         \<and> findIdx cid (AvailableContracts s (LocationKey (PlayerShip s))) = Some i
         \<and> \<not> (Type (AvailableContracts s (LocationKey (PlayerShip s)) ! i) = ''cargo''
              \<and> int64 (cargoLoad (ActiveContracts (PlayerShip s))
                  + Quantity (AvailableContracts s (LocationKey (PlayerShip s)) ! i))
                  > CargoCapacity (PlayerShip s))
         \<and> \<not> (Type (AvailableContracts s (LocationKey (PlayerShip s)) ! i) = ''passenger''
              \<and> int64 (otherLoad (ActiveContracts (PlayerShip s))
                  + Quantity (AvailableContracts s (LocationKey (PlayerShip s)) ! i))
                  > PassengerSlots (PlayerShip s))
         \<and> snd (HandleAcceptContract req s) =
             s\<lparr>PlayerShip := (PlayerShip s)\<lparr>ActiveContracts :=
                    ActiveContracts (PlayerShip s) @ [AvailableContracts s (LocationKey (PlayerShip s)) ! i]\<rparr>,
               AvailableContracts := (AvailableContracts s)(LocationKey (PlayerShip s) :=
                    removeAt i (AvailableContracts s (LocationKey (PlayerShip s)))),
               Market := RecordAcceptance (Market s)
                    (OriginKey (AvailableContracts s (LocationKey (PlayerShip s)) ! i))
                    (ItemKey (AvailableContracts s (LocationKey (PlayerShip s)) ! i))
                    (Quantity (AvailableContracts s (LocationKey (PlayerShip s)) ! i))\<rparr>"
  then obtain cid i m where
    f: "findIdx cid board = Some i"
    and s': "snd (HandleAcceptContract req s) =
             s\<lparr>PlayerShip := (PlayerShip s)\<lparr>ActiveContracts := ActiveContracts (PlayerShip s) @ [board ! i]\<rparr>,
               AvailableContracts := (AvailableContracts s)(loc := removeAt i board),
               Market := m\<rparr>"
    unfolding board_def loc_def by blast
  from findIdx_Some [OF f] have i: "i < length board" by simp
  have inb: "board ! i \<in> set board" using i by simp
  from u have d1: "distinct (map ID (ActiveContracts (PlayerShip s)))"
    and d2: "\<And>k. distinct (map ID (AvailableContracts s k))"
    and d3: "\<And>k k'. k \<noteq> k' \<Longrightarrow>
           ID ` set (AvailableContracts s k) \<inter> ID ` set (AvailableContracts s k') = {}"
    and d4: "\<And>k. ID ` set (ActiveContracts (PlayerShip s)) \<inter> ID ` set (AvailableContracts s k) = {}"
    by (simp_all add: uniqueIds_def)
  have t1: "ID (board ! i) \<notin> ID ` set (ActiveContracts (PlayerShip s))"
    using d4 [of loc] inb by (auto simp: board_def)
  have t2: "ID (board ! i) \<notin> ID ` set (removeAt i board)"
    using removeAt_ids [of ID board i] d2 [of loc] i by (simp add: board_def)
  have t3: "ID (board ! i) \<notin> ID ` set (AvailableContracts s k)" if "k \<noteq> loc" for k
    using d3 [of k loc] that inb by (auto simp: board_def)
  have sub: "set (removeAt i board) \<subseteq> set (AvailableContracts s loc)"
    using removeAt_set [of i board] by (simp add: board_def)
  show ?thesis
    unfolding s' uniqueIds_def
  proof (intro conjI allI impI)
    show "distinct (map ID (ActiveContracts (PlayerShip (s\<lparr>PlayerShip := (PlayerShip s)\<lparr>ActiveContracts := ActiveContracts (PlayerShip s) @ [board ! i]\<rparr>,
               AvailableContracts := (AvailableContracts s)(loc := removeAt i board),
               Market := m\<rparr>))))"
      using d1 t1 by simp
  next
    fix k
    show "distinct (map ID (AvailableContracts (s\<lparr>PlayerShip := (PlayerShip s)\<lparr>ActiveContracts := ActiveContracts (PlayerShip s) @ [board ! i]\<rparr>,
               AvailableContracts := (AvailableContracts s)(loc := removeAt i board),
               Market := m\<rparr>) k))"
      using d2 [of k] removeAt_distinct [of ID board i] d2 [of loc] by (simp add: board_def)
  next
    fix k k' :: string
    assume "k \<noteq> k'"
    then show "ID ` set (AvailableContracts (s\<lparr>PlayerShip := (PlayerShip s)\<lparr>ActiveContracts := ActiveContracts (PlayerShip s) @ [board ! i]\<rparr>,
               AvailableContracts := (AvailableContracts s)(loc := removeAt i board),
               Market := m\<rparr>) k) \<inter>
          ID ` set (AvailableContracts (s\<lparr>PlayerShip := (PlayerShip s)\<lparr>ActiveContracts := ActiveContracts (PlayerShip s) @ [board ! i]\<rparr>,
               AvailableContracts := (AvailableContracts s)(loc := removeAt i board),
               Market := m\<rparr>) k') = {}"
      using d3 [of k k'] sub by (auto simp: disjoint_iff)
  next
    fix k
    show "ID ` set (ActiveContracts (PlayerShip (s\<lparr>PlayerShip := (PlayerShip s)\<lparr>ActiveContracts := ActiveContracts (PlayerShip s) @ [board ! i]\<rparr>,
               AvailableContracts := (AvailableContracts s)(loc := removeAt i board),
               Market := m\<rparr>))) \<inter>
          ID ` set (AvailableContracts (s\<lparr>PlayerShip := (PlayerShip s)\<lparr>ActiveContracts := ActiveContracts (PlayerShip s) @ [board ! i]\<rparr>,
               AvailableContracts := (AvailableContracts s)(loc := removeAt i board),
               Market := m\<rparr>) k) = {}"
    proof (cases "k = loc")
      case True
      then show ?thesis
        using d4 [of loc] t2 sub by (auto simp: disjoint_iff)
    next
      case False
      then show ?thesis
        using d4 [of k] t3 [of k] by (auto simp: disjoint_iff)
    qed
  qed
qed

lemma uniqueIds_drop:
  assumes u: "uniqueIds s"
  shows "uniqueIds (snd (HandleDropContract req s))"
  using drop_result [of req s]
proof (elim disjE exE)
  assume "snd (HandleDropContract req s) = s"
  with u show ?thesis by simp
next
  fix i
  assume e: "snd (HandleDropContract req s) =
             s\<lparr>PlayerShip := (PlayerShip s)\<lparr>ActiveContracts :=
                    removeAt i (ActiveContracts (PlayerShip s))\<rparr>\<rparr>"
  show ?thesis
    unfolding e
  proof (rule uniqueIds_shrink [OF u])
    show "distinct (map ID (ActiveContracts (PlayerShip (s\<lparr>PlayerShip := (PlayerShip s)\<lparr>ActiveContracts :=
                    removeAt i (ActiveContracts (PlayerShip s))\<rparr>\<rparr>))))"
      using u by (simp add: uniqueIds_def removeAt_distinct)
  qed (simp_all add: removeAt_set)
qed

lemma uniqueIds_travel:
  assumes u: "uniqueIds s"
  shows "uniqueIds (snd (HandleTravel u' req s))"
  using travel_result [of u' req s]
proof (elim disjE exE)
  assume "snd (HandleTravel u' req s) = s"
  with u show ?thesis by simp
next
  fix fuel loc credits m
  assume e: "snd (HandleTravel u' req s) =
         s\<lparr>PlayerShip := (PlayerShip s)\<lparr>Fuel := fuel, LocationKey := loc,
               ActiveContracts := filter (\<lambda>c. DestinationKey c \<noteq> loc) (ActiveContracts (PlayerShip s)),
               Credits := credits\<rparr>,
           Market := m\<rparr>"
  show ?thesis
    unfolding e
  proof (rule uniqueIds_shrink [OF u])
    show "distinct (map ID (ActiveContracts (PlayerShip (s\<lparr>PlayerShip := (PlayerShip s)\<lparr>Fuel := fuel, LocationKey := loc,
               ActiveContracts := filter (\<lambda>c. DestinationKey c \<noteq> loc) (ActiveContracts (PlayerShip s)),
               Credits := credits\<rparr>,
           Market := m\<rparr>))))"
      using u by (simp add: uniqueIds_def distinct_map_filter)
  qed simp_all
qed

lemma uniqueIds_refuel:
  assumes u: "uniqueIds s"
  shows "uniqueIds (snd (HandleRefuel u' s))"
  using refuel_result [of u' s]
proof (elim disjE exE)
  assume "snd (HandleRefuel u' s) = s"
  with u show ?thesis by simp
next
  fix credits fuel
  assume e: "snd (HandleRefuel u' s) =
         s\<lparr>PlayerShip := (PlayerShip s)\<lparr>Credits := credits, Fuel := fuel\<rparr>\<rparr>"
  show ?thesis
    unfolding e using u by (intro uniqueIds_shrink [OF u]) (simp_all add: uniqueIds_def)
qed

lemma uniqueIds_buy:
  assumes u: "uniqueIds s"
  shows "uniqueIds (snd (HandleBuyModule u' req s))"
  using buy_result [of u' req s]
proof (elim disjE exE conjE)
  assume "snd (HandleBuyModule u' req s) = s"
  with u show ?thesis by simp
next
  fix md credits
  assume e: "snd (HandleBuyModule u' req s) =
         s\<lparr>PlayerShip := applyModule md ((PlayerShip s)\<lparr>Credits := credits,
               InstalledModules := InstalledModules (PlayerShip s) @ [md]\<rparr>)\<rparr>"
  show ?thesis
    unfolding e using u
    by (intro uniqueIds_shrink [OF u]) (simp_all add: uniqueIds_def applyModule_contracts)
qed

subsection \<open>All contracts are generated ones\<close>

lemma wellStocked_shrink:
  assumes "wellStocked s" "AvailableContracts s' = AvailableContracts s"
    "set (ActiveContracts (PlayerShip s')) \<subseteq> set (ActiveContracts (PlayerShip s))"
  shows "wellStocked s'"
  using assms unfolding wellStocked_def by auto

lemma wellStocked_accept:
  assumes w: "wellStocked s"
  shows "wellStocked (snd (HandleAcceptContract req s))"
  using accept_result [of req s]
proof (elim disjE exE conjE)
  assume "snd (HandleAcceptContract req s) = s"
  with w show ?thesis by simp
next
  fix cid i
  assume f: "findIdx cid (AvailableContracts s (LocationKey (PlayerShip s))) = Some i"
    and e: "snd (HandleAcceptContract req s) =
             s\<lparr>PlayerShip := (PlayerShip s)\<lparr>ActiveContracts :=
                    ActiveContracts (PlayerShip s) @ [AvailableContracts s (LocationKey (PlayerShip s)) ! i]\<rparr>,
               AvailableContracts := (AvailableContracts s)(LocationKey (PlayerShip s) :=
                    removeAt i (AvailableContracts s (LocationKey (PlayerShip s)))),
               Market := RecordAcceptance (Market s)
                    (OriginKey (AvailableContracts s (LocationKey (PlayerShip s)) ! i))
                    (ItemKey (AvailableContracts s (LocationKey (PlayerShip s)) ! i))
                    (Quantity (AvailableContracts s (LocationKey (PlayerShip s)) ! i))\<rparr>"
  from findIdx_Some [OF f] have "AvailableContracts s (LocationKey (PlayerShip s)) ! i
      \<in> set (AvailableContracts s (LocationKey (PlayerShip s)))"
    by simp
  with w have g: "generated (AvailableContracts s (LocationKey (PlayerShip s)) ! i)"
    by (simp add: wellStocked_def)
  show ?thesis
    unfolding e using w g removeAt_set [of i "AvailableContracts s (LocationKey (PlayerShip s))"]
    by (auto simp: wellStocked_def)
qed

lemma wellStocked_drop: "wellStocked s \<Longrightarrow> wellStocked (snd (HandleDropContract req s))"
  using drop_result [of req s]
  by (elim disjE exE) (auto intro!: wellStocked_shrink [of s] dest: subsetD [OF removeAt_set])

lemma wellStocked_travel: "wellStocked s \<Longrightarrow> wellStocked (snd (HandleTravel u req s))"
  using travel_result [of u req s]
  by (elim disjE exE) (auto intro!: wellStocked_shrink [of s])

lemma wellStocked_refuel: "wellStocked s \<Longrightarrow> wellStocked (snd (HandleRefuel u s))"
  using refuel_result [of u s]
  by (elim disjE exE) (auto intro!: wellStocked_shrink [of s])

lemma wellStocked_buy: "wellStocked s \<Longrightarrow> wellStocked (snd (HandleBuyModule u req s))"
  using buy_result [of u req s]
  by (elim disjE exE conjE) (auto intro!: wellStocked_shrink [of s] simp: applyModule_contracts)

lemma wellStocked_load: "wellStocked s \<Longrightarrow> wellStocked (LoadConfig u s)"
  using LoadConfig_result [of u s] by (auto simp: wellStocked_def)

lemma wellStocked_grows: "wellStocked s \<Longrightarrow> grows s s' \<Longrightarrow> wellStocked s'"
  unfolding wellStocked_def grows_def by (metis Un_iff set_append)

lemma wellStocked_tick: "wellStocked (MarketTick s) = wellStocked s"
  by (simp add: wellStocked_def MarketTick_def)

lemma wellStocked_zero: "wellStocked zeroState"
  by (simp add: wellStocked_def zeroState_def zeroShip_def)

lemma reachable_wellStocked: "gameReachable ok u s \<Longrightarrow> wellStocked s"
proof (induction rule: gameReachable.induct)
  case (boot u)
  then show ?case by (simp add: wellStocked_load wellStocked_zero)
next
  case (replenish u s t updatedPlanets s' t')
  from ReplenishMarket_grows [OF replenish.hyps(2)] replenish.IH show ?case
    using wellStocked_grows wellStocked_tick by blast
qed (simp_all add: wellStocked_load wellStocked_accept wellStocked_drop wellStocked_travel
      wellStocked_refuel wellStocked_buy)

subsection \<open>The capacity invariant is preserved\<close>

lemma withinCapacity_shrink:
  assumes "withinCapacity ship" "\<forall>c \<in> set (ActiveContracts ship). generated c"
    "CargoCapacity ship \<le> CargoCapacity ship'" "PassengerSlots ship \<le> PassengerSlots ship'"
    "cargoLoad (ActiveContracts ship') \<le> cargoLoad (ActiveContracts ship)"
    "passengerLoad (ActiveContracts ship') \<le> passengerLoad (ActiveContracts ship)"
  shows "withinCapacity ship'"
  using assms unfolding withinCapacity_def by linarith

lemma loads_removeAt:
  assumes "\<forall>c \<in> set acs. generated c"
  shows "cargoLoad (removeAt i acs) \<le> cargoLoad acs" "passengerLoad (removeAt i acs) \<le> passengerLoad acs"
  using assms sum_removeAt_le [of acs _ i] generated_nonneg
  by (simp_all add: cargoLoad_def passengerLoad_def)

lemma loads_filter:
  assumes "\<forall>c \<in> set acs. generated c"
  shows "cargoLoad (filter Q acs) \<le> cargoLoad acs" "passengerLoad (filter Q acs) \<le> passengerLoad acs"
  using assms sum_filter_le [of acs _ Q] generated_nonneg
  by (simp_all add: cargoLoad_def passengerLoad_def)

lemma loads_nonneg:
  assumes "\<forall>c \<in> set acs. generated c"
  shows "0 \<le> cargoLoad acs" "0 \<le> passengerLoad acs"
  using assms generated_nonneg by (auto simp: cargoLoad_def passengerLoad_def intro!: sum_list_nonneg)

lemma roomy_bounds:
  assumes "roomy limit ship"
  shows "CargoCapacity ship + 25 < 2 ^ 63" "PassengerSlots ship + 1 < 2 ^ 63"
proof -
  define k where "k = max 0 (MaxModuleSlots ship - int (length (InstalledModules ship))) * limit"
  have "0 \<le> k"
    using assms by (simp add: roomy_def k_def)
  moreover from assms have "CargoCapacity ship + k + 25 < 2 ^ 63" "PassengerSlots ship + k + 1 < 2 ^ 63"
    by (simp_all add: roomy_def k_def)
  ultimately show "CargoCapacity ship + 25 < 2 ^ 63" "PassengerSlots ship + 1 < 2 ^ 63"
    by linarith+
qed

lemma roomy_cong:
  "CargoCapacity ship' = CargoCapacity ship \<Longrightarrow> PassengerSlots ship' = PassengerSlots ship \<Longrightarrow>
   MaxModuleSlots ship' = MaxModuleSlots ship \<Longrightarrow> InstalledModules ship' = InstalledModules ship \<Longrightarrow>
   roomy limit ship' = roomy limit ship"
  by (simp add: roomy_def)

lemma capacity_accept:
  assumes w: "wellStocked s" and c: "withinCapacity (PlayerShip s)" and r: "roomy limit (PlayerShip s)"
  shows "withinCapacity (PlayerShip (snd (HandleAcceptContract req s)))"
  using accept_result [of req s]
proof (elim disjE exE conjE)
  assume "snd (HandleAcceptContract req s) = s"
  with c show ?thesis by simp
next
  fix cid i
  define target where "target = AvailableContracts s (LocationKey (PlayerShip s)) ! i"
  assume f: "findIdx cid (AvailableContracts s (LocationKey (PlayerShip s))) = Some i"
    and n1: "\<not> (Type (AvailableContracts s (LocationKey (PlayerShip s)) ! i) = ''cargo''
              \<and> int64 (cargoLoad (ActiveContracts (PlayerShip s))
                  + Quantity (AvailableContracts s (LocationKey (PlayerShip s)) ! i))
                  > CargoCapacity (PlayerShip s))"
    and n2: "\<not> (Type (AvailableContracts s (LocationKey (PlayerShip s)) ! i) = ''passenger''
              \<and> int64 (otherLoad (ActiveContracts (PlayerShip s))
                  + Quantity (AvailableContracts s (LocationKey (PlayerShip s)) ! i))
                  > PassengerSlots (PlayerShip s))"
    and e: "snd (HandleAcceptContract req s) =
             s\<lparr>PlayerShip := (PlayerShip s)\<lparr>ActiveContracts :=
                    ActiveContracts (PlayerShip s) @ [AvailableContracts s (LocationKey (PlayerShip s)) ! i]\<rparr>,
               AvailableContracts := (AvailableContracts s)(LocationKey (PlayerShip s) :=
                    removeAt i (AvailableContracts s (LocationKey (PlayerShip s)))),
               Market := RecordAcceptance (Market s)
                    (OriginKey (AvailableContracts s (LocationKey (PlayerShip s)) ! i))
                    (ItemKey (AvailableContracts s (LocationKey (PlayerShip s)) ! i))
                    (Quantity (AvailableContracts s (LocationKey (PlayerShip s)) ! i))\<rparr>"
  have g: "\<forall>c \<in> set (ActiveContracts (PlayerShip s)). generated c"
    using w by (simp add: wellStocked_def)
  have o: "otherLoad (ActiveContracts (PlayerShip s)) = passengerLoad (ActiveContracts (PlayerShip s))"
    using g by (rule generated_others)
  from findIdx_Some [OF f] have "target \<in> set (AvailableContracts s (LocationKey (PlayerShip s)))"
    by (simp add: target_def)
  with w have t: "generated target"
    by (simp add: wellStocked_def)
  note b = roomy_bounds [OF r] loads_nonneg [OF g]
  have "cargoLoad (ActiveContracts (PlayerShip s)) + Quantity target \<le> CargoCapacity (PlayerShip s)"
    if "Type target = ''cargo''"
  proof -
    have "isInt64 (cargoLoad (ActiveContracts (PlayerShip s)) + Quantity target)"
      using that t b c by (auto simp: isInt64_def generated_def withinCapacity_def)
    with n1 that show ?thesis
      by (simp add: int64_id target_def)
  qed
  moreover have "passengerLoad (ActiveContracts (PlayerShip s)) + Quantity target
                   \<le> PassengerSlots (PlayerShip s)"
    if "Type target = ''passenger''"
  proof -
    have "isInt64 (passengerLoad (ActiveContracts (PlayerShip s)) + Quantity target)"
      using that t b c by (auto simp: isInt64_def generated_def withinCapacity_def)
    with n2 that show ?thesis
      by (simp add: int64_id target_def o)
  qed
  ultimately show ?thesis
    unfolding e using c by (auto simp: withinCapacity_def loads_append target_def)
qed

lemma capacity_drop:
  assumes w: "wellStocked s" and c: "withinCapacity (PlayerShip s)"
  shows "withinCapacity (PlayerShip (snd (HandleDropContract req s)))"
  using drop_result [of req s]
proof (elim disjE exE)
  assume "snd (HandleDropContract req s) = s"
  with c show ?thesis by simp
next
  fix i
  assume e: "snd (HandleDropContract req s) =
             s\<lparr>PlayerShip := (PlayerShip s)\<lparr>ActiveContracts :=
                    removeAt i (ActiveContracts (PlayerShip s))\<rparr>\<rparr>"
  have g: "\<forall>c \<in> set (ActiveContracts (PlayerShip s)). generated c"
    using w by (simp add: wellStocked_def)
  show ?thesis
    unfolding e using loads_removeAt [OF g, of i]
    by (intro withinCapacity_shrink [OF c g]) simp_all
qed

lemma capacity_travel:
  assumes w: "wellStocked s" and c: "withinCapacity (PlayerShip s)"
  shows "withinCapacity (PlayerShip (snd (HandleTravel u req s)))"
  using travel_result [of u req s]
proof (elim disjE exE)
  assume "snd (HandleTravel u req s) = s"
  with c show ?thesis by simp
next
  fix fuel loc credits m
  assume e: "snd (HandleTravel u req s) =
         s\<lparr>PlayerShip := (PlayerShip s)\<lparr>Fuel := fuel, LocationKey := loc,
               ActiveContracts := filter (\<lambda>c. DestinationKey c \<noteq> loc) (ActiveContracts (PlayerShip s)),
               Credits := credits\<rparr>,
           Market := m\<rparr>"
  have g: "\<forall>c \<in> set (ActiveContracts (PlayerShip s)). generated c"
    using w by (simp add: wellStocked_def)
  show ?thesis
    unfolding e using loads_filter [OF g, of "\<lambda>c. DestinationKey c \<noteq> loc"]
    by (intro withinCapacity_shrink [OF c g]) simp_all
qed

lemma capacity_refuel:
  "withinCapacity (PlayerShip s) \<Longrightarrow> withinCapacity (PlayerShip (snd (HandleRefuel u s)))"
  using refuel_result [of u s]
  by (elim disjE exE) (auto simp: withinCapacity_def)

lemma roomy_accept: "roomy limit (PlayerShip (snd (HandleAcceptContract req s))) = roomy limit (PlayerShip s)"
  using accept_result [of req s] by (elim disjE exE conjE) (simp_all add: roomy_def)

lemma roomy_drop: "roomy limit (PlayerShip (snd (HandleDropContract req s))) = roomy limit (PlayerShip s)"
  using drop_result [of req s] by (elim disjE exE) (simp_all add: roomy_def)

lemma roomy_travel: "roomy limit (PlayerShip (snd (HandleTravel u req s))) = roomy limit (PlayerShip s)"
  using travel_result [of u req s] by (elim disjE exE) (simp_all add: roomy_def)

lemma roomy_refuel: "roomy limit (PlayerShip (snd (HandleRefuel u s))) = roomy limit (PlayerShip s)"
  using refuel_result [of u s] by (elim disjE exE) (simp_all add: roomy_def)

lemma capacity_buy:
  assumes k: "capacityConfig limit u" and w: "wellStocked s"
    and c: "withinCapacity (PlayerShip s)" and r: "roomy limit (PlayerShip s)"
  shows "withinCapacity (PlayerShip (snd (HandleBuyModule u req s)))
       \<and> roomy limit (PlayerShip (snd (HandleBuyModule u req s)))"
  using buy_result [of u req s]
proof (elim disjE exE conjE)
  assume "snd (HandleBuyModule u req s) = s"
  with c r show ?thesis by simp
next
  fix md credits
  define ship where "ship = (PlayerShip s)\<lparr>Credits := credits,
               InstalledModules := InstalledModules (PlayerShip s) @ [md]\<rparr>"
  define free where "free = MaxModuleSlots (PlayerShip s) - int (length (InstalledModules (PlayerShip s)))"
  assume m: "md \<in> set (ShipModules u)"
    and slot: "int (length (InstalledModules (PlayerShip s))) < MaxModuleSlots (PlayerShip s)"
    and e: "snd (HandleBuyModule u req s) =
         s\<lparr>PlayerShip := applyModule md ((PlayerShip s)\<lparr>Credits := credits,
               InstalledModules := InstalledModules (PlayerShip s) @ [md]\<rparr>)\<rparr>"
  from k m have v: "0 \<le> StatValue md" "StatValue md \<le> limit" and l: "0 \<le> limit"
    by (simp_all add: capacityConfig_def)
  have g: "\<forall>c \<in> set (ActiveContracts (PlayerShip s)). generated c"
    using w by (simp add: wellStocked_def)
  from c loads_nonneg [OF g] have nn: "0 \<le> CargoCapacity (PlayerShip s)" "0 \<le> PassengerSlots (PlayerShip s)"
    by (simp_all add: withinCapacity_def)
  have free: "1 \<le> free"
    using slot by (simp add: free_def)
  have split: "free * limit = (free - 1) * limit + limit"
    by (simp add: algebra_simps)
  have pos: "0 \<le> (free - 1) * limit"
    using free l by simp
  from r free have room: "CargoCapacity (PlayerShip s) + free * limit + 25 < 2 ^ 63"
    "PassengerSlots (PlayerShip s) + free * limit + 1 < 2 ^ 63"
    by (simp_all add: roomy_def free_def max_def)
  have fit: "isInt64 (CargoCapacity ship + StatValue md)" "isInt64 (PassengerSlots ship + StatValue md)"
    using room split pos v nn by (simp_all add: isInt64_def ship_def)
  note a = applyModule_capacity [OF fit]
  have f1: "max 0 (MaxModuleSlots (applyModule md ship) - int (length (InstalledModules (applyModule md ship))))
             = free - 1"
    using free by (simp add: applyModule_fields ship_def free_def)
  have within: "withinCapacity (applyModule md ship)"
    using c v by (simp add: withinCapacity_def a applyModule_contracts) (simp add: ship_def)
  have "CargoCapacity (applyModule md ship) \<le> CargoCapacity (PlayerShip s) + limit"
    "PassengerSlots (applyModule md ship) \<le> PassengerSlots (PlayerShip s) + limit"
    using v l by (simp_all add: a) (simp_all add: ship_def)
  with room split have "roomy limit (applyModule md ship)"
    unfolding roomy_def f1 using l by linarith
  with within show ?thesis
    unfolding e ship_def by simp
qed

lemma capacity_load:
  assumes k: "capacityConfig limit u" and c: "withinCapacity (PlayerShip s)"
    and r: "roomy limit (PlayerShip s)"
  shows "withinCapacity (PlayerShip (LoadConfig u s)) \<and> roomy limit (PlayerShip (LoadConfig u s))"
  using LoadConfig_result [of u s] k c r
  by (auto simp: withinCapacity_def capacityConfig_def cargoLoad_def passengerLoad_def roomy_def)

lemma capacity_boot:
  assumes k: "capacityConfig limit u"
  shows "withinCapacity (PlayerShip (LoadConfig u zeroState))
       \<and> roomy limit (PlayerShip (LoadConfig u zeroState))"
  using k
  by (simp add: LoadConfig_def zeroState_def zeroShip_def Let_def withinCapacity_def
      capacityConfig_def cargoLoad_def passengerLoad_def roomy_def)

lemma reachable_config: "gameReachable ok u s \<Longrightarrow> ok u"
  by (induction rule: gameReachable.induct) simp_all

lemma reachable_withinCapacity:
  "gameReachable (capacityConfig limit) u s \<Longrightarrow>
   withinCapacity (PlayerShip s) \<and> roomy limit (PlayerShip s)"
proof (induction rule: gameReachable.induct)
  case (boot u)
  then show ?case by (rule capacity_boot)
next
  case (reload u s u')
  then show ?case by (simp add: capacity_load)
next
  case (accept u s req)
  from accept.IH have c: "withinCapacity (PlayerShip s)" and r: "roomy limit (PlayerShip s)"
    by simp_all
  from capacity_accept [OF reachable_wellStocked [OF accept.hyps] c r] r show ?case
    by (simp add: roomy_accept)
next
  case (drop u s req)
  then show ?case by (simp add: capacity_drop roomy_drop reachable_wellStocked)
next
  case (travel u s req)
  then show ?case by (simp add: capacity_travel roomy_travel reachable_wellStocked)
next
  case (refuel u s)
  then show ?case by (simp add: capacity_refuel roomy_refuel)
next
  case (buy u s req)
  have "capacityConfig limit u"
    using buy.hyps by (rule reachable_config)
  then show ?case
    using buy.IH reachable_wellStocked [OF buy.hyps] by (simp add: capacity_buy)
next
  case (replenish u s t updatedPlanets s' t')
  from ReplenishMarket_grows [OF replenish.hyps(2)] have "PlayerShip s' = PlayerShip s"
    by (simp add: grows_def MarketTick_def)
  with replenish.IH show ?case by simp
qed

subsection \<open>The generator reads the catalog, not the module list\<close>

lemma stripFields:
  "Planets stripUniverse = Planets exUniverse" "Commodities stripUniverse = Commodities exUniverse"
  "BalanceConfig stripUniverse = BalanceConfig exUniverse"
  "PassengerConfig stripUniverse = PassengerConfig exUniverse"
  "PlayerShipConfig stripUniverse = PlayerShipConfig exUniverse"
  "ShipModules stripUniverse = [exStripper, exBulk]"
  by (simp_all add: stripUniverse_def)

lemma strip_cargo_job: "generateCargoJob stripUniverse = generateCargoJob exUniverse"
  by (intro ext)
    (simp add: generateCargoJob_def pickCommodity_def GetCommodity_def cargoPayout_def stripFields
       cong: if_cong option.case_cong)

lemma strip_cargo_jobs:
  "generateCargoJobs stripUniverse origin n = generateCargoJobs exUniverse origin n"
proof (induction n)
  case 0
  show ?case by (intro ext) simp
next
  case (Suc n)
  show ?case by (intro ext) (simp add: strip_cargo_job Suc)
qed

lemma strip_pax_job: "generatePassengerJob stripUniverse = generatePassengerJob exUniverse"
  by (intro ext) (simp add: generatePassengerJob_def stripFields cong: if_cong)

lemma strip_pax_jobs:
  "generatePassengerJobs stripUniverse origin n = generatePassengerJobs exUniverse origin n"
proof (induction n)
  case 0
  show ?case by (intro ext) simp
next
  case (Suc n)
  show ?case by (intro ext) (simp add: strip_pax_job Suc)
qed

lemma strip_planets:
  "replenishPlanets stripUniverse ps = replenishPlanets exUniverse ps"
proof (induction ps)
  case Nil
  show ?case by (intro ext) simp
next
  case (Cons origin ps)
  have c: "replenishCargo stripUniverse origin = replenishCargo exUniverse origin"
    by (intro ext) (simp add: replenishCargo_def strip_cargo_jobs cong: if_cong split: prod.splits)
  have p: "replenishPassengers stripUniverse origin = replenishPassengers exUniverse origin"
    by (intro ext) (simp add: replenishPassengers_def strip_pax_jobs cong: if_cong split: prod.splits)
  show ?case by (intro ext) (simp add: c p Cons.IH)
qed

lemma strip_replenish: "ReplenishMarket stripUniverse s t = ReplenishMarket exUniverse s t"
  by (simp add: ReplenishMarket_def strip_planets stripFields)

lemma strip_load: "LoadConfig stripUniverse s = LoadConfig exUniverse s"
  by (simp add: LoadConfig_def InitMarket_def stripFields Let_def cong: if_cong)

subsection \<open>The example run, continued\<close>

lemma exJob_fields: "ID exJob = ''CRG-7-42''" "Type exJob = ''cargo''" "Quantity exJob = 25"
  by (simp_all add: exJob_def)

lemma loadedState_fields:
  "PlayerShip loadedState = exShip\<lparr>Fuel := 1000, ActiveContracts := [exJob]\<rparr>"
  "AvailableContracts loadedState
     = (\<lambda>_. [])(''planet_outer'' := [exTicket], ''planet_prime'' := [exJob])"
  by (simp_all add: loadedState_def HandleAcceptContract_def stockedState_def bootState_eq exShip_def
      exJob_def Let_def loadCounts_def removeAt_def int64_small)

lemma loaded_reachable: "gameReachable (capacityConfig 1000) exUniverse loadedState"
proof -
  have "capacityConfig 1000 exUniverse"
    by (simp add: capacityConfig_def exUniverse_def exShip_def)
  then have "gameReachable (capacityConfig 1000) exUniverse bootState"
    unfolding bootState_def by (rule gameReachable.boot)
  then have "gameReachable (capacityConfig 1000) exUniverse stockedState"
    using twin_run by (rule gameReachable.replenish)
  then show ?thesis
    unfolding loadedState_def by (rule gameReachable.accept)
qed

text \<open>
  C1, as stated, fails after a module purchase: in the example universe with a module
  that lowers the cargo capacity by 20, the ship loads a 25-unit cargo contract within
  its capacity of 30 and then buys the module; the load of 25 now exceeds the capacity
  of 10. It also fails, with an empty hold, when a module raises the capacity out of
  the range of \<open>int\<close>: \<open>30 + (2^63 - 1)\<close> is reduced to a negative capacity.
\<close>

theorem capacity_module_counterexample:
  "LoadConfig stripUniverse zeroState = bootState
   \<and> ReplenishMarket stripUniverse bootState twinTape
       = Done ([''planet_prime'', ''planet_outer''], stockedState, [])
   \<and> snd (HandleAcceptContract (Some ''CRG-7-42'') stockedState) = loadedState
   \<and> withinCapacity (PlayerShip loadedState)
   \<and> \<not> withinCapacity (PlayerShip (snd (HandleBuyModule stripUniverse (Some ''mod_stripped_hold'') loadedState)))
   \<and> withinCapacity (PlayerShip bootState)
   \<and> CargoCapacity (PlayerShip (snd (HandleBuyModule stripUniverse (Some ''mod_bulk_hold'') bootState)))
       = - 9223372036854775779
   \<and> \<not> withinCapacity (PlayerShip (snd (HandleBuyModule stripUniverse (Some ''mod_bulk_hold'') bootState)))"
proof -
  have m: "GetModule stripUniverse ''mod_stripped_hold'' = Some exStripper"
    "GetModule stripUniverse ''mod_bulk_hold'' = Some exBulk"
    by (simp_all add: GetModule_def stripFields exStripper_def exBulk_def)
  have i: "int64 (30 + - 20) = 10" "int64 (30 + 9223372036854775807) = - 9223372036854775779"
    "int64 1000 = 1000"
    by (simp_all add: int64_def)
  have w: "withinCapacity (PlayerShip loadedState)"
    by (simp add: withinCapacity_def loadedState_fields cargoLoad_def passengerLoad_def exJob_fields exShip_def)
  have b: "\<not> withinCapacity (PlayerShip (snd (HandleBuyModule stripUniverse (Some ''mod_stripped_hold'') loadedState)))"
    using i
    by (simp add: HandleBuyModule_def m loadedState_fields Let_def applyModule_def exStripper_def
        withinCapacity_def cargoLoad_def exJob_fields exShip_def)
  have w0: "withinCapacity (PlayerShip bootState)"
    by (simp add: withinCapacity_def bootState_eq cargoLoad_def passengerLoad_def exShip_def)
  have c: "CargoCapacity (PlayerShip (snd (HandleBuyModule stripUniverse (Some ''mod_bulk_hold'') bootState)))
       = - 9223372036854775779"
    using i
    by (simp add: HandleBuyModule_def m bootState_eq Let_def applyModule_def exBulk_def exShip_def)
  have a0: "ActiveContracts (PlayerShip (snd (HandleBuyModule stripUniverse (Some ''mod_bulk_hold'') bootState))) = []"
    by (simp add: HandleBuyModule_def m bootState_eq Let_def applyModule_contracts exBulk_def exShip_def)
  have b0: "\<not> withinCapacity (PlayerShip (snd (HandleBuyModule stripUniverse (Some ''mod_bulk_hold'') bootState)))"
    by (simp add: withinCapacity_def c a0 cargoLoad_def)
  have l: "LoadConfig stripUniverse zeroState = bootState"
    by (simp add: strip_load bootState_def)
  have r: "ReplenishMarket stripUniverse bootState twinTape
       = Done ([''planet_prime'', ''planet_outer''], stockedState, [])"
    by (simp add: strip_replenish twin_run)
  have a: "snd (HandleAcceptContract (Some ''CRG-7-42'') stockedState) = loadedState"
    by (simp add: loadedState_def)
  from l r a w b w0 c b0 show ?thesis
    by (intro conjI)
qed

text \<open>
  C1 (amended). Accept-contract enforces the capacities in every state: a contract
  found on the board of the ship's location is answered 409 (insufficient cargo space
  or passenger slots), with the whole state, the active contracts and the board
  included, unchanged, when the load of its type plus its quantity, reduced to \<open>int\<close>,
  exceeds the capacity of its type; the load the handler compares a passenger contract
  with is that of all contracts that are not cargo. In every state reached from the
  first load by reloads, requests and replenishments, as long as every loaded
  configuration has a ship template without negative capacities, no module that
  lowers a capacity, and room for its modules within the range of \<open>int\<close>
  (\<open>capacityConfig\<close>), the quantities of the active cargo contracts sum to at most
  \<open>CargoCapacity\<close> and those of the active passenger contracts to at most
  \<open>PassengerSlots\<close>; accept-contract keeps this, and there an acceptance whose
  quantity exceeds the remaining capacity of its type is answered 409 with the whole
  state unchanged.
\<close>

theorem capacity_enforced:
  "(findIdx cid (AvailableContracts s (LocationKey (PlayerShip s))) = Some i
      \<and> Type (AvailableContracts s (LocationKey (PlayerShip s)) ! i) = ''cargo''
      \<and> CargoCapacity (PlayerShip s)
          < int64 (cargoLoad (ActiveContracts (PlayerShip s))
                   + Quantity (AvailableContracts s (LocationKey (PlayerShip s)) ! i))
    \<longrightarrow> HandleAcceptContract (Some cid) s = (Error ''Insufficient Cargo Space'' StatusConflict, s))
   \<and> (findIdx cid (AvailableContracts s (LocationKey (PlayerShip s))) = Some i
      \<and> Type (AvailableContracts s (LocationKey (PlayerShip s)) ! i) = ''passenger''
      \<and> PassengerSlots (PlayerShip s)
          < int64 (otherLoad (ActiveContracts (PlayerShip s))
                   + Quantity (AvailableContracts s (LocationKey (PlayerShip s)) ! i))
    \<longrightarrow> HandleAcceptContract (Some cid) s = (Error ''Insufficient Passenger Slots'' StatusConflict, s))
   \<and> (gameReachable (capacityConfig limit) u s \<longrightarrow>
        withinCapacity (PlayerShip s)
      \<and> withinCapacity (PlayerShip (snd (HandleAcceptContract req s)))
      \<and> (findIdx cid (AvailableContracts s (LocationKey (PlayerShip s))) = Some i
          \<and> Type (AvailableContracts s (LocationKey (PlayerShip s)) ! i) = ''cargo''
          \<and> CargoCapacity (PlayerShip s) - cargoLoad (ActiveContracts (PlayerShip s))
              < Quantity (AvailableContracts s (LocationKey (PlayerShip s)) ! i)
        \<longrightarrow> HandleAcceptContract (Some cid) s = (Error ''Insufficient Cargo Space'' StatusConflict, s))
      \<and> (findIdx cid (AvailableContracts s (LocationKey (PlayerShip s))) = Some i
          \<and> Type (AvailableContracts s (LocationKey (PlayerShip s)) ! i) = ''passenger''
          \<and> PassengerSlots (PlayerShip s) - passengerLoad (ActiveContracts (PlayerShip s))
              < Quantity (AvailableContracts s (LocationKey (PlayerShip s)) ! i)
        \<longrightarrow> HandleAcceptContract (Some cid) s = (Error ''Insufficient Passenger Slots'' StatusConflict, s)))"
proof (intro conjI impI)
  assume "findIdx cid (AvailableContracts s (LocationKey (PlayerShip s))) = Some i
      \<and> Type (AvailableContracts s (LocationKey (PlayerShip s)) ! i) = ''cargo''
      \<and> CargoCapacity (PlayerShip s)
          < int64 (cargoLoad (ActiveContracts (PlayerShip s))
                   + Quantity (AvailableContracts s (LocationKey (PlayerShip s)) ! i))"
  then show "HandleAcceptContract (Some cid) s = (Error ''Insufficient Cargo Space'' StatusConflict, s)"
    by (simp add: accept_unfold)
next
  assume "findIdx cid (AvailableContracts s (LocationKey (PlayerShip s))) = Some i
      \<and> Type (AvailableContracts s (LocationKey (PlayerShip s)) ! i) = ''passenger''
      \<and> PassengerSlots (PlayerShip s)
          < int64 (otherLoad (ActiveContracts (PlayerShip s))
                   + Quantity (AvailableContracts s (LocationKey (PlayerShip s)) ! i))"
  then show "HandleAcceptContract (Some cid) s = (Error ''Insufficient Passenger Slots'' StatusConflict, s)"
    by (simp add: accept_unfold)
next
  assume reach: "gameReachable (capacityConfig limit) u s"
  have w: "wellStocked s"
    using reach by (rule reachable_wellStocked)
  have g: "\<forall>c \<in> set (ActiveContracts (PlayerShip s)). generated c"
    using w by (simp add: wellStocked_def)
  have o: "otherLoad (ActiveContracts (PlayerShip s)) = passengerLoad (ActiveContracts (PlayerShip s))"
    using g by (rule generated_others)
  from reachable_withinCapacity [OF reach]
  have c: "withinCapacity (PlayerShip s)" and r: "roomy limit (PlayerShip s)"
    by simp_all
  note b = roomy_bounds [OF r] loads_nonneg [OF g]
  show "withinCapacity (PlayerShip s)"
    by (rule c)
  show "withinCapacity (PlayerShip (snd (HandleAcceptContract req s)))"
    using w c r by (rule capacity_accept)
  {
    assume a: "findIdx cid (AvailableContracts s (LocationKey (PlayerShip s))) = Some i
          \<and> Type (AvailableContracts s (LocationKey (PlayerShip s)) ! i) = ''cargo''
          \<and> CargoCapacity (PlayerShip s) - cargoLoad (ActiveContracts (PlayerShip s))
              < Quantity (AvailableContracts s (LocationKey (PlayerShip s)) ! i)"
    then have "AvailableContracts s (LocationKey (PlayerShip s)) ! i
                 \<in> set (AvailableContracts s (LocationKey (PlayerShip s)))"
      using findIdx_Some [of cid "AvailableContracts s (LocationKey (PlayerShip s))" i] by simp
    with w have "generated (AvailableContracts s (LocationKey (PlayerShip s)) ! i)"
      by (simp add: wellStocked_def)
    with a b c have "isInt64 (cargoLoad (ActiveContracts (PlayerShip s))
                   + Quantity (AvailableContracts s (LocationKey (PlayerShip s)) ! i))"
      by (auto simp: isInt64_def generated_def withinCapacity_def)
    with a show "HandleAcceptContract (Some cid) s = (Error ''Insufficient Cargo Space'' StatusConflict, s)"
      by (simp add: accept_unfold int64_id)
  }
  {
    assume a: "findIdx cid (AvailableContracts s (LocationKey (PlayerShip s))) = Some i
          \<and> Type (AvailableContracts s (LocationKey (PlayerShip s)) ! i) = ''passenger''
          \<and> PassengerSlots (PlayerShip s) - passengerLoad (ActiveContracts (PlayerShip s))
              < Quantity (AvailableContracts s (LocationKey (PlayerShip s)) ! i)"
    then have "AvailableContracts s (LocationKey (PlayerShip s)) ! i
                 \<in> set (AvailableContracts s (LocationKey (PlayerShip s)))"
      using findIdx_Some [of cid "AvailableContracts s (LocationKey (PlayerShip s))" i] by simp
    with w have "generated (AvailableContracts s (LocationKey (PlayerShip s)) ! i)"
      by (simp add: wellStocked_def)
    with a b c have "isInt64 (passengerLoad (ActiveContracts (PlayerShip s))
                   + Quantity (AvailableContracts s (LocationKey (PlayerShip s)) ! i))"
      by (auto simp: isInt64_def generated_def withinCapacity_def)
    with a show "HandleAcceptContract (Some cid) s = (Error ''Insufficient Passenger Slots'' StatusConflict, s)"
      by (simp add: accept_unfold int64_id o)
  }
qed

theorem capacity_enforced_witness:
  "gameReachable (capacityConfig 1000) exUniverse loadedState
   \<and> withinCapacity (PlayerShip loadedState)
   \<and> findIdx ''CRG-7-42'' (AvailableContracts loadedState (LocationKey (PlayerShip loadedState))) = Some 0
   \<and> Type (AvailableContracts loadedState (LocationKey (PlayerShip loadedState)) ! 0) = ''cargo''
   \<and> CargoCapacity (PlayerShip loadedState) - cargoLoad (ActiveContracts (PlayerShip loadedState))
        < Quantity (AvailableContracts loadedState (LocationKey (PlayerShip loadedState)) ! 0)
   \<and> CargoCapacity (PlayerShip loadedState)
        < int64 (cargoLoad (ActiveContracts (PlayerShip loadedState))
                 + Quantity (AvailableContracts loadedState (LocationKey (PlayerShip loadedState)) ! 0))
   \<and> HandleAcceptContract (Some ''CRG-7-42'') loadedState
        = (Error ''Insufficient Cargo Space'' StatusConflict, loadedState)"
proof -
  have f: "LocationKey (PlayerShip loadedState) = ''planet_prime''"
    "CargoCapacity (PlayerShip loadedState) = 30"
    "cargoLoad (ActiveContracts (PlayerShip loadedState)) = 25"
    "AvailableContracts loadedState ''planet_prime'' = [exJob]"
    by (simp_all add: loadedState_fields exShip_def cargoLoad_def exJob_fields)
  have i: "int64 50 = 50"
    by (simp add: int64_def)
  from capacity_enforced [of "''CRG-7-42''" loadedState 0 1000 exUniverse "Some ''CRG-7-42''"]
    loaded_reachable
  show ?thesis
    by (simp add: f exJob_fields i)
qed

lemma accept_moves:
  assumes "fst (HandleAcceptContract req s) = Encode ship'"
  shows "\<exists>cid i. req = Some cid
         \<and> findIdx cid (AvailableContracts s (LocationKey (PlayerShip s))) = Some i
         \<and> ActiveContracts (PlayerShip (snd (HandleAcceptContract req s)))
             = ActiveContracts (PlayerShip s) @ [AvailableContracts s (LocationKey (PlayerShip s)) ! i]
         \<and> AvailableContracts (snd (HandleAcceptContract req s))
             = (AvailableContracts s)(LocationKey (PlayerShip s) :=
                  removeAt i (AvailableContracts s (LocationKey (PlayerShip s))))"
proof (cases req)
  case None
  with assms show ?thesis by (simp add: HandleAcceptContract_def)
next
  case (Some cid)
  show ?thesis
  proof (cases "findIdx cid (AvailableContracts s (LocationKey (PlayerShip s)))")
    case None
    with assms show ?thesis by (simp add: HandleAcceptContract_def Some)
  next
    case (Some i)
    note idx = this
    show ?thesis
    proof (cases "(Type (AvailableContracts s (LocationKey (PlayerShip s)) ! i) = ''cargo''
              \<and> int64 (cargoLoad (ActiveContracts (PlayerShip s))
                  + Quantity (AvailableContracts s (LocationKey (PlayerShip s)) ! i))
                  > CargoCapacity (PlayerShip s))
            \<or> (Type (AvailableContracts s (LocationKey (PlayerShip s)) ! i) = ''passenger''
              \<and> int64 (otherLoad (ActiveContracts (PlayerShip s))
                  + Quantity (AvailableContracts s (LocationKey (PlayerShip s)) ! i))
                  > PassengerSlots (PlayerShip s))")
      case True
      then have "\<exists>msg st. fst (HandleAcceptContract req s) = Error msg st"
        by (auto simp: \<open>req = Some cid\<close> accept_unfold [OF idx])
      with assms show ?thesis by auto
    next
      case False
      then have "snd (HandleAcceptContract req s) =
             s\<lparr>PlayerShip := (PlayerShip s)\<lparr>ActiveContracts :=
                    ActiveContracts (PlayerShip s) @ [AvailableContracts s (LocationKey (PlayerShip s)) ! i]\<rparr>,
               AvailableContracts := (AvailableContracts s)(LocationKey (PlayerShip s) :=
                    removeAt i (AvailableContracts s (LocationKey (PlayerShip s)))),
               Market := RecordAcceptance (Market s)
                    (OriginKey (AvailableContracts s (LocationKey (PlayerShip s)) ! i))
                    (ItemKey (AvailableContracts s (LocationKey (PlayerShip s)) ! i))
                    (Quantity (AvailableContracts s (LocationKey (PlayerShip s)) ! i))\<rparr>"
        by (auto simp: \<open>req = Some cid\<close> accept_unfold [OF idx])
      with idx \<open>req = Some cid\<close> show ?thesis by simp
    qed
  qed
qed

lemma drop_boards: "AvailableContracts (snd (HandleDropContract req s)) = AvailableContracts s"
  using drop_result [of req s] by (elim disjE exE) simp_all

lemma travel_boards: "AvailableContracts (snd (HandleTravel u req s)) = AvailableContracts s"
  using travel_result [of u req s] by (elim disjE exE) simp_all

lemma replenish_appends:
  assumes "ReplenishMarket u s t = Done (updatedPlanets, s', t')"
  shows "PlayerShip s' = PlayerShip s \<and> (\<forall>k. \<exists>new. AvailableContracts s' k = AvailableContracts s k @ new)"
  using ReplenishMarket_grows [OF assms] unfolding grows_def by (auto simp: MarketTick_def)

text \<open>
  C8, as stated, fails when the generator repeats an id: after the first load, a
  replenishment whose two cargo jobs get the same draws and clock reading posts the
  same contract twice; the ship accepts it, and the contract it now holds is still on
  the board of \<open>planet_prime\<close>.
\<close>

theorem twin_contract_counterexample:
  "LoadConfig exUniverse zeroState = bootState
   \<and> ReplenishMarket exUniverse bootState twinTape
       = Done ([''planet_prime'', ''planet_outer''], stockedState, [])
   \<and> snd (HandleAcceptContract (Some ''CRG-7-42'') stockedState) = loadedState
   \<and> exJob \<in> set (ActiveContracts (PlayerShip loadedState))
   \<and> exJob \<in> set (AvailableContracts loadedState ''planet_prime'')"
  by (simp add: twin_run loadedState_fields) (simp add: bootState_def loadedState_def)

text \<open>
  C8 (amended). As long as contract ids are unique (pairwise distinct aboard and on
  each board, on no two boards, and not both aboard and on a board), every request
  keeps them so, hence no contract aboard is on a board and none is on two boards: an
  acceptance moves the contract found on the board of the ship's location to the end
  of the active contracts and removes it from that board; drop and travel (delivery)
  leave every board as it was, so a contract that leaves the ship returns to no
  board; refuel and buy-module move nothing; a replenishment leaves the ship as it
  was and only appends to boards. The generator does not compare a new id with the
  ids in use, so uniqueness after a replenishment is not guaranteed.
\<close>

theorem ownership_preserved:
  assumes "uniqueIds s"
  shows "uniqueIds (snd (HandleAcceptContract req s))
     \<and> uniqueIds (snd (HandleDropContract req s))
     \<and> uniqueIds (snd (HandleTravel u req s))
     \<and> uniqueIds (snd (HandleRefuel u s))
     \<and> uniqueIds (snd (HandleBuyModule u req s))
     \<and> (fst (HandleAcceptContract req s) = Encode ship' \<longrightarrow>
          (\<exists>cid i. req = Some cid
             \<and> findIdx cid (AvailableContracts s (LocationKey (PlayerShip s))) = Some i
             \<and> ActiveContracts (PlayerShip (snd (HandleAcceptContract req s)))
                 = ActiveContracts (PlayerShip s) @ [AvailableContracts s (LocationKey (PlayerShip s)) ! i]
             \<and> AvailableContracts (snd (HandleAcceptContract req s))
                 = (AvailableContracts s)(LocationKey (PlayerShip s) :=
                      removeAt i (AvailableContracts s (LocationKey (PlayerShip s))))))
     \<and> AvailableContracts (snd (HandleDropContract req s)) = AvailableContracts s
     \<and> AvailableContracts (snd (HandleTravel u req s)) = AvailableContracts s
     \<and> (ReplenishMarket u s t = Done (updatedPlanets, s', t') \<longrightarrow>
          PlayerShip s' = PlayerShip s
          \<and> (\<forall>k. \<exists>new. AvailableContracts s' k = AvailableContracts s k @ new))"
  using assms
  by (intro conjI impI uniqueIds_accept uniqueIds_drop uniqueIds_travel uniqueIds_refuel uniqueIds_buy
      accept_moves drop_boards travel_boards)
    (auto dest: replenish_appends)

lemma hotAfter_unique: "uniqueIds hotAfter"
  by (auto simp: uniqueIds_def hotAfter_def exShip_def exJob_def exTicket_def)

theorem ownership_preserved_witness:
  "uniqueIds hotAfter
   \<and> uniqueIds (snd (HandleAcceptContract (Some ''CRG-7-42'') hotAfter))
   \<and> ActiveContracts (PlayerShip (snd (HandleAcceptContract (Some ''CRG-7-42'') hotAfter))) = [exJob]
   \<and> AvailableContracts (snd (HandleAcceptContract (Some ''CRG-7-42'') hotAfter)) ''planet_prime'' = []"
proof -
  have a: "ActiveContracts (PlayerShip (snd (HandleAcceptContract (Some ''CRG-7-42'') hotAfter))) = [exJob]"
    "AvailableContracts (snd (HandleAcceptContract (Some ''CRG-7-42'') hotAfter)) ''planet_prime'' = []"
    by (simp_all add: HandleAcceptContract_def hotAfter_def exShip_def exJob_def Let_def loadCounts_def
        removeAt_def int64_small)
  from ownership_preserved [OF hotAfter_unique, of "Some ''CRG-7-42''" exUniverse] hotAfter_unique a
  show ?thesis by simp
qed

end
